(* ===== verification/Irc_Prelude.thy ===== *)
theory Irc_Prelude
  imports Main "HOL-Library.Char_ord" "HOL-Library.Word"
begin

text \<open>
  Shared vocabulary of the development: the characters the parsers compare with, the faults a
  C++ operation can end in, the standard-library operations on \<open>std::string\<close> and
  \<open>std::vector\<close> with their out-of-range behaviour, and the FIFO contract that the message
  queue of the IRC parser and the mailbox of a plugin both provide.
\<close>

section \<open>Characters\<close>

abbreviation SPC :: char where "SPC \<equiv> CHR '' ''"
abbreviation CR :: char where "CR \<equiv> CHR 0x0D"
abbreviation LF :: char where "LF \<equiv> CHR 0x0A"
abbreviation NUL :: char where "NUL \<equiv> CHR 0x00"

definition is_digit :: "char \<Rightarrow> bool" where
  "is_digit x \<longleftrightarrow> CHR ''0'' \<le> x \<and> x \<le> CHR ''9''"

definition is_alpha :: "char \<Rightarrow> bool" where
  "is_alpha x \<longleftrightarrow> (CHR ''a'' \<le> x \<and> x \<le> CHR ''z'') \<or> (CHR ''A'' \<le> x \<and> x \<le> CHR ''Z'')"

section \<open>Faults\<close>

text \<open>
  The ways an operation ends without a value: the exceptions the sources throw or let escape from
  the standard library, yaml-cpp or the future machinery; undefined behaviour (an out-of-range
  \<open>operator[]\<close>, a dereferenced end iterator); a call of \<open>std::terminate\<close>; and a wait that nothing
  can end.
\<close>

datatype fault =
    UnexpectedCharacter string string
  | RuntimeError string
  | LogicError string
  | OutOfRange
  | InvalidArgument
  | BadConversion
  | FutureError
  | SystemError string
  | UndefinedBehaviour
  | Terminate
  | BlockedForever

text \<open>The faults a handler \<open>catch (std::exception&)\<close> receives.\<close>

fun catchable :: "fault \<Rightarrow> bool" where
  "catchable UndefinedBehaviour = False"
| "catchable Terminate = False"
| "catchable BlockedForever = False"
| "catchable _ = True"

type_synonym 'a result = "fault + 'a"

fun bind_result :: "'a result \<Rightarrow> ('a \<Rightarrow> 'b result) \<Rightarrow> 'b result" where
  "bind_result (Inl e) f = Inl e"
| "bind_result (Inr x) f = f x"

text \<open>A loop over a sequence whose body may throw: the first fault ends it.\<close>

fun fold_result :: "('a \<Rightarrow> 's \<Rightarrow> 's result) \<Rightarrow> 'a list \<Rightarrow> 's \<Rightarrow> 's result" where
  "fold_result f [] s = Inr s"
| "fold_result f (x # xs) s = bind_result (f x s) (fold_result f xs)"

named_theorems fault_simps \<open>evaluation of fallible standard-library operations\<close>

lemma bind_result_Inr_iff:
  "bind_result m f = Inr y \<longleftrightarrow> (\<exists>x. m = Inr x \<and> f x = Inr y)"
  by (cases m) auto

lemma bind_result_Inl_iff:
  "bind_result m f = Inl e \<longleftrightarrow> m = Inl e \<or> (\<exists>x. m = Inr x \<and> f x = Inl e)"
  by (cases m) auto

lemma fold_result_append:
  "fold_result f (xs @ ys) s = bind_result (fold_result f xs s) (fold_result f ys)"
proof (induction xs arbitrary: s)
  case Nil
  show ?case by simp
next
  case (Cons x xs)
  then show ?case by (cases "f x s") auto
qed

lemma fold_result_invariant:
  assumes "fold_result f xs s = Inr s'" and "P s"
    and "\<And>x s t. x \<in> set xs \<Longrightarrow> P s \<Longrightarrow> f x s = Inr t \<Longrightarrow> P t"
  shows "P s'"
  using assms
proof (induction xs arbitrary: s)
  case Nil
  then show ?case by simp
next
  case (Cons x xs)
  from Cons.prems(1) obtain t where "f x s = Inr t" and rest: "fold_result f xs t = Inr s'"
    by (auto simp: bind_result_Inr_iff)
  with Cons.prems(2,3) have "P t" by (metis list.set_intros(1))
  with rest show ?case
    by (rule Cons.IH) (use Cons.prems(3) in auto)
qed

section \<open>Standard-library operations with their range checks\<close>

text \<open>
  \<open>std::string::operator[]\<close>: the terminating NUL may be read at index \<open>size()\<close>; beyond it
  the behaviour is undefined. \<open>std::vector::operator[]\<close>, \<open>front()\<close> and \<open>back()\<close> are
  undefined out of range. \<open>substr\<close> throws \<open>std::out_of_range\<close> when its position is past
  the end.
\<close>

definition str_at :: "string \<Rightarrow> nat \<Rightarrow> char result" where
  "str_at s i = (if i < length s then Inr (s ! i)
     else if i = length s then Inr NUL else Inl UndefinedBehaviour)"

definition vec_at :: "'a list \<Rightarrow> nat \<Rightarrow> 'a result" where
  "vec_at xs i = (if i < length xs then Inr (xs ! i) else Inl UndefinedBehaviour)"

definition vec_back :: "'a list \<Rightarrow> 'a result" where
  "vec_back xs = (if xs = [] then Inl UndefinedBehaviour else Inr (last xs))"

definition substr_from :: "string \<Rightarrow> nat \<Rightarrow> string result" where
  "substr_from s pos = (if pos \<le> length s then Inr (drop pos s) else Inl OutOfRange)"

lemma str_at_simps [fault_simps]:
  "str_at [] 0 = Inr NUL"
  "str_at (c # s) 0 = Inr c"
  "str_at (c # s) (Suc i) = str_at s i"
  by (auto simp: str_at_def)

lemma vec_at_simps [fault_simps]:
  "vec_at [] i = Inl UndefinedBehaviour"
  "vec_at (x # xs) 0 = Inr x"
  "vec_at (x # xs) (Suc i) = vec_at xs i"
  by (auto simp: vec_at_def)

lemma vec_back_simps [fault_simps]:
  "vec_back [] = Inl UndefinedBehaviour"
  "vec_back (xs @ [x]) = Inr x"
  "vec_back [x] = Inr x"
  by (auto simp: vec_back_def)

lemma vec_back_Inr: "xs \<noteq> [] \<Longrightarrow> vec_back xs = Inr (last xs)"
  by (simp add: vec_back_def)

section \<open>Numbers and text\<close>

text \<open>\<open>std::to_string\<close> and \<open>operator<<\<close> of an unsigned number.\<close>

definition digit_char :: "nat \<Rightarrow> char" where
  "digit_char d = char_of (48 + d)"

fun to_string :: "nat \<Rightarrow> string" where
  "to_string n = (if n < 10 then [digit_char n] else to_string (n div 10) @ [digit_char (n mod 10)])"

declare to_string.simps [simp del]

definition is_space :: "char \<Rightarrow> bool" where
  "is_space x \<longleftrightarrow> x \<in> {SPC, CHR 0x09, LF, CHR 0x0B, CHR 0x0C, CR}"

definition digits_value :: "string \<Rightarrow> int" where
  "digits_value ds = foldl (\<lambda>v x. 10 * v + (int (of_char x) - 48)) 0 ds"

text \<open>
  \<open>std::stoi\<close>: leading white space, an optional sign, then the longest run of digits; the rest of
  the text is ignored. Without a digit it throws \<open>invalid_argument\<close>, outside the range of
  \<open>int\<close> it throws \<open>out_of_range\<close>.
\<close>

definition stoi_sign :: "string \<Rightarrow> bool \<times> string" where
  "stoi_sign t = (case t of [] \<Rightarrow> (False, [])
     | x # r \<Rightarrow> if x = CHR ''-'' then (True, r) else if x = CHR ''+'' then (False, r) else (False, t))"

definition stoi :: "string \<Rightarrow> int result" where
  "stoi str = (case stoi_sign (dropWhile is_space str) of (neg, u) \<Rightarrow>
     (let ds = takeWhile is_digit u; v = (if neg then - digits_value ds else digits_value ds)
      in if ds = [] then Inl InvalidArgument
         else if v < - (2 ^ 31) \<or> 2 ^ 31 \<le> v then Inl OutOfRange else Inr v))"

lemma digit_char: "d < 10 \<Longrightarrow> is_digit (digit_char d) \<and> of_char (digit_char d) = 48 + (d::nat)"
  by (auto simp: is_digit_def digit_char_def less_eq_char_def of_char_of)

lemma to_string_digits: "\<forall>x \<in> set (to_string n). is_digit x"
proof (induction n rule: to_string.induct)
  case (1 n)
  then show ?case by (subst to_string.simps) (auto simp: digit_char)
qed

lemma to_string_nonempty [simp]: "to_string n \<noteq> []"
  by (subst to_string.simps) simp

lemma digits_value_to_string: "digits_value (to_string n) = int n"
proof (induction n rule: to_string.induct)
  case (1 n)
  show ?case
  proof (cases "n < 10")
    case True
    then show ?thesis by (subst to_string.simps) (simp add: digits_value_def digit_char)
  next
    case False
    with 1 have "digits_value (to_string (n div 10)) = int (n div 10)" by simp
    then have "digits_value (to_string n) = 10 * int (n div 10) + int (n mod 10)"
      using False by (subst to_string.simps) (simp add: digits_value_def digit_char)
    then show ?thesis by presburger
  qed
qed

lemma is_digit_excludes: "is_digit x \<Longrightarrow> \<not> is_space x \<and> x \<noteq> CHR ''-'' \<and> x \<noteq> CHR ''+''"
  by (auto simp: is_digit_def is_space_def less_eq_char_def)

lemma stoi_to_string: "n < 2 ^ 31 \<Longrightarrow> stoi (to_string n) = Inr (int n)"
proof -
  assume n: "n < 2 ^ 31"
  obtain x xs where xs: "to_string n = x # xs" by (cases "to_string n") auto
  with to_string_digits [of n] have x: "is_digit x" by simp
  then have "dropWhile is_space (to_string n) = to_string n" using xs is_digit_excludes by simp
  moreover have "stoi_sign (to_string n) = (False, to_string n)"
    using xs x is_digit_excludes by (simp add: stoi_sign_def)
  moreover have t: "takeWhile is_digit (to_string n) = to_string n"
    using to_string_digits takeWhile_eq_all_conv by blast
  ultimately show ?thesis
    using n unfolding stoi_def by (simp add: digits_value_to_string Let_def t del: takeWhile_eq_all_conv)
qed

section \<open>FIFO queues\<close>

text \<open>
  Draining \<open>n\<close> elements with a fallible pop, as the loop
  \<open>while (q.count() > 0) q.pop()\<close> does.
\<close>

fun pop_n :: "('q \<Rightarrow> ('a \<times> 'q) result) \<Rightarrow> nat \<Rightarrow> 'q \<Rightarrow> ('a list \<times> 'q) result" where
  "pop_n pop 0 q = Inr ([], q)"
| "pop_n pop (Suc n) q = bind_result (pop q) (\<lambda>(x, q').
     bind_result (pop_n pop n q') (\<lambda>(xs, q''). Inr (x # xs, q'')))"

text \<open>
  The contract of a queue: \<open>push\<close> appends, \<open>pop\<close> returns and removes the oldest element and
  is undefined on an empty queue, \<open>count\<close> is the length.
\<close>

locale fifo =
  fixes contents :: "'q \<Rightarrow> 'a list"
    and push :: "'a \<Rightarrow> 'q \<Rightarrow> 'q"
    and pop :: "'q \<Rightarrow> ('a \<times> 'q) result"
    and count :: "'q \<Rightarrow> nat"
  assumes contents_push: "contents (push x q) = contents q @ [x]"
    and pop_empty: "contents q = [] \<Longrightarrow> pop q = Inl UndefinedBehaviour"
    and pop_cons: "contents q = x # xs \<Longrightarrow> \<exists>q'. pop q = Inr (x, q') \<and> contents q' = xs"
    and count_contents: "count q = length (contents q)"
begin

lemma pop_defined_iff: "(\<exists>r. pop q = Inr r) \<longleftrightarrow> 0 < count q"
proof (cases "contents q")
  case Nil
  then show ?thesis by (simp add: pop_empty count_contents)
next
  case (Cons x xs)
  then show ?thesis using pop_cons [OF Cons] by (auto simp: count_contents)
qed

lemma pop_n_prefix:
  "n \<le> count q \<Longrightarrow> \<exists>q'. pop_n pop n q = Inr (take n (contents q), q') \<and>
     contents q' = drop n (contents q)"
proof (induction n arbitrary: q)
  case 0
  show ?case by simp
next
  case (Suc n)
  then obtain x xs where xs: "contents q = x # xs" and n: "n \<le> length xs"
    by (cases "contents q") (auto simp: count_contents)
  from pop_cons [OF xs] obtain q1 where q1: "pop q = Inr (x, q1)" "contents q1 = xs" by blast
  with n have "n \<le> count q1" by (simp add: count_contents)
  from Suc.IH [OF this] q1 xs show ?case by auto
qed

lemma drain:
  "\<exists>q'. pop_n pop (count q) q = Inr (contents q, q') \<and> contents q' = []"
  using pop_n_prefix [of "count q" q] by (simp add: count_contents)

lemma contents_push_all: "contents (fold push xs q) = contents q @ xs"
  by (induction xs arbitrary: q) (simp_all add: contents_push)

lemma push_all_then_drain:
  "contents q = [] \<Longrightarrow>
     \<exists>q'. pop_n pop (length xs) (fold push xs q) = Inr (xs, q') \<and> contents q' = []"
  using drain [of "fold push xs q"] by (simp add: contents_push_all count_contents)

end

section \<open>Tables\<close>

text \<open>
  The contract of a keyed table: insertion overwrites, deletion forgets one key only.
\<close>

locale table =
  fixes lookup :: "'t \<Rightarrow> 'k \<Rightarrow> 'v option"
    and insert :: "'k \<Rightarrow> 'v \<Rightarrow> 't \<Rightarrow> 't"
    and delete :: "'k \<Rightarrow> 't \<Rightarrow> 't"
  assumes lookup_insert: "lookup (insert k v t) k' = (if k' = k then Some v else lookup t k')"
    and lookup_delete: "lookup (delete k t) k' = (if k' = k then None else lookup t k')"
begin

lemma lookup_insert_all:
  "lookup (fold (\<lambda>(k, v). insert k v) kvs t) k =
     (case map_of (rev kvs) k of Some v \<Rightarrow> Some v | None \<Rightarrow> lookup t k)"
  by (induction kvs arbitrary: t) (auto simp: lookup_insert map_add_def split: option.split)

lemma lookup_delete_all:
  "lookup (fold delete ks t) k = (if k \<in> set ks then None else lookup t k)"
  by (induction ks arbitrary: t) (auto simp: lookup_delete)

lemma insert_overwrites: "lookup (insert k v (insert k u t)) = lookup (insert k v t)"
  by (rule ext) (simp add: lookup_insert)

end

section \<open>Lists\<close>

lemma takeWhile_dropWhile_Cons:
  "\<exists>x \<in> set xs. \<not> P x \<Longrightarrow> \<exists>y ys. dropWhile P xs = y # ys \<and> \<not> P y"
  by (induction xs) auto

lemma find_split_append: "find P (xs @ ys) = (case find P xs of Some x \<Rightarrow> Some x | None \<Rightarrow> find P ys)"
  by (induction xs) auto

end
