(* ===== verification/Logging.thy ===== *)
theory Logging
  imports Irc_Prelude
begin

text \<open>
  Logging: the levels (source/log_level.cpp), an output with its threshold (source/log_output.cpp
  and the four derived classes) and the logger that formats a line and passes it to all outputs
  (source/logger.cpp, include/ircbot/logger.impl.hpp).
\<close>

section \<open>Levels\<close>

datatype log_level = DEBUG | INFO | WARNING | ERROR | CRITICAL

fun level_value :: "log_level \<Rightarrow> nat" where
  "level_value DEBUG = 0"
| "level_value INFO = 1"
| "level_value WARNING = 2"
| "level_value ERROR = 3"
| "level_value CRITICAL = 4"

text \<open>The order of the enumerators, on which the threshold comparison rests.\<close>

instantiation log_level :: linorder
begin

definition less_eq_log_level :: "log_level \<Rightarrow> log_level \<Rightarrow> bool" where
  "less_eq_log_level a b \<longleftrightarrow> level_value a \<le> level_value b"

definition less_log_level :: "log_level \<Rightarrow> log_level \<Rightarrow> bool" where
  "less_log_level a b \<longleftrightarrow> level_value a < level_value b"

instance
proof
  show "a = b" if "a \<le> b" "b \<le> a" for a b :: log_level
    using that by (cases a; cases b) (auto simp: less_eq_log_level_def)
qed (auto simp: less_eq_log_level_def less_log_level_def)

end

fun LogLevelDesc :: "log_level \<Rightarrow> string" where
  "LogLevelDesc DEBUG = ''DEBUG''"
| "LogLevelDesc INFO = ''INFO''"
| "LogLevelDesc WARNING = ''WARNING''"
| "LogLevelDesc ERROR = ''ERROR''"
| "LogLevelDesc CRITICAL = ''CRITICAL''"

definition log_levels :: "string \<rightharpoonup> log_level" where
  "log_levels = map_of [(''DEBUG'', DEBUG), (''INFO'', INFO), (''WARNING'', WARNING), (''ERROR'', ERROR),
     (''CRITICAL'', CRITICAL)]"

definition GetLogLevel :: "string \<Rightarrow> log_level result" where
  "GetLogLevel desc = (case log_levels desc of
     None \<Rightarrow> Inl (RuntimeError ''Could not convert description to LogLevel!'')
   | Some l \<Rightarrow> Inr l)"

section \<open>Outputs\<close>

text \<open>
  The stream behind an output: \<open>CoutLogOutput\<close>, \<open>ClogLogOutput\<close>, \<open>CerrLogOutput\<close> or a file.
  What has been written to each stream is the second component of the state.
\<close>

datatype stream = Cout | Clog | Cerr | File string

record log_output =
  m_level :: log_level
  output_stream :: stream

type_synonym streams = "stream \<Rightarrow> string"

definition LogOutput_log :: "log_level \<Rightarrow> string \<Rightarrow> log_output \<Rightarrow> streams \<Rightarrow> streams" where
  "LogOutput_log level message out s =
     (if level \<ge> m_level out then s(output_stream out := s (output_stream out) @ message) else s)"

text \<open>Opening the file truncates it; a file that could not be opened throws.\<close>

definition FileLogOutput :: "(string \<Rightarrow> bool) \<Rightarrow> string \<Rightarrow> log_level \<Rightarrow> streams \<Rightarrow> (log_output \<times> streams) result" where
  "FileLogOutput can_open fname level s =
     (if \<not> can_open fname then Inl (RuntimeError (''Could not open file: '' @ fname))
      else Inr (\<lparr>m_level = level, output_stream = File fname\<rparr>, s(File fname := '''')))"

section \<open>The logger\<close>

record logger =
  m_outputs :: "log_output list"
  m_stream :: string

definition addOutput :: "log_output \<Rightarrow> logger \<Rightarrow> logger" where
  "addOutput out lg = lg\<lparr>m_outputs := m_outputs lg @ [out]\<rparr>"

definition outputsCount :: "logger \<Rightarrow> nat" where
  "outputsCount lg = length (m_outputs lg)"

definition clearOutputs :: "logger \<Rightarrow> logger" where
  "clearOutputs lg = lg\<lparr>m_outputs := []\<rparr>"

text \<open>The variadic helper: each argument, then the line feed.\<close>

fun log_args :: "string list \<Rightarrow> string \<Rightarrow> string" where
  "log_args [] acc = acc @ [LF]"
| "log_args (f # r) acc = log_args r (acc @ f)"

text \<open>\<open>operator()\<close>; \<open>time\<close> is the formatted local time and the arguments are their printed forms.\<close>

definition log_call :: "string \<Rightarrow> log_level \<Rightarrow> string list \<Rightarrow> logger \<times> streams \<Rightarrow> logger \<times> streams" where
  "log_call time level args = (\<lambda>(lg, s).
     let line = log_args args (time @ '' '' @ LogLevelDesc level @ '': '') in
     (lg\<lparr>m_stream := line\<rparr>, fold (LogOutput_log level line) (m_outputs lg) s))"

text \<open>The macros: \<open>DEBUG\<close> expands to nothing unless \<open>LOG_DEBUG\<close> is defined.\<close>

definition LOG_macro :: "string \<Rightarrow> log_level \<Rightarrow> string \<Rightarrow> string list \<Rightarrow> logger \<times> streams \<Rightarrow> logger \<times> streams" where
  "LOG_macro time level function args = log_call time level (function # '': '' # args)"

definition DEBUG_macro :: "bool \<Rightarrow> string \<Rightarrow> string \<Rightarrow> string list \<Rightarrow> logger \<times> streams \<Rightarrow> logger \<times> streams" where
  "DEBUG_macro log_debug time function args =
     (if log_debug then LOG_macro time DEBUG function args else id)"

section \<open>Lemmas\<close>

lemma log_args_concat: "log_args args acc = acc @ concat args @ [LF]"
  by (induction args arbitrary: acc) simp_all

lemma log_outputs:
  "fold (LogOutput_log level line) outs s d =
     s d @ concat (map (\<lambda>q. line) (filter (\<lambda>q. output_stream q = d \<and> m_level q \<le> level) outs))"
  by (induction outs arbitrary: s) (auto simp: LogOutput_log_def)

text \<open>A call: time, level, arguments.\<close>

type_synonym log_entry = "string \<times> log_level \<times> string list"

definition log_all :: "log_entry list \<Rightarrow> logger \<times> streams \<Rightarrow> logger \<times> streams" where
  "log_all = fold (\<lambda>(time, level, args). log_call time level args)"

fun entry_line :: "log_entry \<Rightarrow> string" where
  "entry_line (time, level, args) = time @ '' '' @ LogLevelDesc level @ '': '' @ concat args @ [LF]"

lemma log_call_outputs [simp]: "m_outputs (fst (log_call time level args ls)) = m_outputs (fst ls)"
  by (cases ls) (simp add: log_call_def Let_def)

text \<open>
  Remark: what a sequence of log calls adds to a stream: for every call, in order, its line once for
  each output on that stream whose threshold the level reaches, and nothing else.
\<close>

theorem logged_lines:
  "snd (log_all es (lg, s)) d = s d @ concat (map (\<lambda>e. concat (map (\<lambda>q. entry_line e)
     (filter (\<lambda>q. output_stream q = d \<and> m_level q \<le> fst (snd e)) (m_outputs lg)))) es)"
proof (induction es arbitrary: lg s)
  case Nil
  show ?case by (simp add: log_all_def)
next
  case (Cons e es)
  obtain time level args where e: "e = (time, level, args)" by (cases e) auto
  obtain lg' s' where c: "log_call time level args (lg, s) = (lg', s')"
    by (cases "log_call time level args (lg, s)") auto
  have "m_outputs lg' = m_outputs lg" using log_call_outputs [of time level args "(lg, s)"] c by simp
  moreover have "s' d = s d @ concat (map (\<lambda>q. entry_line e)
     (filter (\<lambda>q. output_stream q = d \<and> m_level q \<le> level) (m_outputs lg)))"
    using c by (auto simp: log_call_def Let_def log_outputs log_args_concat e)
  ultimately show ?case using Cons.IH [of lg' s'] c e by (simp add: log_all_def)
qed

lemma GetLogLevel_iff: "GetLogLevel desc = Inr level \<longleftrightarrow> desc = LogLevelDesc level"
  by (cases level) (auto simp: GetLogLevel_def log_levels_def split: if_split_asm)

text \<open>
  Remark: reading the description of a level gives that level, and every other text is rejected.
\<close>

theorem log_level_roundtrip:
  "GetLogLevel desc = Inr level \<longleftrightarrow> desc = LogLevelDesc level"
  by (rule GetLogLevel_iff)

end
