(* ===== verification/Irc_Message.thy ===== *)
theory Irc_Message
  imports Irc_Prelude
begin

text \<open>
  \<open>IRCMessage\<close> (include/ircbot/irc_message.hpp, source/irc_message.cpp): the parsed form of an
  IRC line, its textual form, and the conversion from the message that plugins send over TCP.
  The second half models the string helpers of source/helpers.cpp that read messages.
\<close>

section \<open>The message\<close>

record irc_message =
  servername :: string
  user :: string
  nick :: string
  host :: string
  command :: string
  params :: "string list"

definition empty_message :: irc_message where
  "empty_message = \<lparr>servername = '''', user = '''', nick = '''', host = '''', command = '''',
     params = []\<rparr>"

text \<open>The constructor that takes a command and parameters.\<close>

definition IRCMessage :: "string \<Rightarrow> string list \<Rightarrow> irc_message" where
  "IRCMessage cmd ps = empty_message\<lparr>command := cmd, params := ps\<rparr>"

definition prefix_string :: "irc_message \<Rightarrow> string" where
  "prefix_string m =
     (if servername m = '''' \<and> nick m \<noteq> '''' then
        '':'' @ nick m @ (if user m \<noteq> '''' then ''!'' @ user m else '''')
              @ (if host m \<noteq> '''' then ''@'' @ host m else '''') @ '' ''
      else if servername m \<noteq> '''' then '':'' @ servername m @ '' '' else '''')"

definition params_string :: "string list \<Rightarrow> string" where
  "params_string ps = (if ps = [] then ''''
     else concat (map (\<lambda>q. SPC # q) (butlast ps)) @ '' :'' @ last ps)"

definition toString :: "irc_message \<Rightarrow> bool \<Rightarrow> string" where
  "toString m stripCRLF = prefix_string m @ command m @ params_string (params m)
     @ (if stripCRLF then '''' else [CR, LF])"

lemma empty_message_simps [simp]:
  "servername empty_message = ''''" "user empty_message = ''''" "nick empty_message = ''''"
  "host empty_message = ''''" "command empty_message = ''''" "params empty_message = []"
  by (simp_all add: empty_message_def)

lemma IRCMessage_simps [simp]:
  "servername (IRCMessage c ps) = ''''" "user (IRCMessage c ps) = ''''"
  "nick (IRCMessage c ps) = ''''" "host (IRCMessage c ps) = ''''"
  "command (IRCMessage c ps) = c" "params (IRCMessage c ps) = ps"
  by (simp_all add: IRCMessage_def)

lemma IRCMessage_toString:
  "toString (IRCMessage c ps) strip = c @ params_string ps @ (if strip then '''' else [CR, LF])"
  by (simp add: toString_def prefix_string_def)

lemma set_params_string:
  "set (params_string ps) \<subseteq> {SPC, CHR '':''} \<union> (\<Union>q \<in> set ps. set q)"
proof (cases "ps = []")
  case True
  then show ?thesis by (simp add: params_string_def)
next
  case False
  then have "last ps \<in> set ps" by simp
  then have "set (last ps) \<subseteq> (\<Union>q \<in> set ps. set q)" by blast
  with False show ?thesis by (auto simp: params_string_def dest: in_set_butlastD)
qed

section \<open>Conversion from the plugin protocol\<close>

text \<open>
  \<open>PluginProtocol::IrcMessage\<close> is generated from protobuf/irc_message.proto: five strings and a
  repeated string, each read through an accessor.
\<close>

record pb_irc_message =
  pb_servername :: string
  pb_user :: string
  pb_nick :: string
  pb_host :: string
  pb_command :: string
  pb_params :: "string list"

text \<open>The loop copies \<open>params(i)\<close> for \<open>i\<close> from 0 to \<open>params_size()\<close>.\<close>

definition fromProtobuf :: "pb_irc_message \<Rightarrow> irc_message" where
  "fromProtobuf pb =
     (let msg = empty_message\<lparr>servername := pb_servername pb, user := pb_user pb,
                nick := pb_nick pb, host := pb_host pb, command := pb_command pb\<rparr>
      in foldl (\<lambda>m i. m\<lparr>params := params m @ [pb_params pb ! i]\<rparr>) msg [0 ..< length (pb_params pb)])"

lemma fromProtobuf_params_loop:
  "n \<le> length ps \<Longrightarrow>
   foldl (\<lambda>m i. m\<lparr>params := params m @ [ps ! i]\<rparr>) m [0 ..< n] = m\<lparr>params := params m @ take n ps\<rparr>"
  by (induction n) (simp_all add: take_Suc_conv_app_nth)

lemma fromProtobuf_simps [simp]:
  "servername (fromProtobuf pb) = pb_servername pb"
  "user (fromProtobuf pb) = pb_user pb"
  "nick (fromProtobuf pb) = pb_nick pb"
  "host (fromProtobuf pb) = pb_host pb"
  "command (fromProtobuf pb) = pb_command pb"
  "params (fromProtobuf pb) = pb_params pb"
  by (simp_all add: fromProtobuf_def Let_def fromProtobuf_params_loop)

section \<open>String helpers\<close>

text \<open>
  \<open>removeLineFeed\<close> reads \<open>back()\<close> without asking whether the string is empty, and
  \<open>str[len - 1]\<close> without asking whether \<open>len\<close> is 0 (the index then wraps to the largest
  \<open>size_t\<close>): both are undefined.
\<close>

definition removeLineFeed :: "string \<Rightarrow> string result" where
  "removeLineFeed str = bind_result (vec_back str) (\<lambda>b.
     (if b = LF then
        (let len = length str - 1 in
         if len = 0 then Inl UndefinedBehaviour
         else bind_result (str_at str (len - 1)) (\<lambda>c.
           Inr (take (if c = CR then len - 1 else len) str)))
      else Inr (take (length str) str)))"

definition startsWith :: "string \<Rightarrow> string \<Rightarrow> bool" where
  "startsWith str start \<longleftrightarrow> take (length start) str = start"

definition isIn :: "char \<Rightarrow> string \<Rightarrow> bool" where
  "isIn c s \<longleftrightarrow> c \<in> set s"

text \<open>
  \<open>responseDestination\<close>: the channel for a message that went to a channel, the sender
  otherwise. \<open>params[0]\<close> is read without a check that it exists.
\<close>

definition responseDestination :: "irc_message \<Rightarrow> bool \<Rightarrow> string result" where
  "responseDestination msg priv =
     (if \<not> priv \<and> command msg = ''PRIVMSG'' then
        bind_result (vec_at (params msg) 0) (\<lambda>p0. bind_result (str_at p0 0) (\<lambda>c.
          if c = CHR ''#'' \<or> c = CHR ''&'' \<or> c = CHR ''+'' then Inr p0 else Inr (nick msg)))
      else Inr (nick msg))"

definition is_channel_name :: "string \<Rightarrow> bool" where
  "is_channel_name s \<longleftrightarrow> (\<exists>c cs. s = c # cs \<and> c \<in> {CHR ''#'', CHR ''&'', CHR ''+''})"

lemma startsWith_append: "startsWith str start \<longleftrightarrow> (\<exists>rest. str = start @ rest)"
  unfolding startsWith_def by (metis append_eq_conv_conj append_take_drop_id)

lemma removeLineFeed_CRLF: "removeLineFeed (s @ [CR, LF]) = Inr s"
  by (auto simp: removeLineFeed_def vec_back_def str_at_def Let_def nth_append)

lemma removeLineFeed_fault: "removeLineFeed s = Inl UndefinedBehaviour \<longleftrightarrow> s = [] \<or> s = [LF]"
proof -
  have "length s - 1 = 0 \<Longrightarrow> s \<noteq> [] \<Longrightarrow> last s = LF \<Longrightarrow> s = [LF]"
    by (cases s) auto
  then show ?thesis
    by (auto simp: removeLineFeed_def vec_back_def str_at_def Let_def)
qed

lemma responseDestination_privmsg:
  "command m = ''PRIVMSG'' \<Longrightarrow> params m = p # ps \<Longrightarrow>
   responseDestination m False = Inr (if is_channel_name p then p else nick m)"
  by (cases p) (auto simp: responseDestination_def is_channel_name_def fault_simps)

lemma responseDestination_undefined_iff:
  "responseDestination m priv = Inl e \<longleftrightarrow>
   e = UndefinedBehaviour \<and> \<not> priv \<and> command m = ''PRIVMSG'' \<and> params m = []"
  by (cases "params m") (auto simp: responseDestination_def vec_at_def str_at_def)

end
