(* ===== verification/Command_Parser.thy ===== *)
theory Command_Parser
  imports Irc_Message
begin

text \<open>
  \<open>CommandParser\<close> (include/ircbot/command_parser.hpp, source/command_parser.cpp) splits the text of
  a user's command into its name and arguments, with quotes and an escape character. It is used by
  plugins on channel messages and by the admin port on the bytes of its socket.
\<close>

section \<open>State\<close>

record parser_config =
  prefix :: char
  parseOneCommand :: bool

datatype cp_phase = CP_START | CP_PREFIX | CP_COMMAND | CP_ARGUMENT

text \<open>\<open>CommandParser::Command\<close>.\<close>

record cmd =
  cmd_command :: string
  arguments :: "string list"
  cmd_irc_message :: irc_message

definition empty_cmd :: cmd where
  "empty_cmd = \<lparr>cmd_command = '''', arguments = [], cmd_irc_message = empty_message\<rparr>"

text \<open>The local variables of \<open>CommandParser::parse\<close>.\<close>

record cp =
  do_escape :: int
  is_quoted :: bool
  is_dquote :: bool
  cp_state :: cp_phase
  cp_token :: string
  cp_cmd :: cmd

abbreviation QUOTE :: char where "QUOTE \<equiv> CHR 0x27"
abbreviation DQUOTE :: char where "DQUOTE \<equiv> CHR 0x22"
abbreviation ESCAPE :: char where "ESCAPE \<equiv> CHR 0x5C"

definition isCommandCharacter :: "char \<Rightarrow> bool" where
  "isCommandCharacter x \<longleftrightarrow> (x \<ge> CHR ''a'' \<and> x \<le> CHR ''z'') \<or> (x \<ge> CHR ''A'' \<and> x \<le> CHR ''Z'')
     \<or> (x \<ge> CHR ''0'' \<and> x \<le> CHR ''9'') \<or> x = CHR ''-''"

text \<open>
  The exception's message. \<open>std::string{1, x}\<close> in the calls below selects the constructor that takes
  a list of characters, so the text given is the character 1 followed by \<open>x\<close>.
\<close>

fun what :: "fault \<Rightarrow> string" where
  "what (UnexpectedCharacter given expected) =
     ''Unexpected character: '' @ given @ ''. Expected: '' @ expected"
| "what (RuntimeError s) = s"
| "what (LogicError s) = s"
| "what _ = ''''"

definition brace_string :: "char \<Rightarrow> string" where
  "brace_string x = [CHR 0x01, x]"

section \<open>The parser\<close>

text \<open>
  The loop body for one character, without the decrement that ends it. The cases follow the order of
  the tests in the source; in the argument part an escaped character is taken before anything else.
\<close>

definition cp_argument_char :: "char \<Rightarrow> cp \<Rightarrow> cp" where
  "cp_argument_char x s =
     (if do_escape s > 0 then s\<lparr>cp_token := cp_token s @ [x]\<rparr>
      else if x = ESCAPE then s\<lparr>do_escape := 2\<rparr>
      else if x = QUOTE then
        (if is_quoted s \<and> \<not> is_dquote s then s\<lparr>is_quoted := False\<rparr>
         else if \<not> is_quoted s then s\<lparr>is_quoted := True, is_dquote := False\<rparr>
         else s\<lparr>cp_token := cp_token s @ [x]\<rparr>)
      else if x = DQUOTE then
        (if is_quoted s \<and> is_dquote s then s\<lparr>is_quoted := False\<rparr>
         else if \<not> is_quoted s then s\<lparr>is_quoted := True, is_dquote := True\<rparr>
         else s\<lparr>cp_token := cp_token s @ [x]\<rparr>)
      else if is_quoted s then s\<lparr>cp_token := cp_token s @ [x]\<rparr>
      else if x = CR then s
      else if x = SPC \<or> x = LF then
        s\<lparr>cp_token := '''', cp_cmd := (cp_cmd s)\<lparr>arguments := arguments (cp_cmd s) @ [cp_token s]\<rparr>\<rparr>
      else s\<lparr>cp_token := cp_token s @ [x]\<rparr>)"

definition cp_char :: "parser_config \<Rightarrow> char \<Rightarrow> cp \<Rightarrow> cp result" where
  "cp_char config x s = (case cp_state s of
     CP_START \<Rightarrow>
       (if x = prefix config then Inr (s\<lparr>cp_state := CP_COMMAND\<rparr>)
        else Inl (UnexpectedCharacter (brace_string x) (brace_string (prefix config))))
   | CP_COMMAND \<Rightarrow>
       (if isCommandCharacter x then Inr (s\<lparr>cp_token := cp_token s @ [x]\<rparr>)
        else if x = SPC then
          Inr (s\<lparr>cp_state := CP_ARGUMENT, cp_token := '''', cp_cmd := (cp_cmd s)\<lparr>cmd_command := cp_token s\<rparr>\<rparr>)
        else if x = CR \<or> x = LF then Inr s
        else Inl (UnexpectedCharacter (brace_string x) ''a-zA-Z0-9-''))
   | CP_ARGUMENT \<Rightarrow> Inr (cp_argument_char x s)
   | CP_PREFIX \<Rightarrow> Inr s)"

definition cp_step :: "parser_config \<Rightarrow> char \<Rightarrow> cp \<Rightarrow> cp result" where
  "cp_step config x s =
     bind_result (cp_char config x s) (\<lambda>s'. Inr (s'\<lparr>do_escape := do_escape s' - 1\<rparr>))"

definition cp_init :: "parser_config \<Rightarrow> cp" where
  "cp_init config = \<lparr>do_escape = 0, is_quoted = False, is_dquote = False,
     cp_state = (if prefix config = NUL then CP_COMMAND else CP_START),
     cp_token = '''', cp_cmd = empty_cmd\<rparr>"

definition cp_finish :: "cp \<Rightarrow> cmd" where
  "cp_finish s =
     (if cp_token s \<noteq> '''' then
        (if cp_state s = CP_COMMAND then (cp_cmd s)\<lparr>cmd_command := cp_token s\<rparr>
         else if cp_state s = CP_ARGUMENT then
           (cp_cmd s)\<lparr>arguments := arguments (cp_cmd s) @ [cp_token s]\<rparr>
         else cp_cmd s)
      else cp_cmd s)"

definition command_parse :: "parser_config \<Rightarrow> string \<Rightarrow> cmd result" where
  "command_parse config text = bind_result (fold_result (cp_step config) text (cp_init config))
     (\<lambda>s. Inr (cp_finish s))"

section \<open>Reference definition\<close>

text \<open>
  The same splitting without flags and counters: a quoting mode instead of two booleans, and an
  escape that reads its character at once instead of through a counter.
\<close>

datatype quoting = Unquoted | Single | Double

fun toggle :: "quoting \<Rightarrow> quoting \<Rightarrow> quoting" where
  "toggle q Unquoted = q"
| "toggle q r = (if q = r then Unquoted else r)"

fun split_arguments :: "quoting \<Rightarrow> string \<Rightarrow> string \<Rightarrow> string list" where
  "split_arguments q w [] = (if w = '''' then [] else [w])"
| "split_arguments q w (x # xs) =
     (if x = ESCAPE then
        (case xs of [] \<Rightarrow> split_arguments q w [] | y # ys \<Rightarrow> split_arguments q (w @ [y]) ys)
      else if x = QUOTE then
        split_arguments (toggle Single q) (if q = Double then w @ [x] else w) xs
      else if x = DQUOTE then
        split_arguments (toggle Double q) (if q = Single then w @ [x] else w) xs
      else if q \<noteq> Unquoted then split_arguments q (w @ [x]) xs
      else if x = CR then split_arguments q w xs
      else if x = SPC \<or> x = LF then w # split_arguments q '''' xs
      else split_arguments q (w @ [x]) xs)"
definition command_word_char :: "char \<Rightarrow> bool" where
  "command_word_char c \<longleftrightarrow> isCommandCharacter c \<or> c = CR \<or> c = LF"

text \<open>The text after the prefix: the word up to the first space, then the arguments.\<close>

definition split_body :: "string \<Rightarrow> cmd result" where
  "split_body xs =
     (case find (\<lambda>c. \<not> command_word_char c) (takeWhile (\<lambda>c. c \<noteq> SPC) xs) of
        Some c \<Rightarrow> Inl (UnexpectedCharacter (brace_string c) ''a-zA-Z0-9-'')
      | None \<Rightarrow> Inr \<lparr>cmd_command = filter isCommandCharacter (takeWhile (\<lambda>c. c \<noteq> SPC) xs),
          arguments = split_arguments Unquoted '''' (drop 1 (dropWhile (\<lambda>c. c \<noteq> SPC) xs)),
          cmd_irc_message = empty_message\<rparr>)"

definition split_command :: "parser_config \<Rightarrow> string \<Rightarrow> cmd result" where
  "split_command config xs =
     (if prefix config = NUL then split_body xs
      else (case xs of
          [] \<Rightarrow> Inr empty_cmd
        | x # body \<Rightarrow> if x = prefix config then split_body body
            else Inl (UnexpectedCharacter (brace_string x) (brace_string (prefix config)))))"

section \<open>The parser refines the reference\<close>

definition quoting_of :: "cp \<Rightarrow> quoting" where
  "quoting_of s = (if \<not> is_quoted s then Unquoted else if is_dquote s then Double else Single)"

definition run_from :: "parser_config \<Rightarrow> string \<Rightarrow> cp \<Rightarrow> cmd result" where
  "run_from config xs s = bind_result (fold_result (cp_step config) xs s) (\<lambda>s'. Inr (cp_finish s'))"

lemma run_from_Nil [simp]: "run_from config [] s = Inr (cp_finish s)"
  by (simp add: run_from_def)

lemma run_from_Cons:
  "run_from config (x # xs) s = bind_result (cp_step config x s) (run_from config xs)"
  by (cases "cp_step config x s") (simp_all add: run_from_def)

lemma cp_step_argument:
  "cp_state s = CP_ARGUMENT \<Longrightarrow> cp_step config x s =
     Inr ((cp_argument_char x s)\<lparr>do_escape := do_escape (cp_argument_char x s) - 1\<rparr>)"
  by (simp add: cp_step_def cp_char_def)

text \<open>An unescaped character, by the abstract mode.\<close>

lemma cp_argument_char_abs:
  assumes "do_escape s \<le> 0" and "x \<noteq> ESCAPE"
  defines "t \<equiv> cp_argument_char x s"
  shows "quoting_of t = (if x = QUOTE then toggle Single (quoting_of s)
      else if x = DQUOTE then toggle Double (quoting_of s) else quoting_of s)"
    and "cp_token t = (if x = QUOTE then (if quoting_of s = Double then cp_token s @ [x] else cp_token s)
      else if x = DQUOTE then (if quoting_of s = Single then cp_token s @ [x] else cp_token s)
      else if quoting_of s \<noteq> Unquoted then cp_token s @ [x]
      else if x = CR then cp_token s else if x = SPC \<or> x = LF then '''' else cp_token s @ [x])"
    and "cp_cmd t = (if quoting_of s = Unquoted \<and> (x = SPC \<or> x = LF)
      then (cp_cmd s)\<lparr>arguments := arguments (cp_cmd s) @ [cp_token s]\<rparr> else cp_cmd s)"
    and "do_escape t = do_escape s" and "cp_state t = cp_state s"
  using assms(1,2) by (auto simp: t_def cp_argument_char_def quoting_of_def)

definition argument_state :: "cp \<Rightarrow> bool" where
  "argument_state s \<longleftrightarrow> cp_state s = CP_ARGUMENT \<and> do_escape s \<le> 0"

lemma cp_step_plain:
  assumes "argument_state s" and "x \<noteq> ESCAPE"
  obtains t where "cp_step config x s = Inr t" and "argument_state t"
    and "quoting_of t = quoting_of (cp_argument_char x s)"
    and "cp_token t = cp_token (cp_argument_char x s)" and "cp_cmd t = cp_cmd (cp_argument_char x s)"
proof
  let ?u = "cp_argument_char x s"
  show "cp_step config x s = Inr (?u\<lparr>do_escape := do_escape ?u - 1\<rparr>)"
    using assms by (simp add: cp_step_argument argument_state_def)
  show "argument_state (?u\<lparr>do_escape := do_escape ?u - 1\<rparr>)"
    using assms cp_argument_char_abs(4,5) [of s x] by (simp add: argument_state_def)
qed (simp_all add: quoting_of_def)

lemma cp_step_escaped:
  assumes "argument_state s"
  obtains t where "bind_result (cp_step config ESCAPE s) (cp_step config y) = Inr t"
    and "argument_state t" and "quoting_of t = quoting_of s" and "cp_token t = cp_token s @ [y]"
    and "cp_cmd t = cp_cmd s"
proof
  show "bind_result (cp_step config ESCAPE s) (cp_step config y) =
      Inr (s\<lparr>cp_token := cp_token s @ [y], do_escape := 0\<rparr>)"
    using assms by (simp add: cp_step_argument argument_state_def cp_argument_char_def)
qed (use assms in \<open>simp_all add: argument_state_def quoting_of_def\<close>)

lemma cp_finish_argument:
  "argument_state s \<Longrightarrow> cp_finish s =
     (cp_cmd s)\<lparr>arguments := arguments (cp_cmd s) @ split_arguments q (cp_token s) []\<rparr>"
  by (simp add: cp_finish_def argument_state_def)

lemma split_arguments_plain:
  assumes "x \<noteq> ESCAPE" and "argument_state s"
  defines "t \<equiv> cp_argument_char x s"
  shows "arguments (cp_cmd s) @ split_arguments (quoting_of s) (cp_token s) (x # xs) =
    arguments (cp_cmd t) @ split_arguments (quoting_of t) (cp_token t) xs"
    and "(cp_cmd t)\<lparr>arguments := as\<rparr> = (cp_cmd s)\<lparr>arguments := as\<rparr>"
proof -
  from assms(2) have e: "do_escape s \<le> 0" by (simp add: argument_state_def)
  note abs = cp_argument_char_abs(1-3) [OF e assms(1), folded t_def]
  show "arguments (cp_cmd s) @ split_arguments (quoting_of s) (cp_token s) (x # xs) =
    arguments (cp_cmd t) @ split_arguments (quoting_of t) (cp_token t) xs"
    using assms(1) unfolding abs by (cases "quoting_of s") auto
  show "(cp_cmd t)\<lparr>arguments := as\<rparr> = (cp_cmd s)\<lparr>arguments := as\<rparr>"
    unfolding abs by simp
qed

lemma run_from_arguments:
  "argument_state s \<Longrightarrow> run_from config xs s = Inr ((cp_cmd s)\<lparr>arguments :=
     arguments (cp_cmd s) @ split_arguments (quoting_of s) (cp_token s) xs\<rparr>)"
proof (induction xs arbitrary: s rule: length_induct)
  case (1 xs)
  show ?case
  proof (cases xs)
    case Nil
    with "1.prems" show ?thesis by (simp add: cp_finish_argument [of s "quoting_of s"])
  next
    case (Cons x ys)
    show ?thesis
    proof (cases "x = ESCAPE")
      case False
      from "1.prems" this obtain t where t: "cp_step config x s = Inr t" "argument_state t"
        "quoting_of t = quoting_of (cp_argument_char x s)"
        "cp_token t = cp_token (cp_argument_char x s)" "cp_cmd t = cp_cmd (cp_argument_char x s)"
        by (rule cp_step_plain)
      with Cons "1.IH" have "run_from config xs s = Inr ((cp_cmd t)\<lparr>arguments :=
          arguments (cp_cmd t) @ split_arguments (quoting_of t) (cp_token t) ys\<rparr>)"
        by (simp add: run_from_Cons)
      with split_arguments_plain [OF False "1.prems"] t(3-5) Cons show ?thesis by simp
    next
      case esc: True
      show ?thesis
      proof (cases ys)
        case Nil
        with Cons esc "1.prems" show ?thesis
          by (simp add: run_from_Cons cp_step_argument argument_state_def cp_argument_char_def
              cp_finish_def)
      next
        case (Cons y zs)
        obtain t where t: "bind_result (cp_step config ESCAPE s) (cp_step config y) = Inr t"
          "argument_state t" "quoting_of t = quoting_of s" "cp_token t = cp_token s @ [y]"
          "cp_cmd t = cp_cmd s"
          using "1.prems" by (rule cp_step_escaped)
        have "run_from config xs s = run_from config zs t"
          using t(1) \<open>xs = x # ys\<close> Cons esc
          by (cases "cp_step config ESCAPE s") (simp_all add: run_from_Cons)
        with t "1.IH" \<open>xs = x # ys\<close> Cons esc show ?thesis by simp
      qed
    qed
  qed
qed

lemma find_Some_hd: "find P (x # xs) = (if P x then Some x else find P xs)"
  by simp

text \<open>The command word, from any word collected so far.\<close>

definition word_result :: "string \<Rightarrow> string \<Rightarrow> cmd result" where
  "word_result w xs =
     (case find (\<lambda>c. \<not> command_word_char c) (takeWhile (\<lambda>c. c \<noteq> SPC) xs) of
        Some c \<Rightarrow> Inl (UnexpectedCharacter (brace_string c) ''a-zA-Z0-9-'')
      | None \<Rightarrow> Inr \<lparr>cmd_command = w @ filter isCommandCharacter (takeWhile (\<lambda>c. c \<noteq> SPC) xs),
          arguments = split_arguments Unquoted '''' (drop 1 (dropWhile (\<lambda>c. c \<noteq> SPC) xs)),
          cmd_irc_message = empty_message\<rparr>)"

lemma not_command_special [simp]:
  "\<not> isCommandCharacter SPC" "\<not> isCommandCharacter CR" "\<not> isCommandCharacter LF"
  "\<not> isCommandCharacter NUL" "\<not> isCommandCharacter ESCAPE"
  by (simp_all add: isCommandCharacter_def)

lemma run_from_command:
  "cp_state s = CP_COMMAND \<Longrightarrow> do_escape s \<le> 0 \<Longrightarrow> \<not> is_quoted s \<Longrightarrow> cp_cmd s = empty_cmd \<Longrightarrow>
   run_from config xs s = word_result (cp_token s) xs"
proof (induction xs arbitrary: s)
  case Nil
  then show ?case by (simp add: word_result_def cp_finish_def empty_cmd_def)
next
  case (Cons x xs)
  consider "isCommandCharacter x" | "x = SPC" | "x = CR \<or> x = LF"
    | "\<not> isCommandCharacter x" "x \<noteq> SPC" "x \<noteq> CR" "x \<noteq> LF" by blast
  then show ?case
  proof cases
    case 1
    then have "x \<noteq> SPC" by auto
    with 1 Cons show ?thesis
      by (simp add: run_from_Cons cp_step_def cp_char_def word_result_def command_word_char_def
          split: option.splits)
  next
    case 2
    let ?t = "s\<lparr>cp_state := CP_ARGUMENT, cp_token := '''',
      cp_cmd := empty_cmd\<lparr>cmd_command := cp_token s\<rparr>, do_escape := do_escape s - 1\<rparr>"
    have "run_from config (x # xs) s = run_from config xs ?t"
      using 2 Cons.prems by (simp add: run_from_Cons cp_step_def cp_char_def)
    also have "\<dots> = word_result (cp_token s) (x # xs)"
      using 2 Cons.prems
      by (subst run_from_arguments) (simp_all add: argument_state_def quoting_of_def word_result_def empty_cmd_def)
    finally show ?thesis .
  next
    case 3
    with Cons show ?thesis
      by (auto simp: run_from_Cons cp_step_def cp_char_def word_result_def command_word_char_def
          split: option.splits)
  next
    case 4
    with Cons.prems show ?thesis
      by (simp add: run_from_Cons cp_step_def cp_char_def word_result_def command_word_char_def)
  qed
qed

lemma command_parse_run_from: "command_parse config text = run_from config text (cp_init config)"
  by (simp add: command_parse_def run_from_def)

lemma split_body_word_result: "split_body xs = word_result '''' xs"
  by (simp add: split_body_def word_result_def split: option.split)

lemma command_parse_eq: "command_parse config text = split_command config text"
proof (cases "prefix config = NUL")
  case True
  then show ?thesis
    by (simp add: command_parse_run_from split_command_def split_body_word_result
        run_from_command cp_init_def)
next
  case False
  then show ?thesis
    by (cases "text")
      (simp_all add: command_parse_run_from split_command_def split_body_word_result
        run_from_command cp_init_def run_from_Cons cp_step_def cp_char_def cp_finish_def)
qed
section \<open>Printing a command\<close>

text \<open>
  A way to write a command that survives the parser whatever its arguments hold: every character of
  an argument behind an escape.
\<close>

definition quote_argument :: "string \<Rightarrow> string" where
  "quote_argument a = concat (map (\<lambda>c. [ESCAPE, c]) a)"

fun print_arguments :: "string list \<Rightarrow> string" where
  "print_arguments [] = ''''"
| "print_arguments (a # as) = SPC # quote_argument a @ print_arguments as"

definition print_command :: "parser_config \<Rightarrow> string \<Rightarrow> string list \<Rightarrow> string" where
  "print_command config c as = (if prefix config = NUL then '''' else [prefix config]) @ c @ print_arguments as"

lemma split_arguments_quoted:
  "split_arguments q w (quote_argument a @ rest) = split_arguments q (w @ a) rest"
  by (induction a arbitrary: w) (simp_all add: quote_argument_def)

lemma split_print_arguments:
  "as \<noteq> [] \<Longrightarrow> last as \<noteq> '''' \<Longrightarrow>
   split_arguments Unquoted '''' (drop 1 (print_arguments as)) = as"
proof (induction as)
  case Nil
  then show ?case by simp
next
  case (Cons a as)
  then show ?case
    by (cases as) (use split_arguments_quoted [of Unquoted "''''" a "''''"] in
        \<open>auto simp: split_arguments_quoted\<close>)
qed

lemma print_arguments_cases: "print_arguments as = '''' \<or> (\<exists>r. print_arguments as = SPC # r)"
  by (cases as) auto

lemma takeWhile_word:
  "SPC \<notin> set w \<Longrightarrow> takeWhile (\<lambda>c. c \<noteq> SPC) (w @ r) = w @ takeWhile (\<lambda>c. c \<noteq> SPC) r"
  "SPC \<notin> set w \<Longrightarrow> dropWhile (\<lambda>c. c \<noteq> SPC) (w @ r) = dropWhile (\<lambda>c. c \<noteq> SPC) r"
  by (induction w) auto

lemma split_body_print:
  assumes "\<forall>c \<in> set w. isCommandCharacter c"
  shows "split_body (w @ print_arguments as) = Inr \<lparr>cmd_command = w,
    arguments = split_arguments Unquoted '''' (drop 1 (print_arguments as)),
    cmd_irc_message = empty_message\<rparr>"
proof -
  from assms have nospc: "SPC \<notin> set w" using not_command_special(1) by blast
  have "takeWhile (\<lambda>c. c \<noteq> SPC) (w @ print_arguments as) = w"
    and "dropWhile (\<lambda>c. c \<noteq> SPC) (w @ print_arguments as) = print_arguments as"
    using print_arguments_cases [of as] by (auto simp: takeWhile_word [OF nospc])
  moreover have "find (\<lambda>c. \<not> command_word_char c) w = None"
    using assms by (simp add: find_None_iff command_word_char_def)
  moreover have "filter isCommandCharacter w = w" using assms by (simp add: filter_id_conv)
  ultimately show ?thesis by (simp add: split_body_def)
qed

section \<open>The escape counter\<close>

text \<open>One loop iteration changes the counter by at most this much.\<close>

lemma do_escape_argument: "do_escape (cp_argument_char x s) = do_escape s \<or> do_escape (cp_argument_char x s) = 2"
  by (simp add: cp_argument_char_def)

lemma do_escape_cp_char:
  "cp_char config x s = Inr t \<Longrightarrow> do_escape t = do_escape s \<or> do_escape t = 2"
  using do_escape_argument [of x s]
  by (cases "cp_state s") (fastforce simp: cp_char_def split: if_split_asm)+

lemma cp_step_do_escape:
  "cp_step config x s = Inr t \<Longrightarrow> do_escape t = do_escape s - 1 \<or> do_escape t = 1"
proof -
  assume "cp_step config x s = Inr t"
  then obtain u where "cp_char config x s = Inr u" and "t = u\<lparr>do_escape := do_escape u - 1\<rparr>"
    by (auto simp: cp_step_def bind_result_Inr_iff)
  with do_escape_cp_char [of config x s u] show ?thesis by auto
qed
lemma do_escape_after:
  "fold_result (cp_step config) xs s = Inr t \<Longrightarrow> do_escape s \<le> 1 \<Longrightarrow>
   do_escape s - int (length xs) \<le> do_escape t \<and> do_escape t \<le> 1"
proof (induction xs arbitrary: s)
  case Nil
  then show ?case by simp
next
  case (Cons x xs)
  from Cons.prems obtain u where u: "cp_step config x s = Inr u"
    and rest: "fold_result (cp_step config) xs u = Inr t"
    by (auto simp: bind_result_Inr_iff)
  from cp_step_do_escape [OF u] Cons.prems have "do_escape u \<le> 1" "do_escape s - 1 \<le> do_escape u"
    by auto
  with Cons.IH [OF rest] show ?case by auto
qed
section \<open>Properties\<close>

text \<open>
  C24: the character loop with its two quote flags and its escape counter computes the same command,
  or throws the same exception, as the recursive definition with a quoting mode.
\<close>

theorem command_parse_refines: "command_parse config line = split_command config line"
  by (rule command_parse_eq)

text \<open>
  Remark: parsing fails exactly when the line does not start with the configured prefix, or a character
  other than a letter, a digit, a dash, CR or LF stands before the first space; nothing in the
  arguments (unbalanced quotes, a trailing escape) makes it fail.
\<close>

theorem command_parse_error_iff:
  "(\<exists>e. command_parse config line = Inl e) \<longleftrightarrow>
   (if prefix config = NUL then \<exists>c \<in> set (takeWhile (\<lambda>c. c \<noteq> SPC) line). \<not> command_word_char c
    else line \<noteq> '''' \<and> (hd line \<noteq> prefix config \<or>
      (\<exists>c \<in> set (takeWhile (\<lambda>c. c \<noteq> SPC) (tl line)). \<not> command_word_char c)))"
proof -
  have body: "(\<exists>e. split_body xs = Inl e) \<longleftrightarrow>
      (\<exists>c \<in> set (takeWhile (\<lambda>c. c \<noteq> SPC) xs). \<not> command_word_char c)" for xs
    by (auto simp: split_body_def find_None_iff split: option.split)
      (metis find_Some_iff nth_mem)
  show ?thesis
    by (cases line) (auto simp: command_parse_eq split_command_def body)
qed

text \<open>
  C36: a command printed with every argument character escaped is parsed back exactly, for any argument
  bytes; only an empty last argument is beyond the format.
\<close>

theorem command_roundtrip:
  assumes "\<forall>c \<in> set w. isCommandCharacter c" and "as \<noteq> [] \<longrightarrow> last as \<noteq> ''''"
  shows "command_parse config (print_command config w as) =
    Inr \<lparr>cmd_command = w, arguments = as, cmd_irc_message = empty_message\<rparr>"
proof -
  have "split_arguments Unquoted '''' (drop 1 (print_arguments as)) = as"
    using assms(2) split_print_arguments by (cases "as = []") simp_all
  then have "split_body (w @ print_arguments as) =
      Inr \<lparr>cmd_command = w, arguments = as, cmd_irc_message = empty_message\<rparr>"
    using split_body_print [OF assms(1)] by simp
  then show ?thesis by (simp add: command_parse_eq split_command_def print_command_def)
qed

text \<open>
  Remark: the escape counter, an \<open>int\<close> that every iteration decrements, stays between minus the number of
  characters read and 1; it cannot underflow on a line shorter than the range of \<open>int\<close>.
\<close>

theorem do_escape_bounded:
  assumes "fold_result (cp_step config) xs (cp_init config) = Inr s"
  shows "- int (length xs) \<le> do_escape s \<and> do_escape s \<le> 1"
  using do_escape_after [OF assms] assms by (auto simp: cp_init_def)

text \<open>
  The text of the exception does not name the character alone: the braces make it a string of two
  characters, the first of which is the control character 1.
\<close>

lemma unexpected_character_text:
  assumes "prefix config \<noteq> NUL" and "x \<noteq> prefix config"
  shows "\<exists>e. command_parse config (x # xs) = Inl e \<and>
    what e = ''Unexpected character: '' @ [CHR 0x01, x] @ ''. Expected: '' @ [CHR 0x01, prefix config]"
  using assms by (simp add: command_parse_eq split_command_def brace_string_def)

section \<open>Concrete commands\<close>

definition slash_config :: parser_config where
  "slash_config = \<lparr>prefix = CHR ''/'', parseOneCommand = False\<rparr>"

theorem command_roundtrip_witness:
  "command_parse slash_config (print_command slash_config ''join'' [''#a b'', '''', [QUOTE, ESCAPE]]) =
   Inr \<lparr>cmd_command = ''join'', arguments = [''#a b'', '''', [QUOTE, ESCAPE]],
     cmd_irc_message = empty_message\<rparr>"
  by (rule command_roundtrip) (simp_all add: isCommandCharacter_def)

theorem do_escape_bounded_witness:
  "\<exists>s. fold_result (cp_step slash_config) (''/x a'' @ [ESCAPE]) (cp_init slash_config) = Inr s \<and>
     - int (length (''/x a'' @ [ESCAPE])) \<le> do_escape s \<and> do_escape s \<le> 1"
proof -
  let ?t = "''/x a'' @ [ESCAPE]"
  have "case fold_result (cp_step slash_config) ?t (cp_init slash_config) of Inr _ \<Rightarrow> True | Inl _ \<Rightarrow> False"
    by code_simp
  then obtain s where s: "fold_result (cp_step slash_config) ?t (cp_init slash_config) = Inr s"
    by (auto split: sum.splits)
  with do_escape_bounded [OF s] show ?thesis by blast
qed

theorem command_parse_error_iff_witness:
  "(\<exists>e. command_parse slash_config ''/x_ 1'' = Inl e) \<and>
   \<not> (\<exists>e. command_parse slash_config (''/x '' @ [QUOTE]) = Inl e)"
  using command_parse_error_iff [of slash_config "''/x_ 1''"]
    command_parse_error_iff [of slash_config "''/x '' @ [QUOTE]"]
  by (simp add: slash_config_def command_word_char_def isCommandCharacter_def)

lemma command_parse_examples:
  "map_sum id arguments (command_parse slash_config (''/CoM2 '' @ [DQUOTE] @ ''arg1'' @ [DQUOTE, SPC, DQUOTE]
     @ ''arg'' @ [QUOTE] @ ''2'' @ [DQUOTE])) = Inr [''arg1'', ''arg'' @ [QUOTE] @ ''2'']"
  "map_sum id arguments (command_parse slash_config (''/x arg'' @ [ESCAPE] @ '' with'' @ [ESCAPE] @ '' spaces''
     @ [QUOTE] @ '' !'' @ [QUOTE])) = Inr [''arg with spaces !'']"
  "map_sum id arguments (command_parse slash_config ''/x  a'') = Inr ['''', ''a'']"
  "\<exists>e. command_parse slash_config (''/x_ 1arg'' @ [LF]) = Inl e"
  by (code_simp, code_simp, code_simp, simp add: command_parse_eq split_command_def split_body_def
      slash_config_def command_word_char_def isCommandCharacter_def)

end
