(* ===== verification/Bot_Config.thy ===== *)
theory Bot_Config
  imports Irc_Prelude
begin

text \<open>
  \<open>Config\<close> (include/ircbot/config.hpp, source/config.cpp) is a \<open>YAML::Node\<close> with the name of the
  file it came from. yaml-cpp is not part of the repository: its node type and the operations the
  sources use are the parameter \<open>yaml\<close> of every definition that reads a configuration.
\<close>

section \<open>The operations of yaml-cpp that the sources use\<close>

text \<open>
  \<open>as_T node\<close> is \<open>Some\<close> the value that \<open>node.as<T>()\<close> returns, and \<open>None\<close> when the node is
  absent or cannot be converted: then \<open>as<T>()\<close> throws \<open>BadConversion\<close> and \<open>as<T>(d)\<close>
  returns \<open>d\<close>.
\<close>

record 'n yaml =
  at_key :: "'n \<Rightarrow> string \<Rightarrow> 'n"
  as_string :: "'n \<Rightarrow> string option"
  as_uint16 :: "'n \<Rightarrow> 16 word option"
  as_uint32 :: "'n \<Rightarrow> 32 word option"
  as_size :: "'n \<Rightarrow> nat option"
  elements :: "'n \<Rightarrow> 'n list"
  entries :: "'n \<Rightarrow> ('n \<times> 'n) list"

definition required :: "'a option \<Rightarrow> 'a result" where
  "required v = (case v of Some x \<Rightarrow> Inr x | None \<Rightarrow> Inl BadConversion)"

definition with_default :: "'a \<Rightarrow> 'a option \<Rightarrow> 'a" where
  "with_default d v = (case v of Some x \<Rightarrow> x | None \<Rightarrow> d)"

lemma required_simps [simp, fault_simps]:
  "required (Some x) = Inr x" "required None = Inl BadConversion"
  by (simp_all add: required_def)

lemma with_default_simps [simp]: "with_default d (Some x) = x" "with_default d None = d"
  by (simp_all add: with_default_def)

section \<open>Loading and saving\<close>

record 'n config =
  node :: 'n
  m_fname :: string

text \<open>
  The implicit conversion \<open>Config(const YAML::Node&)\<close>: the file name of the new object is empty.
\<close>

definition config_of_node :: "'n \<Rightarrow> 'n config" where
  "config_of_node n = \<lparr>node = n, m_fname = ''''\<rparr>"

text \<open>
  \<open>*this = YAML::LoadFile(m_fname)\<close>: \<open>Config\<close> declares its own assignment operators, which hide
  those of \<open>YAML::Node\<close>, so the loaded node is first converted to a \<open>Config\<close> and then assigned
  member by member, its empty file name included. \<open>load\<close> is \<open>YAML::LoadFile\<close>.
\<close>

definition loadFile :: "(string \<Rightarrow> 'n result) \<Rightarrow> 'n config \<Rightarrow> 'n config result" where
  "loadFile load c =
     (if m_fname c = '''' then Inl (LogicError ''Could not load! Config's filename is empty!'')
      else bind_result (load (m_fname c)) (\<lambda>n. Inr (config_of_node n)))"

definition loadFileFrom :: "(string \<Rightarrow> 'n result) \<Rightarrow> string \<Rightarrow> 'n config \<Rightarrow> 'n config result" where
  "loadFileFrom load fname c = loadFile load (c\<lparr>m_fname := fname\<rparr>)"

text \<open>The constructor that takes a file name; \<open>null\<close> is the node of a default \<open>YAML::Node\<close>.\<close>

definition Config :: "(string \<Rightarrow> 'n result) \<Rightarrow> 'n \<Rightarrow> string \<Rightarrow> 'n config result" where
  "Config load null fname = loadFile load \<lparr>node = null, m_fname = fname\<rparr>"

text \<open>
  Files are a map from paths to contents. A stream that could not be opened drops what is written
  to it without an error.
\<close>

definition saveFile ::
  "('n \<Rightarrow> string) \<Rightarrow> (string \<Rightarrow> bool) \<Rightarrow> 'n config \<Rightarrow> (string \<rightharpoonup> string) \<Rightarrow> (string \<rightharpoonup> string) result" where
  "saveFile emit writable c files =
     (if m_fname c = '''' then Inl (LogicError ''Could not save! Config's filename is empty!'')
      else if writable (m_fname c) then Inr (files(m_fname c \<mapsto> emit (node c)))
      else Inr files)"

definition saveFileAs ::
  "('n \<Rightarrow> string) \<Rightarrow> (string \<Rightarrow> bool) \<Rightarrow> string \<Rightarrow> 'n config \<Rightarrow> (string \<rightharpoonup> string)
    \<Rightarrow> ('n config \<times> (string \<rightharpoonup> string)) result" where
  "saveFileAs emit writable fname c files =
     (let c' = c\<lparr>m_fname := fname\<rparr>
      in bind_result (saveFile emit writable c' files) (\<lambda>files'. Inr (c', files')))"

lemma loadFile_forgets: "loadFile load c = Inr c' \<Longrightarrow> m_fname c' = ''''"
  by (auto simp: loadFile_def config_of_node_def bind_result_Inr_iff split: if_split_asm)

lemma loadFile_node:
  "loadFile load c = Inr c' \<longleftrightarrow> m_fname c \<noteq> '''' \<and> (\<exists>n. load (m_fname c) = Inr n \<and> c' = config_of_node n)"
  by (auto simp: loadFile_def bind_result_Inr_iff)

text \<open>
  Remark: a configuration that was read from a file does not know the file any more: whatever the
  file holds, saving it back and loading it again both throw, and only the overloads that are
  given a name work.
\<close>

theorem loaded_config_unnamed:
  assumes "Config load null fname = Inr c"
  shows "load fname = Inr (node c) \<and>
    saveFile emit writable c files = Inl (LogicError ''Could not save! Config's filename is empty!'') \<and>
    loadFile load c = Inl (LogicError ''Could not load! Config's filename is empty!'') \<and>
    saveFileAs emit (\<lambda>_. True) (x # xs) c files =
      Inr (c\<lparr>m_fname := x # xs\<rparr>, files(x # xs \<mapsto> emit (node c)))"
proof -
  have c: "m_fname c = ''''" using assms by (auto simp: Config_def dest: loadFile_forgets)
  moreover have "load fname = Inr (node c)"
    using assms by (auto simp: Config_def loadFile_node config_of_node_def)
  ultimately show ?thesis by (simp add: saveFile_def saveFileAs_def Let_def loadFile_def)
qed

theorem loaded_config_unnamed_witness:
  "Config (\<lambda>f. if f = ''a'' then Inr (7::nat) else Inl BadConversion) 0 ''a'' =
     Inr \<lparr>node = 7, m_fname = ''''\<rparr> \<and>
   saveFile (\<lambda>n. ''7'') (\<lambda>_. True) \<lparr>node = 7::nat, m_fname = ''''\<rparr> Map.empty =
     Inl (LogicError ''Could not save! Config's filename is empty!'') \<and>
   saveFileAs (\<lambda>n. ''7'') (\<lambda>_. True) ''b'' \<lparr>node = 7::nat, m_fname = ''''\<rparr> Map.empty =
     Inr (\<lparr>node = 7, m_fname = ''b''\<rparr>, [''b'' \<mapsto> ''7''])"
proof -
  let ?load = "\<lambda>f. if f = ''a'' then Inr (7::nat) else Inl BadConversion"
  have c: "Config ?load 0 ''a'' = Inr \<lparr>node = 7, m_fname = ''''\<rparr>"
    by (simp add: Config_def loadFile_def config_of_node_def)
  from loaded_config_unnamed [OF c, of "\<lambda>n. ''7''" "\<lambda>_. True" Map.empty "CHR ''b''" "[]"] c
  show ?thesis by simp
qed


section \<open>A concrete node type\<close>

text \<open>
  An instance of the parameter, for concrete configurations: scalars, sequences and mappings, with
  \<open>Undefined\<close> for a key that is absent.
\<close>

datatype yaml_node =
    Undefined
  | Scalar string
  | Sequence "yaml_node list"
  | Mapping "(string \<times> yaml_node) list"

fun node_at :: "yaml_node \<Rightarrow> string \<Rightarrow> yaml_node" where
  "node_at (Mapping kvs) k = (case map_of kvs k of Some v \<Rightarrow> v | None \<Rightarrow> Undefined)"
| "node_at _ k = Undefined"

fun node_number :: "int \<Rightarrow> yaml_node \<Rightarrow> int option" where
  "node_number bound (Scalar s) =
     (case stoi s of Inr v \<Rightarrow> if 0 \<le> v \<and> v < bound then Some v else None | Inl _ \<Rightarrow> None)"
| "node_number bound _ = None"

definition yaml_tree :: "yaml_node yaml" where
  "yaml_tree = \<lparr>at_key = node_at,
     as_string = (\<lambda>n. case n of Scalar s \<Rightarrow> Some s | _ \<Rightarrow> None),
     as_uint16 = (\<lambda>n. map_option word_of_int (node_number (2 ^ 16) n)),
     as_uint32 = (\<lambda>n. map_option word_of_int (node_number (2 ^ 32) n)),
     as_size = (\<lambda>n. map_option nat (node_number (2 ^ 64) n)),
     elements = (\<lambda>n. case n of Sequence ns \<Rightarrow> ns | _ \<Rightarrow> []),
     entries = (\<lambda>n. case n of Mapping kvs \<Rightarrow> map (\<lambda>(k, v). (Scalar k, v)) kvs | _ \<Rightarrow> [])\<rparr>"

definition example_channels :: yaml_node where
  "example_channels = Mapping [(''config'', Mapping [(''channels'',
     Sequence [Scalar ''#a'', Scalar ''#b'', Scalar ''#a''])])]"

end
