(* ===== verification/Plugin_Base.thy ===== *)
theory Plugin_Base
  imports Command_Parser Bot_Config
begin

text \<open>
  \<open>Plugin\<close> (include/ircbot/plugin.hpp, source/plugin.cpp), the base class of all plugins: its
  mailbox, its table of command functions, its life cycle, and its thread as a step relation.
  The virtual functions of a derived class are the fields of a record of handlers.
\<close>

section \<open>Handlers\<close>

text \<open>
  What a plugin asks of the core: to send a message, and to remove a plugin from the core's list.
  A handler works on the object of the derived class and may end in a fault; the effects and the
  changes made before the fault remain. \<open>w_config\<close> is \<open>getConfig()\<close>, \<open>w_uptime\<close> what
  \<open>client()->getUptime()\<close> returns, in nanoseconds.
\<close>

datatype plugin_effect = Send irc_message | RemovePlugin string

record ('n, 'x) world =
  w_config :: 'n
  w_uptime :: int
  object :: 'x
  effects :: "plugin_effect list"

type_synonym ('n, 'x) handler = "('n, 'x) world \<Rightarrow> fault option \<times> ('n, 'x) world"

definition skip :: "('n, 'x) handler" where
  "skip w = (None, w)"

definition throw :: "fault \<Rightarrow> ('n, 'x) handler" where
  "throw f w = (Some f, w)"

definition emit :: "plugin_effect \<Rightarrow> ('n, 'x) handler" where
  "emit e w = (None, w\<lparr>effects := effects w @ [e]\<rparr>)"

definition modify :: "('x \<Rightarrow> 'x) \<Rightarrow> ('n, 'x) handler" where
  "modify f w = (None, w\<lparr>object := f (object w)\<rparr>)"

definition reading :: "(('n, 'x) world \<Rightarrow> ('n, 'x) handler) \<Rightarrow> ('n, 'x) handler" where
  "reading k w = k w w"

definition need :: "'a result \<Rightarrow> ('a \<Rightarrow> ('n, 'x) handler) \<Rightarrow> ('n, 'x) handler" where
  "need r k w = (case r of Inl f \<Rightarrow> (Some f, w) | Inr x \<Rightarrow> k x w)"

definition andThen :: "('n, 'x) handler \<Rightarrow> ('n, 'x) handler \<Rightarrow> ('n, 'x) handler" where
  "andThen h k w = (case h w of (None, w') \<Rightarrow> k w' | (Some f, w') \<Rightarrow> (Some f, w'))"

fun for_each :: "'a list \<Rightarrow> ('a \<Rightarrow> ('n, 'x) handler) \<Rightarrow> ('n, 'x) handler" where
  "for_each [] body = skip"
| "for_each (x # xs) body = andThen (body x) (for_each xs body)"

definition catch_exceptions :: "('n, 'x) handler \<Rightarrow> ('n, 'x) handler" where
  "catch_exceptions h w = (case h w of
     (Some f, w') \<Rightarrow> (if catchable f then None else Some f, w')
   | (None, w') \<Rightarrow> (None, w'))"

text \<open>\<open>Plugin::send\<close> forwards to the core.\<close>

definition send :: "irc_message \<Rightarrow> ('n, 'x) handler" where
  "send msg = emit (Send msg)"

named_theorems handler_simps \<open>execution of handlers\<close>

lemma handler_exec [handler_simps]:
  "skip w = (None, w)"
  "throw f w = (Some f, w)"
  "emit e w = (None, w\<lparr>effects := effects w @ [e]\<rparr>)"
  "modify g w = (None, w\<lparr>object := g (object w)\<rparr>)"
  "reading k w = k w w"
  "need (Inl f) k' w = (Some f, w)"
  "need (Inr x) k' w = k' x w"
  "send m w = (None, w\<lparr>effects := effects w @ [Send m]\<rparr>)"
  by (simp_all add: skip_def throw_def emit_def modify_def reading_def need_def send_def)

lemma andThen_exec [handler_simps]:
  "h w = (None, w') \<Longrightarrow> andThen h k w = k w'"
  "h w = (Some f, w') \<Longrightarrow> andThen h k w = (Some f, w')"
  by (simp_all add: andThen_def)

section \<open>State\<close>

record ('n, 'x) plugin_class =
  getName :: "'x \<Rightarrow> string"
  onInit :: "('n, 'x) handler"
  onMessage :: "irc_message \<Rightarrow> ('n, 'x) handler"
  onNewConfiguration :: "('n, 'x) handler"
  onShutdown :: "('n, 'x) handler"
  filter_message :: "irc_message \<Rightarrow> 'x \<Rightarrow> bool result"

text \<open>The virtual functions of \<open>Plugin\<close> itself; \<open>getName\<close> is pure virtual.\<close>

definition base_class :: "string \<Rightarrow> ('n, 'x) plugin_class" where
  "base_class name = \<lparr>getName = (\<lambda>_. name), onInit = skip, onMessage = (\<lambda>_. skip),
     onNewConfiguration = skip, onShutdown = skip, filter_message = (\<lambda>_ _. Inr True)\<rparr>"

text \<open>
  \<open>m_thread\<close>: not joinable; created but not yet in \<open>run()\<close>; at the test of the loop; past the test,
  waiting for a message; in the rest of the body with the message it took, holding
  \<open>m_incoming_mtx\<close>; finished but not joined.
\<close>

datatype plugin_thread = NoThread | Starting | Looping | Waiting | Handling irc_message | Finished

record ('n, 'x) plugin =
  m_id :: string
  m_class :: "('n, 'x) plugin_class"
  m_object :: 'x
  m_cfg :: 'n
  m_command_parser :: "parser_config option"
  m_functions :: "string \<rightharpoonup> (cmd \<Rightarrow> ('n, 'x) handler)"
  m_running :: bool
  m_incoming :: "irc_message list"
  m_thread :: plugin_thread

text \<open>\<open>PluginConfig\<close> without the pointer to the core, and the constructor.\<close>

record 'n plugin_config =
  pc_id :: string
  pc_config :: 'n

definition Plugin :: "('n, 'x) plugin_class \<Rightarrow> 'x \<Rightarrow> 'n plugin_config \<Rightarrow> ('n, 'x) plugin" where
  "Plugin cls obj config = \<lparr>m_id = pc_id config, m_class = cls, m_object = obj, m_cfg = pc_config config,
     m_command_parser = None, m_functions = Map.empty, m_running = True, m_incoming = [],
     m_thread = NoThread\<rparr>"

definition name_of :: "('n, 'x) plugin \<Rightarrow> string" where
  "name_of p = getName (m_class p) (m_object p)"

text \<open>Running a handler on a plugin: the plugin afterwards, the effects, and the fault, if any.\<close>

definition run_handler ::
  "int \<Rightarrow> ('n, 'x) handler \<Rightarrow> ('n, 'x) plugin \<Rightarrow> ('n, 'x) plugin \<times> plugin_effect list \<times> fault option" where
  "run_handler uptime h p =
     (case h \<lparr>w_config = m_cfg p, w_uptime = uptime, object = m_object p, effects = []\<rparr> of
        (f, w) \<Rightarrow> (p\<lparr>m_object := object w\<rparr>, effects w, f))"

section \<open>The mailbox\<close>

definition receive :: "irc_message \<Rightarrow> ('n, 'x) plugin \<Rightarrow> ('n, 'x) plugin" where
  "receive msg p = p\<lparr>m_incoming := m_incoming p @ [msg]\<rparr>"

definition commandsCount :: "('n, 'x) plugin \<Rightarrow> nat" where
  "commandsCount p = length (m_incoming p)"

definition getCommand :: "('n, 'x) plugin \<Rightarrow> (irc_message \<times> ('n, 'x) plugin) result" where
  "getCommand p = (case m_incoming p of [] \<Rightarrow> Inl UndefinedBehaviour
     | msg # rest \<Rightarrow> Inr (msg, p\<lparr>m_incoming := rest\<rparr>))"

interpretation mailbox: fifo m_incoming receive getCommand commandsCount
  by unfold_locales (simp_all add: receive_def getCommand_def commandsCount_def)

section \<open>Command parser and command functions\<close>

definition installCommandParser :: "parser_config \<Rightarrow> ('n, 'x) plugin \<Rightarrow> ('n, 'x) plugin" where
  "installCommandParser parser p = p\<lparr>m_command_parser := Some parser\<rparr>"

definition hasCommandParser :: "('n, 'x) plugin \<Rightarrow> bool" where
  "hasCommandParser p \<longleftrightarrow> m_command_parser p \<noteq> None"

definition deinstallCommandParser :: "('n, 'x) plugin \<Rightarrow> ('n, 'x) plugin" where
  "deinstallCommandParser p = p\<lparr>m_command_parser := None\<rparr>"

text \<open>\<open>back()[0]\<close> of an empty string is its terminating NUL.\<close>

definition first_char :: "string \<Rightarrow> char" where
  "first_char s = (case s of [] \<Rightarrow> NUL | x # _ \<Rightarrow> x)"

definition isCommand :: "irc_message \<Rightarrow> ('n, 'x) plugin \<Rightarrow> bool" where
  "isCommand msg p = (case m_command_parser p of
     None \<Rightarrow> False
   | Some config \<Rightarrow>
       if length (params msg) < 1 then False
       else command msg = ''PRIVMSG'' \<and> first_char (last (params msg)) = parser_config.prefix config)"

definition preFilter :: "irc_message \<Rightarrow> ('n, 'x) plugin \<Rightarrow> bool" where
  "preFilter msg p = (if m_command_parser p \<noteq> None then (if \<not> isCommand msg p then False else True)
     else True)"

definition addFunction :: "string \<Rightarrow> (cmd \<Rightarrow> ('n, 'x) handler) \<Rightarrow> ('n, 'x) plugin \<Rightarrow> ('n, 'x) plugin" where
  "addFunction c f p = p\<lparr>m_functions := (m_functions p)(c \<mapsto> f)\<rparr>"

definition removeFunction :: "string \<Rightarrow> ('n, 'x) plugin \<Rightarrow> ('n, 'x) plugin" where
  "removeFunction c p = p\<lparr>m_functions := (m_functions p)(c := None)\<rparr>"

definition callFunction :: "cmd \<Rightarrow> ('n, 'x) plugin \<Rightarrow> ('n, 'x) handler" where
  "callFunction c p = (case m_functions p (cmd_command c) of Some f \<Rightarrow> f c | None \<Rightarrow> skip)"

definition onCommand :: "cmd \<Rightarrow> ('n, 'x) plugin \<Rightarrow> ('n, 'x) handler" where
  "onCommand c p = callFunction c p"

interpretation command_table: table m_functions addFunction removeFunction
  by unfold_locales (simp_all add: addFunction_def removeFunction_def)

section \<open>Life cycle\<close>

definition setConfig :: "int \<Rightarrow> 'n \<Rightarrow> ('n, 'x) plugin \<Rightarrow> ('n, 'x) plugin \<times> plugin_effect list \<times> fault option" where
  "setConfig uptime cfg p = run_handler uptime (onNewConfiguration (m_class p)) (p\<lparr>m_cfg := cfg\<rparr>)"

text \<open>
  Assigning to a joinable \<open>std::thread\<close> calls \<open>std::terminate\<close>.
\<close>

definition spawn :: "('n, 'x) plugin \<Rightarrow> ('n, 'x) plugin result" where
  "spawn p = (if m_thread p \<noteq> NoThread then Inl Terminate
     else Inr (p\<lparr>m_running := True, m_thread := Starting\<rparr>))"

text \<open>
  \<open>stop()\<close> as its caller sees it when the join returns; what the plugin's thread does meanwhile is
  the step relation below.
\<close>

definition stop :: "int \<Rightarrow> ('n, 'x) plugin \<Rightarrow> ('n, 'x) plugin \<times> plugin_effect list \<times> fault option" where
  "stop uptime p =
     (if \<not> m_running p then (p, [], None)
      else run_handler uptime (onShutdown (m_class p)) (p\<lparr>m_running := False, m_thread := NoThread\<rparr>))"

text \<open>The loop body of \<open>run()\<close> after it has taken a message.\<close>

definition process_message :: "irc_message \<Rightarrow> ('n, 'x) plugin \<Rightarrow> ('n, 'x) handler" where
  "process_message msg p = (case m_command_parser p of
     None \<Rightarrow> onMessage (m_class p) msg
   | Some config \<Rightarrow>
       if isCommand msg p then
         catch_exceptions (need (vec_back (params msg)) (\<lambda>line.
           need (command_parse config line) (\<lambda>c. onCommand (c\<lparr>cmd_irc_message := msg\<rparr>) p)))
       else skip)"


section \<open>The plugin's thread\<close>

text \<open>
  One plugin with its thread, the core's thread that delivers messages, and a caller of
  \<open>stop()\<close>. The last three fields are histories: the messages delivered, the messages the loop
  has taken, and the effects.

  \<open>m_incoming_mtx\<close> is locked for the whole loop body, so the handler of a message runs with the
  mutex held (\<open>Handling\<close>), and \<open>receive\<close> waits until it is over.
\<close>

datatype stopper = NoStop | Joining

record ('n, 'x) threaded =
  plug :: "('n, 'x) plugin"
  stopper :: stopper
  delivered :: "irc_message list"
  taken :: "irc_message list"
  emitted :: "plugin_effect list"

definition mutex_free :: "('n, 'x) threaded \<Rightarrow> bool" where
  "mutex_free s \<longleftrightarrow> (case m_thread (plug s) of Handling _ \<Rightarrow> False | _ \<Rightarrow> True)"

definition set_thread :: "plugin_thread \<Rightarrow> ('n, 'x) plugin \<Rightarrow> ('n, 'x) plugin" where
  "set_thread t p = p\<lparr>m_thread := t\<rparr>"

text \<open>
  An exception that leaves \<open>run()\<close> is caught and logged by the function \<open>spawn\<close> starts, and the
  thread ends; \<open>m_running\<close> keeps its value. Undefined behaviour has no successor.
\<close>

definition after_handler :: "fault option \<Rightarrow> plugin_thread" where
  "after_handler f = (case f of None \<Rightarrow> Looping | Some _ \<Rightarrow> Finished)"

inductive plugin_step :: "('n, 'x) threaded \<Rightarrow> ('n, 'x) threaded \<Rightarrow> bool" where
  ps_receive: "mutex_free s \<Longrightarrow>
    plugin_step s (s\<lparr>plug := receive msg (plug s), delivered := delivered s @ [msg]\<rparr>)"
| ps_spawn: "stopper s = NoStop \<Longrightarrow> spawn (plug s) = Inr p \<Longrightarrow> plugin_step s (s\<lparr>plug := p\<rparr>)"
| ps_run: "m_thread (plug s) = Starting \<Longrightarrow>
    run_handler u (onInit (m_class (plug s))) (plug s\<lparr>m_running := True\<rparr>) = (p, es, f) \<Longrightarrow>
    (\<forall>e. f = Some e \<longrightarrow> catchable e) \<Longrightarrow>
    plugin_step s (s\<lparr>plug := set_thread (after_handler f) p, emitted := emitted s @ es\<rparr>)"
| ps_test: "m_thread (plug s) = Looping \<Longrightarrow> m_running (plug s) \<Longrightarrow>
    plugin_step s (s\<lparr>plug := set_thread Waiting (plug s)\<rparr>)"
| ps_timeout: "m_thread (plug s) = Waiting \<Longrightarrow> commandsCount (plug s) = 0 \<Longrightarrow>
    plugin_step s (s\<lparr>plug := set_thread Looping (plug s)\<rparr>)"
| ps_take: "m_thread (plug s) = Waiting \<Longrightarrow> getCommand (plug s) = Inr (msg, p) \<Longrightarrow>
    plugin_step s (s\<lparr>plug := set_thread (Handling msg) p, taken := taken s @ [msg]\<rparr>)"
| ps_handle: "m_thread (plug s) = Handling msg \<Longrightarrow>
    run_handler u (process_message msg (plug s)) (plug s) = (p, es, f) \<Longrightarrow>
    (\<forall>e. f = Some e \<longrightarrow> catchable e) \<Longrightarrow>
    plugin_step s (s\<lparr>plug := set_thread (after_handler f) p, emitted := emitted s @ es\<rparr>)"
| ps_leave: "m_thread (plug s) = Looping \<Longrightarrow> \<not> m_running (plug s) \<Longrightarrow>
    plugin_step s (s\<lparr>plug := set_thread Finished (plug s)\<rparr>)"
| ps_stop: "stopper s = NoStop \<Longrightarrow> m_running (plug s) \<Longrightarrow>
    plugin_step s (s\<lparr>plug := plug s\<lparr>m_running := False\<rparr>, stopper := Joining\<rparr>)"
| ps_joined: "stopper s = Joining \<Longrightarrow> m_thread (plug s) \<in> {NoThread, Finished} \<Longrightarrow>
    run_handler u (onShutdown (m_class (plug s))) (set_thread NoThread (plug s)) = (p, es, f) \<Longrightarrow>
    plugin_step s (s\<lparr>plug := p, stopper := NoStop, emitted := emitted s @ es\<rparr>)"

inductive_cases plugin_stepE: "plugin_step s t"

definition started :: "('n, 'x) plugin \<Rightarrow> ('n, 'x) threaded" where
  "started p = \<lparr>plug = p, stopper = NoStop, delivered = [], taken = [], emitted = []\<rparr>"

inductive plugin_reach :: "('n, 'x) plugin \<Rightarrow> ('n, 'x) threaded \<Rightarrow> bool" for p where
  pr_init: "plugin_reach p (started p)"
| pr_step: "plugin_reach p s \<Longrightarrow> plugin_step s t \<Longrightarrow> plugin_reach p t"

lemma run_handler_frame:
  assumes "run_handler u h p = (q, es, f)"
  shows "m_incoming q = m_incoming p" "m_running q = m_running p" "m_thread q = m_thread p"
    "m_class q = m_class p" "m_id q = m_id p" "m_cfg q = m_cfg p" "m_functions q = m_functions p"
    "m_command_parser q = m_command_parser p"
  using assms by (auto simp: run_handler_def split: prod.splits)

lemma set_thread_simps [simp]:
  "m_thread (set_thread t p) = t" "m_incoming (set_thread t p) = m_incoming p"
  "m_running (set_thread t p) = m_running p" "m_id (set_thread t p) = m_id p"
  "m_class (set_thread t p) = m_class p"
  by (simp_all add: set_thread_def)

lemma receive_simps [simp]:
  "m_thread (receive m p) = m_thread p" "m_incoming (receive m p) = m_incoming p @ [m]"
  "m_running (receive m p) = m_running p"
  by (simp_all add: receive_def)

lemma getCommand_frame:
  "getCommand p = Inr (msg, q) \<Longrightarrow> m_incoming p = msg # m_incoming q \<and> m_running q = m_running p"
  by (auto simp: getCommand_def split: list.splits)

lemma spawn_frame:
  "spawn p = Inr q \<Longrightarrow> m_thread p = NoThread \<and> m_incoming q = m_incoming p \<and> m_running q \<and> m_thread q = Starting"
  by (auto simp: spawn_def split: if_split_asm)

definition fifo_history :: "irc_message list \<Rightarrow> ('n, 'x) threaded \<Rightarrow> bool" where
  "fifo_history pending s \<longleftrightarrow> pending @ delivered s = taken s @ m_incoming (plug s)"

lemma fifo_history_step: "plugin_step s t \<Longrightarrow> fifo_history ms s \<Longrightarrow> fifo_history ms t"
  by (induction rule: plugin_step.induct)
     (auto simp: fifo_history_def dest: run_handler_frame getCommand_frame spawn_frame)

lemma fifo_history_reach: "plugin_reach p s \<Longrightarrow> fifo_history (m_incoming p) s"
  by (induction rule: plugin_reach.induct)
     (auto simp: started_def fifo_history_def intro: fifo_history_step [unfolded fifo_history_def])


section \<open>Stopping\<close>

text \<open>Handlers of a class that never end in a fault.\<close>

definition quiet_class :: "('n, 'x) plugin_class \<Rightarrow> bool" where
  "quiet_class c \<longleftrightarrow> (\<forall>w. fst (onInit c w) = None) \<and> (\<forall>m w. fst (onMessage c m w) = None)"

lemma catch_exceptions_fault:
  "fst (catch_exceptions h w) = Some f \<Longrightarrow> \<not> catchable f"
  by (auto simp: catch_exceptions_def split: prod.splits option.splits if_split_asm)

lemma process_message_fault:
  assumes "run_handler u (process_message msg p) p = (q, es, f)" and "quiet_class (m_class p)"
    and "\<forall>e. f = Some e \<longrightarrow> catchable e"
  shows "f = None"
proof (cases "m_command_parser p")
  case None
  with assms show ?thesis
    by (auto simp: run_handler_def process_message_def quiet_class_def split: prod.splits) (metis fst_conv)
next
  case (Some config)
  with assms(1,3) show ?thesis
    by (auto simp: run_handler_def process_message_def skip_def split: prod.splits if_split_asm)
       (metis catch_exceptions_fault fst_conv not_None_eq)
qed

lemma onInit_fault:
  "run_handler u (onInit (m_class p)) q = (r, es, f) \<Longrightarrow> quiet_class (m_class p) \<Longrightarrow> f = None"
  by (auto simp: run_handler_def quiet_class_def split: prod.splits) (metis fst_conv)

text \<open>
  The states of a \<open>stop()\<close> that cannot return: its caller waits for a thread that has yet to set
  \<open>m_running\<close>, or has set it after \<open>stop()\<close> cleared it.
\<close>

definition stop_lost :: "('n, 'x) threaded \<Rightarrow> bool" where
  "stop_lost s \<longleftrightarrow> stopper s = Joining \<and> quiet_class (m_class (plug s)) \<and>
     (case m_thread (plug s) of Starting \<Rightarrow> True | NoThread \<Rightarrow> False | Finished \<Rightarrow> False
      | _ \<Rightarrow> m_running (plug s))"

lemma getCommand_class: "getCommand p = Inr (msg, q) \<Longrightarrow> m_class q = m_class p"
  by (auto simp: getCommand_def split: list.splits)

lemma receive_class [simp]: "m_class (receive m p) = m_class p"
  by (simp add: receive_def)

lemma stop_lost_step: "plugin_step s t \<Longrightarrow> stop_lost s \<Longrightarrow> stop_lost t"
proof (induction rule: plugin_step.induct)
  case (ps_run s u p es f)
  then have "f = None" by (auto simp: stop_lost_def dest: onInit_fault)
  with ps_run show ?case by (auto simp: stop_lost_def after_handler_def dest: run_handler_frame)
next
  case (ps_handle s msg u p es f)
  then have "f = None" by (auto simp: stop_lost_def dest: process_message_fault)
  with ps_handle show ?case by (auto simp: stop_lost_def after_handler_def dest: run_handler_frame)
next
  case (ps_take s msg p)
  then show ?case by (auto simp: stop_lost_def dest: getCommand_frame getCommand_class)
qed (auto simp: stop_lost_def split: plugin_thread.splits)

lemma stop_lost_steps: "plugin_step\<^sup>*\<^sup>* s t \<Longrightarrow> stop_lost s \<Longrightarrow> stop_lost t"
  by (induction rule: rtranclp_induct) (auto intro: stop_lost_step)

text \<open>While a \<open>stop()\<close> waits for the thread: the messages still to be taken.\<close>

definition stop_bound :: "nat \<Rightarrow> ('n, 'x) threaded \<Rightarrow> bool" where
  "stop_bound n s \<longleftrightarrow> stopper s = Joining \<and> \<not> m_running (plug s) \<and> m_thread (plug s) \<noteq> Starting \<and>
     length (taken s) + (if m_thread (plug s) = Waiting then 1 else 0) \<le> n"

lemma stop_bound_step:
  "plugin_step s t \<Longrightarrow> stop_bound n s \<Longrightarrow> stopper t = Joining \<Longrightarrow> stop_bound n t"
  by (induction rule: plugin_step.induct)
     (auto simp: stop_bound_def after_handler_def dest: run_handler_frame getCommand_frame
        split: if_split_asm option.splits)

definition joining_step :: "('n, 'x) threaded \<Rightarrow> ('n, 'x) threaded \<Rightarrow> bool" where
  "joining_step s t \<longleftrightarrow> plugin_step s t \<and> stopper t = Joining"

lemma stop_bound_steps: "joining_step\<^sup>*\<^sup>* s t \<Longrightarrow> stop_bound n s \<Longrightarrow> stop_bound n t"
  by (induction rule: rtranclp_induct) (auto simp: joining_step_def intro: stop_bound_step)


definition can_return :: "('n, 'x) threaded \<Rightarrow> bool" where
  "can_return s \<longleftrightarrow> (\<exists>t. plugin_step\<^sup>*\<^sup>* s t \<and> stopper t = NoStop)"

lemma can_return_step: "plugin_step s t \<Longrightarrow> can_return t \<Longrightarrow> can_return s"
  unfolding can_return_def by (meson converse_rtranclp_into_rtranclp)

lemma can_return_now: "stopper s = NoStop \<Longrightarrow> can_return s"
  unfolding can_return_def by blast

lemma can_return_Finished:
  assumes "stopper s = Joining" and "m_thread (plug s) \<in> {NoThread, Finished}"
  shows "can_return s"
proof -
  obtain p es f where "run_handler 0 (onShutdown (m_class (plug s))) (set_thread NoThread (plug s)) = (p, es, f)"
    by (cases "run_handler 0 (onShutdown (m_class (plug s))) (set_thread NoThread (plug s))") auto
  from plugin_step.ps_joined [OF assms this] have
    "plugin_step s (s\<lparr>plug := p, stopper := NoStop, emitted := emitted s @ es\<rparr>)" .
  then show ?thesis by (rule can_return_step) (simp add: can_return_now)
qed

lemma can_return_Looping:
  "stopper s = Joining \<Longrightarrow> \<not> m_running (plug s) \<Longrightarrow> m_thread (plug s) = Looping \<Longrightarrow> can_return s"
  by (rule can_return_step [OF plugin_step.ps_leave]) (simp_all add: can_return_Finished)

lemma can_return_Handling:
  assumes s: "stopper s = Joining" "\<not> m_running (plug s)" "m_thread (plug s) = Handling msg"
    and "quiet_class (m_class (plug s))" and "m_command_parser (plug s) = None"
  shows "can_return s"
proof -
  obtain p es f where run: "run_handler 0 (process_message msg (plug s)) (plug s) = (p, es, f)"
    by (cases "run_handler 0 (process_message msg (plug s)) (plug s)") auto
  with assms have "f = None"
    by (auto simp: run_handler_def process_message_def quiet_class_def split: prod.splits) (metis fst_conv)
  then have "plugin_step s (s\<lparr>plug := set_thread Looping p, emitted := emitted s @ es\<rparr>)"
    using plugin_step.ps_handle [OF s(3) run] by (simp add: after_handler_def)
  then show ?thesis
    by (rule can_return_step) (rule can_return_Looping, use s run_handler_frame [OF run] in simp_all)
qed

lemma can_return_Waiting:
  assumes s: "stopper s = Joining" "\<not> m_running (plug s)" "m_thread (plug s) = Waiting"
    and "quiet_class (m_class (plug s))" and "m_command_parser (plug s) = None"
  shows "can_return s"
proof (cases "m_incoming (plug s)")
  case Nil
  then have "plugin_step s (s\<lparr>plug := set_thread Looping (plug s)\<rparr>)"
    using plugin_step.ps_timeout [OF s(3)] by (simp add: commandsCount_def)
  then show ?thesis by (rule can_return_step) (rule can_return_Looping, use s in simp_all)
next
  case (Cons msg rest)
  then have "getCommand (plug s) = Inr (msg, plug s\<lparr>m_incoming := rest\<rparr>)"
    by (simp add: getCommand_def)
  from plugin_step.ps_take [OF s(3) this] show ?thesis
    using assms by (elim can_return_step) (rule can_return_Handling, auto simp: set_thread_def)
qed

section \<open>Properties\<close>

text \<open>
  C22: in every interleaving of deliveries, the plugin's thread and calls of \<open>stop()\<close> and
  \<open>spawn()\<close>, the loop takes the messages in the order of their delivery, none lost and none twice;
  what is not yet taken is in the mailbox, across restarts and after exceptions too.
\<close>

theorem plugin_fifo:
  assumes "plugin_reach p s" and "m_incoming p = []"
  shows "delivered s = taken s @ m_incoming (plug s)"
  using fifo_history_reach [OF assms(1)] assms(2) by (simp add: fifo_history_def)

text \<open>
  C28: a \<open>stop()\<close> that begins before the new thread has entered \<open>run()\<close> is lost: \<open>run()\<close>
  sets \<open>m_running\<close> again, and if the handlers throw nothing there is no continuation in which the
  join ends.
\<close>

theorem stop_before_run_never_returns:
  assumes "spawn p = Inr q" and "quiet_class (m_class p)" and "plug s = q" and "stopper s = NoStop"
    and "plugin_step\<^sup>*\<^sup>* (s\<lparr>plug := q\<lparr>m_running := False\<rparr>, stopper := Joining\<rparr>) t"
  shows "stopper t = Joining \<and> m_thread (plug t) \<notin> {NoThread, Finished}"
proof -
  have "stop_lost (s\<lparr>plug := q\<lparr>m_running := False\<rparr>, stopper := Joining\<rparr>)"
    using assms(1,2) by (auto simp: stop_lost_def spawn_def split: if_split_asm)
  from stop_lost_steps [OF assms(5) this] show ?thesis
    by (auto simp: stop_lost_def split: plugin_thread.splits)
qed

text \<open>
  Remark: a \<open>stop()\<close> that begins once the thread is in its loop lets it take at most one more message,
  however many are delivered meanwhile.
\<close>

theorem stop_takes_at_most_one:
  assumes "m_thread (plug s) \<noteq> Starting" and "stopper s = NoStop" and "m_running (plug s)"
    and "joining_step\<^sup>*\<^sup>* (s\<lparr>plug := plug s\<lparr>m_running := False\<rparr>, stopper := Joining\<rparr>) t"
  shows "length (taken t) \<le> length (taken s) + 1"
proof -
  have "stop_bound (length (taken s) + 1) (s\<lparr>plug := plug s\<lparr>m_running := False\<rparr>, stopper := Joining\<rparr>)"
    using assms(1) by (simp add: stop_bound_def)
  from stop_bound_steps [OF assms(4) this] show ?thesis by (simp add: stop_bound_def)
qed

text \<open>
  Remark: and such a \<open>stop()\<close> is never stuck: from every state it can reach with the thread past
  \<open>onInit()\<close>, the join can end, if the message handler throws nothing.
\<close>

theorem stop_in_loop_can_return:
  assumes "stopper s = Joining" and "\<not> m_running (plug s)" and "m_thread (plug s) \<noteq> Starting"
    and "quiet_class (m_class (plug s))" and "m_command_parser (plug s) = None"
  shows "\<exists>t. plugin_step\<^sup>*\<^sup>* s t \<and> stopper t = NoStop"
  using assms can_return_Finished [of s] can_return_Looping [of s] can_return_Waiting [of s]
    can_return_Handling [of s]
  by (cases "m_thread (plug s)") (auto simp: can_return_def)

text \<open>
  Remark: when the handler of a message throws, the thread ends with \<open>m_running\<close> still set. From then
  on the plugin accepts messages and takes none until somebody stops it.
\<close>

theorem crashed_plugin_keeps_running_flag:
  assumes "m_thread (plug s) = Handling msg" and "m_running (plug s)" and "stopper s = NoStop"
    and "run_handler u (process_message msg (plug s)) (plug s) = (p, es, Some e)" and "catchable e"
  shows "\<exists>t. plugin_step s t \<and> m_thread (plug t) = Finished \<and> m_running (plug t) \<and>
    (\<forall>v. plugin_step t v \<longrightarrow> stopper v = Joining \<or>
       (taken v = taken t \<and> m_thread (plug v) = Finished \<and> m_running (plug v) \<and>
        (\<exists>m. m_incoming (plug v) = m_incoming (plug t) @ [m])))"
proof -
  let ?t = "s\<lparr>plug := set_thread Finished p, emitted := emitted s @ es\<rparr>"
  have "plugin_step s ?t"
    using plugin_step.ps_handle [OF assms(1,4)] assms(5) by (simp add: after_handler_def)
  moreover have "m_running (plug ?t)" "stopper ?t = NoStop"
    using assms(2,3) run_handler_frame [OF assms(4)] by simp_all
  moreover have "stopper v = Joining \<or> (taken v = taken ?t \<and> m_thread (plug v) = Finished \<and>
      m_running (plug v) \<and> (\<exists>m. m_incoming (plug v) = m_incoming (plug ?t) @ [m]))"
    if "plugin_step ?t v" for v
    using that calculation(2,3) by (cases rule: plugin_step.cases) (auto simp: spawn_def)
  ultimately show ?thesis by (intro exI [of _ ?t]) simp
qed


lemma command_parse_catchable: "command_parse config line = Inl e \<Longrightarrow> catchable e"
  by (auto simp: command_parse_eq split_command_def split_body_def split: if_split_asm list.splits option.splits)

lemma preFilter_eq: "preFilter msg p \<longleftrightarrow> m_command_parser p = None \<or> isCommand msg p"
  by (auto simp: preFilter_def)

text \<open>
  Remark: what a plugin with a command parser does with a message that the core delivered to it: a
  line that does not parse and a command without a function change nothing and never end the
  thread; otherwise exactly the function of that command runs, on the parsed command with the
  message attached, and an exception it throws is contained.
\<close>

theorem process_command_message:
  assumes "m_command_parser p = Some config" and "preFilter msg p"
  shows "run_handler u (process_message msg p) p =
    (case command_parse config (last (params msg)) of
       Inl e \<Rightarrow> (p, [], None)
     | Inr c \<Rightarrow> (case m_functions p (cmd_command c) of
         None \<Rightarrow> (p, [], None)
       | Some f \<Rightarrow> run_handler u (catch_exceptions (f (c\<lparr>cmd_irc_message := msg\<rparr>))) p))"
proof -
  from assms have c: "isCommand msg p" by (simp add: preFilter_eq)
  then have "params msg \<noteq> []" by (auto simp: isCommand_def split: option.splits)
  with assms(1) c show ?thesis
    by (auto simp: run_handler_def process_message_def vec_back_Inr catch_exceptions_def onCommand_def
        callFunction_def need_def skip_def dest: command_parse_catchable split: sum.splits option.splits)
qed

section \<open>Concrete plugins\<close>

definition example_plugin :: "(nat, nat) plugin" where
  "example_plugin = Plugin (base_class ''echo'') 0 \<lparr>pc_id = ''echo'', pc_config = 0\<rparr>"

definition throwing_class :: "(nat, nat) plugin_class" where
  "throwing_class = (base_class ''faulty'')
     \<lparr>onMessage := (\<lambda>_. andThen (modify Suc) (throw (RuntimeError ''error'')))\<rparr>"

definition command_plugin :: "(nat, nat) plugin" where
  "command_plugin = addFunction ''x'' (\<lambda>c. andThen (send (cmd_irc_message c)) (modify Suc))
     (installCommandParser slash_config example_plugin)"

lemma quiet_base_class: "quiet_class (base_class name)"
  by (simp add: quiet_class_def base_class_def skip_def)

abbreviation (input) msg1 :: irc_message where "msg1 \<equiv> IRCMessage ''PRIVMSG'' [''#c'', ''/x'']"
abbreviation (input) msg2 :: irc_message where "msg2 \<equiv> IRCMessage ''PING'' [''b'']"

lemma example_plugin_run:
  "\<exists>s. plugin_reach example_plugin s \<and> taken s = [msg1] \<and> m_incoming (plug s) = [msg2]"
proof -
  let ?p = "example_plugin"
  let ?s0 = "started ?p"
  let ?s1 = "?s0\<lparr>plug := ?p\<lparr>m_running := True, m_thread := Starting\<rparr>\<rparr>"
  let ?s2 = "?s1\<lparr>plug := set_thread Looping (plug ?s1), emitted := []\<rparr>"
  let ?s3 = "?s2\<lparr>plug := receive msg1 (plug ?s2), delivered := delivered ?s2 @ [msg1]\<rparr>"
  let ?s4 = "?s3\<lparr>plug := receive msg2 (plug ?s3), delivered := delivered ?s3 @ [msg2]\<rparr>"
  let ?s5 = "?s4\<lparr>plug := set_thread Waiting (plug ?s4)\<rparr>"
  let ?s6 = "?s5\<lparr>plug := set_thread (Handling msg1) ((plug ?s5)\<lparr>m_incoming := [msg2]\<rparr>), taken := [msg1]\<rparr>"
  have "plugin_step ?s0 ?s1"
    by (rule plugin_step.ps_spawn) (simp_all add: started_def spawn_def example_plugin_def Plugin_def)
  moreover have "plugin_step ?s1 ?s2"
    using plugin_step.ps_run [of ?s1 0 "plug ?s1" "[]" None]
    by (simp add: run_handler_def example_plugin_def Plugin_def base_class_def skip_def after_handler_def
        started_def)
  moreover have "plugin_step ?s2 ?s3" and "plugin_step ?s3 ?s4"
    by (rule plugin_step.ps_receive, simp add: mutex_free_def)+
  moreover have "plugin_step ?s4 ?s5"
    by (rule plugin_step.ps_test) simp_all
  moreover have "plugin_step ?s5 ?s6"
    using plugin_step.ps_take [of ?s5 msg1 "(plug ?s5)\<lparr>m_incoming := [msg2]\<rparr>"]
    by (simp add: getCommand_def started_def example_plugin_def Plugin_def)
  ultimately have "plugin_reach ?p ?s6"
    by (meson plugin_reach.intros)
  then show ?thesis by (intro exI [of _ ?s6]) (simp add: set_thread_def)
qed

theorem plugin_fifo_witness:
  "\<exists>s. plugin_reach example_plugin s \<and> taken s = [msg1] \<and> m_incoming (plug s) = [msg2] \<and>
     delivered s = [msg1, msg2]"
proof -
  obtain s where s: "plugin_reach example_plugin s" "taken s = [msg1]" "m_incoming (plug s) = [msg2]"
    using example_plugin_run by blast
  with plugin_fifo [OF s(1)] show ?thesis by (auto simp: example_plugin_def Plugin_def)
qed

theorem stop_before_run_never_returns_witness:
  "\<exists>q. spawn example_plugin = Inr q \<and>
     stopper ((started q)\<lparr>plug := q\<lparr>m_running := False\<rparr>, stopper := Joining\<rparr>) = Joining"
proof -
  obtain q where q: "spawn example_plugin = Inr q"
    by (simp add: spawn_def example_plugin_def Plugin_def)
  have "quiet_class (m_class example_plugin)"
    by (simp add: example_plugin_def Plugin_def quiet_base_class)
  from stop_before_run_never_returns [OF q this, of "started q" "(started q)\<lparr>plug := q\<lparr>m_running := False\<rparr>, stopper := Joining\<rparr>"] q
  show ?thesis by (simp add: started_def)
qed

definition looping :: "(nat, nat) threaded" where
  "looping = started (set_thread Waiting (receive msg1 example_plugin))"

theorem stop_takes_at_most_one_witness:
  "length (taken (looping\<lparr>plug := plug looping\<lparr>m_running := False\<rparr>, stopper := Joining\<rparr>)) \<le>
     length (taken looping) + 1"
  by (rule stop_takes_at_most_one [of looping])
     (simp_all add: looping_def started_def example_plugin_def Plugin_def)

theorem stop_in_loop_can_return_witness:
  "\<exists>t. plugin_step\<^sup>*\<^sup>* (looping\<lparr>plug := plug looping\<lparr>m_running := False\<rparr>, stopper := Joining\<rparr>) t \<and>
     stopper t = NoStop"
  by (rule stop_in_loop_can_return)
     (simp_all add: looping_def started_def example_plugin_def Plugin_def set_thread_def receive_def
       quiet_base_class)

definition faulty :: "(nat, nat) threaded" where
  "faulty = started (set_thread (Handling msg1) (example_plugin\<lparr>m_class := throwing_class\<rparr>))"

theorem crashed_plugin_keeps_running_flag_witness:
  "\<exists>t. plugin_step faulty t \<and> m_thread (plug t) = Finished \<and> m_running (plug t)"
proof -
  have "run_handler 0 (process_message msg1 (plug faulty)) (plug faulty) =
      (plug faulty\<lparr>m_object := 1\<rparr>, [], Some (RuntimeError ''error''))"
    by (simp add: faulty_def started_def example_plugin_def Plugin_def set_thread_def throwing_class_def
        run_handler_def process_message_def handler_simps)
  from crashed_plugin_keeps_running_flag [OF _ _ _ this] show ?thesis
    by (force simp: faulty_def started_def example_plugin_def Plugin_def set_thread_def)
qed

theorem process_command_message_witness:
  "run_handler 0 (process_message msg1 command_plugin) command_plugin =
     (command_plugin\<lparr>m_object := 1\<rparr>, [Send msg1], None)"
proof -
  have parse: "command_parse slash_config ''/x'' = Inr (empty_cmd\<lparr>cmd_command := ''x''\<rparr>)"
    by code_simp
  have "m_command_parser command_plugin = Some slash_config" "preFilter msg1 command_plugin"
    by (simp_all add: command_plugin_def addFunction_def installCommandParser_def preFilter_eq isCommand_def
        first_char_def slash_config_def)
  from process_command_message [OF this, of 0] parse show ?thesis
    by (simp add: command_plugin_def addFunction_def installCommandParser_def example_plugin_def Plugin_def
        run_handler_def catch_exceptions_def handler_simps)
qed

end
