(* ===== verification/Irc_Parser.thy ===== *)
theory Irc_Parser
  imports Irc_Message
begin

text \<open>
  \<open>IRCParser\<close> (include/ircbot/irc_parser.hpp, source/irc_parser.cpp): a character-driven lexer that
  fills a queue of tokens, and a token-driven parser that runs when a line is complete and appends
  one message to the queue of parsed messages.
\<close>

section \<open>State\<close>

datatype token_type =
    Tok_SERVERNAME | Tok_NICK | Tok_USER | Tok_HOST | Tok_COMMAND | Tok_PARAM | Tok_CR | Tok_LF

datatype lexer_state =
    St_NONE | St_SERVERNAME_NICK | St_USER | St_HOST | St_COMMAND | St_COMMAND_NUM
  | St_COMMAND_LETTER | St_PARAMS | St_TRAILING | St_CR | St_LF

record irc_token =
  tok_type :: token_type
  tok_value :: string

definition Token :: "token_type \<Rightarrow> string \<Rightarrow> irc_token" where
  "Token t v = \<lparr>tok_type = t, tok_value = v\<rparr>"

record irc_parser =
  m_state :: lexer_state
  m_last_token :: token_type
  m_tokens :: "irc_token list"
  m_message :: irc_message
  m_messages :: "irc_message list"

text \<open>A normal form for sequences of field updates.\<close>

lemma irc_parser_update_order [simp]:
  fixes p :: irc_parser
  shows "p\<lparr>m_tokens := ts, m_state := st\<rparr> = p\<lparr>m_state := st, m_tokens := ts\<rparr>"
    "p\<lparr>m_last_token := l, m_state := st\<rparr> = p\<lparr>m_state := st, m_last_token := l\<rparr>"
    "p\<lparr>m_message := m, m_state := st\<rparr> = p\<lparr>m_state := st, m_message := m\<rparr>"
    "p\<lparr>m_messages := ms, m_state := st\<rparr> = p\<lparr>m_state := st, m_messages := ms\<rparr>"
    "p\<lparr>m_tokens := ts, m_last_token := l\<rparr> = p\<lparr>m_last_token := l, m_tokens := ts\<rparr>"
    "p\<lparr>m_message := m, m_last_token := l\<rparr> = p\<lparr>m_last_token := l, m_message := m\<rparr>"
    "p\<lparr>m_messages := ms, m_last_token := l\<rparr> = p\<lparr>m_last_token := l, m_messages := ms\<rparr>"
    "p\<lparr>m_message := m, m_tokens := ts\<rparr> = p\<lparr>m_tokens := ts, m_message := m\<rparr>"
    "p\<lparr>m_messages := ms, m_tokens := ts\<rparr> = p\<lparr>m_tokens := ts, m_messages := ms\<rparr>"
    "p\<lparr>m_messages := ms, m_message := m\<rparr> = p\<lparr>m_message := m, m_messages := ms\<rparr>"
  by simp_all

definition new_IRCParser :: irc_parser where
  "new_IRCParser = \<lparr>m_state = St_NONE, m_last_token = Tok_LF, m_tokens = [],
     m_message = empty_message, m_messages = []\<rparr>"

section \<open>Queue of parsed messages\<close>

definition messagesCount :: "irc_parser \<Rightarrow> nat" where
  "messagesCount p = length (m_messages p)"

definition messagesEmpty :: "irc_parser \<Rightarrow> bool" where
  "messagesEmpty p \<longleftrightarrow> m_messages p = []"

definition getMessage :: "irc_parser \<Rightarrow> (irc_message \<times> irc_parser) result" where
  "getMessage p = (case m_messages p of
     [] \<Rightarrow> Inl UndefinedBehaviour
   | msg # rest \<Rightarrow> Inr (msg, p\<lparr>m_messages := rest\<rparr>))"

definition push_message :: "irc_message \<Rightarrow> irc_parser \<Rightarrow> irc_parser" where
  "push_message msg p = p\<lparr>m_messages := m_messages p @ [msg]\<rparr>"

interpretation parsed: fifo m_messages push_message getMessage messagesCount
  by unfold_locales (auto simp: push_message_def getMessage_def messagesCount_def)

section \<open>The parser: one token\<close>

text \<open>
  The body of the \<open>while\<close> loop of \<open>IRCParser::parser\<close> for a token already taken from the
  queue: what is assigned depends on the type of the token before it. The branches marked
  \<open>report error\<close> in the source do nothing.
\<close>

definition parser_token :: "irc_token \<Rightarrow> irc_parser \<Rightarrow> irc_parser" where
  "parser_token token p =
     (let type = tok_type token; v = tok_value token; m = m_message p;
          p' = (case m_last_token p of
            Tok_LF \<Rightarrow>
              (if type = Tok_SERVERNAME then p\<lparr>m_message := m\<lparr>servername := v\<rparr>\<rparr>
               else if type = Tok_NICK then p\<lparr>m_message := m\<lparr>nick := v\<rparr>\<rparr>
               else if type = Tok_COMMAND then p\<lparr>m_message := m\<lparr>command := v\<rparr>\<rparr>
               else p)
          | Tok_SERVERNAME \<Rightarrow>
              (if type = Tok_COMMAND then p\<lparr>m_message := m\<lparr>command := v\<rparr>\<rparr> else p)
          | Tok_NICK \<Rightarrow>
              (if type = Tok_USER then p\<lparr>m_message := m\<lparr>user := v\<rparr>\<rparr>
               else if type = Tok_HOST then p\<lparr>m_message := m\<lparr>host := v\<rparr>\<rparr>
               else if type = Tok_COMMAND then p\<lparr>m_message := m\<lparr>command := v\<rparr>\<rparr>
               else p)
          | Tok_USER \<Rightarrow>
              (if type = Tok_HOST then p\<lparr>m_message := m\<lparr>host := v\<rparr>\<rparr>
               else if type = Tok_COMMAND then p\<lparr>m_message := m\<lparr>command := v\<rparr>\<rparr>
               else p)
          | Tok_HOST \<Rightarrow>
              (if type = Tok_COMMAND then p\<lparr>m_message := m\<lparr>command := v\<rparr>\<rparr> else p)
          | Tok_CR \<Rightarrow>
              (if type = Tok_LF then (push_message m p)\<lparr>m_message := empty_message\<rparr> else p)
          | _ \<Rightarrow>
              (if type = Tok_PARAM then p\<lparr>m_message := m\<lparr>params := params m @ [v]\<rparr>\<rparr>
               else if type = Tok_LF then (push_message m p)\<lparr>m_message := empty_message\<rparr>
               else p))
      in p'\<lparr>m_last_token := type\<rparr>)"

lemma m_tokens_parser_token [simp]: "m_tokens (parser_token t p) = m_tokens p"
  by (simp add: parser_token_def Let_def push_message_def split: token_type.splits)

lemma m_state_parser_token [simp]: "m_state (parser_token t p) = m_state p"
  by (simp add: parser_token_def Let_def push_message_def split: token_type.splits)

text \<open>\<open>IRCParser::parser\<close>: take tokens from the front of the queue until it is empty.\<close>

function parser :: "irc_parser \<Rightarrow> irc_parser" where
  "parser p = (case m_tokens p of
     [] \<Rightarrow> p
   | token # rest \<Rightarrow> parser (parser_token token (p\<lparr>m_tokens := rest\<rparr>)))"
  by pat_completeness auto
termination
  by (relation "measure (\<lambda>p. length (m_tokens p))") auto

declare parser.simps [simp del]

section \<open>The lexer: one character\<close>

definition putToken :: "token_type \<Rightarrow> string \<Rightarrow> irc_parser \<Rightarrow> irc_parser" where
  "putToken type token p = p\<lparr>m_tokens := m_tokens p @ [Token type token]\<rparr>"

definition putTokenType :: "token_type \<Rightarrow> irc_parser \<Rightarrow> irc_parser" where
  "putTokenType type p = p\<lparr>m_tokens := m_tokens p @ [Token type '''']\<rparr>"

text \<open>\<open>if (not token.str().empty()) putToken(TokenType::PARAM, token);\<close>\<close>

definition putParam :: "string \<Rightarrow> irc_parser \<Rightarrow> irc_parser \<times> string" where
  "putParam token p = (if token \<noteq> '''' then (putToken Tok_PARAM token p, '''') else (p, token))"

text \<open>
  The body of the loop of \<open>IRCParser::lexer\<close>, before its test for the state \<open>LF\<close>. The second
  component is the local \<open>token\<close> stream: \<open>putToken(type, token)\<close> empties it.
\<close>

definition lexer_char :: "char \<Rightarrow> irc_parser \<times> string \<Rightarrow> irc_parser \<times> string" where
  "lexer_char x s = (case s of (p, token) \<Rightarrow>
     (case m_state p of
        St_NONE \<Rightarrow>
          (if x = CHR '':'' then (p\<lparr>m_state := St_SERVERNAME_NICK\<rparr>, token)
           else (p\<lparr>m_state := St_COMMAND\<rparr>, token @ [x]))
      | St_SERVERNAME_NICK \<Rightarrow>
          (if x \<noteq> SPC \<and> x \<noteq> CHR ''!'' \<and> x \<noteq> CHR ''@'' then (p, token @ [x])
           else if x = SPC then ((putToken Tok_SERVERNAME token p)\<lparr>m_state := St_COMMAND\<rparr>, '''')
           else if x = CHR ''!'' then ((putToken Tok_NICK token p)\<lparr>m_state := St_USER\<rparr>, '''')
           else ((putToken Tok_NICK token p)\<lparr>m_state := St_HOST\<rparr>, ''''))
      | St_USER \<Rightarrow>
          (if x \<noteq> SPC \<and> x \<noteq> CHR ''@'' then (p, token @ [x])
           else if x = SPC then ((putToken Tok_USER token p)\<lparr>m_state := St_COMMAND\<rparr>, '''')
           else ((putToken Tok_USER token p)\<lparr>m_state := St_HOST\<rparr>, ''''))
      | St_HOST \<Rightarrow>
          (if x \<noteq> SPC then (p, token @ [x])
           else ((putToken Tok_HOST token p)\<lparr>m_state := St_COMMAND\<rparr>, ''''))
      | St_COMMAND \<Rightarrow>
          (if is_digit x then (p\<lparr>m_state := St_COMMAND_NUM\<rparr>, token @ [x])
           else if is_alpha x then (p\<lparr>m_state := St_COMMAND_LETTER\<rparr>, token @ [x])
           else (p, token))
      | St_COMMAND_NUM \<Rightarrow>
          (if is_digit x then (p, token @ [x])
           else if x = SPC then ((putToken Tok_COMMAND token p)\<lparr>m_state := St_PARAMS\<rparr>, '''')
           else (p, token))
      | St_COMMAND_LETTER \<Rightarrow>
          (if is_alpha x then (p, token @ [x])
           else if x = SPC then ((putToken Tok_COMMAND token p)\<lparr>m_state := St_PARAMS\<rparr>, '''')
           else (p, token))
      | St_PARAMS \<Rightarrow>
          (if x \<noteq> CHR '':'' \<and> x \<noteq> SPC \<and> x \<noteq> NUL \<and> x \<noteq> CR \<and> x \<noteq> LF then (p, token @ [x])
           else if x = CHR '':'' then (p\<lparr>m_state := St_TRAILING\<rparr>, token)
           else if x = SPC then putParam token p
           else if x = CR then (case putParam token p of (p', token') \<Rightarrow>
             ((putTokenType Tok_CR p')\<lparr>m_state := St_CR\<rparr>, token'))
           else if x = LF then (case putParam token p of (p', token') \<Rightarrow>
             ((putTokenType Tok_LF p')\<lparr>m_state := St_LF\<rparr>, token'))
           else (p, token))
      | St_TRAILING \<Rightarrow>
          (if x \<noteq> NUL \<and> x \<noteq> CR \<and> x \<noteq> LF then (p, token @ [x])
           else if x = CR then
             ((putTokenType Tok_CR (putToken Tok_PARAM token p))\<lparr>m_state := St_CR\<rparr>, '''')
           else if x = LF then
             ((putTokenType Tok_LF (putToken Tok_PARAM token p))\<lparr>m_state := St_LF\<rparr>, '''')
           else (p, token))
      | St_CR \<Rightarrow>
          (if x = LF then ((putTokenType Tok_LF p)\<lparr>m_state := St_LF\<rparr>, token) else (p, token))
      | St_LF \<Rightarrow> (p, token)))"

text \<open>The whole loop body: in the state \<open>LF\<close> the tokens are parsed and the state is reset.\<close>

definition lexer_step :: "char \<Rightarrow> irc_parser \<times> string \<Rightarrow> irc_parser \<times> string" where
  "lexer_step x s = (case lexer_char x s of (p, token) \<Rightarrow>
     if m_state p = St_LF then ((parser p)\<lparr>m_state := St_NONE\<rparr>, token) else (p, token))"

text \<open>
  \<open>lexer\<close> starts every call with an empty local token stream and drops it at the end.
\<close>

definition lexer :: "string \<Rightarrow> irc_parser \<Rightarrow> irc_parser" where
  "lexer msg p = fst (fold lexer_step msg (p, ''''))"

definition parse :: "irc_parser \<Rightarrow> string \<Rightarrow> irc_parser" where
  "parse p msg = lexer msg p"

section \<open>The lexer inside a token\<close>

text \<open>
  \<open>absorbs st x\<close>: in the state \<open>st\<close> the character \<open>x\<close> is appended to the token stream and
  nothing else happens.
\<close>

fun absorbs :: "lexer_state \<Rightarrow> char \<Rightarrow> bool" where
  "absorbs St_SERVERNAME_NICK x \<longleftrightarrow> x \<noteq> SPC \<and> x \<noteq> CHR ''!'' \<and> x \<noteq> CHR ''@''"
| "absorbs St_USER x \<longleftrightarrow> x \<noteq> SPC \<and> x \<noteq> CHR ''@''"
| "absorbs St_HOST x \<longleftrightarrow> x \<noteq> SPC"
| "absorbs St_COMMAND_NUM x \<longleftrightarrow> is_digit x"
| "absorbs St_COMMAND_LETTER x \<longleftrightarrow> is_alpha x"
| "absorbs St_PARAMS x \<longleftrightarrow> x \<noteq> CHR '':'' \<and> x \<noteq> SPC \<and> x \<noteq> NUL \<and> x \<noteq> CR \<and> x \<noteq> LF"
| "absorbs St_TRAILING x \<longleftrightarrow> x \<noteq> NUL \<and> x \<noteq> CR \<and> x \<noteq> LF"
| "absorbs _ x \<longleftrightarrow> False"

lemma lexer_step_absorb:
  "absorbs (m_state p) x \<Longrightarrow> lexer_step x (p, token) = (p, token @ [x])"
  by (cases "m_state p") (auto simp: lexer_step_def lexer_char_def)

lemma fold_absorb:
  "(\<forall>x \<in> set w. absorbs (m_state p) x) \<Longrightarrow> fold lexer_step w (p, token) = (p, token @ w)"
  by (induction w arbitrary: token) (simp_all add: lexer_step_absorb)

lemma is_digit_not_special [simp]:
  "is_digit x \<Longrightarrow> \<not> is_alpha x"
  "\<not> is_digit SPC" "\<not> is_digit CR" "\<not> is_digit LF" "\<not> is_digit NUL" "\<not> is_digit (CHR '':'')"
  by (cases x; simp add: is_digit_def is_alpha_def less_eq_char_def of_char_def) (simp_all add: is_digit_def)

lemma is_alpha_not_special [simp]:
  "\<not> is_alpha SPC" "\<not> is_alpha CR" "\<not> is_alpha LF" "\<not> is_alpha NUL" "\<not> is_alpha (CHR '':'')"
  by (simp_all add: is_alpha_def)

text \<open>How each state reacts to the characters that end its token.\<close>

lemma lexer_step_NONE:
  "m_state p = St_NONE \<Longrightarrow> lexer_step x (p, token) =
     (if x = CHR '':'' then (p\<lparr>m_state := St_SERVERNAME_NICK\<rparr>, token)
      else (p\<lparr>m_state := St_COMMAND\<rparr>, token @ [x]))"
  by (simp add: lexer_step_def lexer_char_def)

lemma lexer_step_SERVERNAME_NICK:
  "m_state p = St_SERVERNAME_NICK \<Longrightarrow> lexer_step SPC (p, token) =
     ((putToken Tok_SERVERNAME token p)\<lparr>m_state := St_COMMAND\<rparr>, '''')"
  "m_state p = St_SERVERNAME_NICK \<Longrightarrow> lexer_step (CHR ''!'') (p, token) =
     ((putToken Tok_NICK token p)\<lparr>m_state := St_USER\<rparr>, '''')"
  "m_state p = St_SERVERNAME_NICK \<Longrightarrow> lexer_step (CHR ''@'') (p, token) =
     ((putToken Tok_NICK token p)\<lparr>m_state := St_HOST\<rparr>, '''')"
  by (simp_all add: lexer_step_def lexer_char_def putToken_def)

lemma lexer_step_USER:
  "m_state p = St_USER \<Longrightarrow> lexer_step SPC (p, token) =
     ((putToken Tok_USER token p)\<lparr>m_state := St_COMMAND\<rparr>, '''')"
  "m_state p = St_USER \<Longrightarrow> lexer_step (CHR ''@'') (p, token) =
     ((putToken Tok_USER token p)\<lparr>m_state := St_HOST\<rparr>, '''')"
  by (simp_all add: lexer_step_def lexer_char_def putToken_def)

lemma lexer_step_HOST:
  "m_state p = St_HOST \<Longrightarrow> lexer_step SPC (p, token) =
     ((putToken Tok_HOST token p)\<lparr>m_state := St_COMMAND\<rparr>, '''')"
  by (simp add: lexer_step_def lexer_char_def putToken_def)

lemma lexer_step_COMMAND:
  "m_state p = St_COMMAND \<Longrightarrow> is_digit x \<Longrightarrow> lexer_step x (p, token) =
     (p\<lparr>m_state := St_COMMAND_NUM\<rparr>, token @ [x])"
  "m_state p = St_COMMAND \<Longrightarrow> is_alpha x \<Longrightarrow> lexer_step x (p, token) =
     (p\<lparr>m_state := St_COMMAND_LETTER\<rparr>, token @ [x])"
  by (auto simp add: lexer_step_def lexer_char_def)

lemma lexer_step_COMMAND_end:
  "m_state p \<in> {St_COMMAND_NUM, St_COMMAND_LETTER} \<Longrightarrow> lexer_step SPC (p, token) =
     ((putToken Tok_COMMAND token p)\<lparr>m_state := St_PARAMS\<rparr>, '''')"
  by (auto simp: lexer_step_def lexer_char_def putToken_def)

lemma lexer_step_COMMAND_ignored:
  assumes "m_state p \<in> {St_COMMAND_NUM, St_COMMAND_LETTER}" and "x \<noteq> SPC"
    and "\<not> absorbs (m_state p) x"
  shows "lexer_step x (p, w) = (p, w)"
proof (cases "m_state p = St_COMMAND_NUM")
  case True
  with assms(2,3) show ?thesis by (simp add: lexer_step_def lexer_char_def)
next
  case False
  with assms(1) have "m_state p = St_COMMAND_LETTER" by simp
  with assms(2,3) show ?thesis by (simp add: lexer_step_def lexer_char_def)
qed

lemma lexer_step_PARAMS:
  "m_state p = St_PARAMS \<Longrightarrow> lexer_step SPC (p, token) = putParam token p"
  "m_state p = St_PARAMS \<Longrightarrow> lexer_step (CHR '':'') (p, token) = (p\<lparr>m_state := St_TRAILING\<rparr>, token)"
  by (auto simp: lexer_step_def lexer_char_def putParam_def putToken_def)

lemma lexer_step_TRAILING_CR:
  "m_state p = St_TRAILING \<Longrightarrow> lexer_step CR (p, token) =
     ((putTokenType Tok_CR (putToken Tok_PARAM token p))\<lparr>m_state := St_CR\<rparr>, '''')"
  by (simp add: lexer_step_def lexer_char_def putToken_def putTokenType_def)

lemma lexer_step_CR_LF:
  "m_state p = St_CR \<Longrightarrow> lexer_step LF (p, token) =
     ((parser ((putTokenType Tok_LF p)\<lparr>m_state := St_LF\<rparr>))\<lparr>m_state := St_NONE\<rparr>, token)"
  by (simp add: lexer_step_def lexer_char_def putTokenType_def)

section \<open>The parser on a token queue\<close>

lemma parser_token_frame:
  "parser_token t (p\<lparr>m_tokens := ts\<rparr>) = (parser_token t p)\<lparr>m_tokens := ts\<rparr>"
  "parser_token t (p\<lparr>m_state := st\<rparr>) = (parser_token t p)\<lparr>m_state := st\<rparr>"
  by (simp_all add: parser_token_def Let_def push_message_def split: token_type.splits)

text \<open>The loop over the queue is a fold over the tokens that were in it.\<close>

lemma parser_fold: "parser p = fold parser_token (m_tokens p) (p\<lparr>m_tokens := []\<rparr>)"
proof (induction p rule: parser.induct)
  case (1 p)
  show ?case
  proof (cases "m_tokens p")
    case Nil
    then show ?thesis by (simp add: parser.simps)
  next
    case (Cons t rest)
    from "1" [OF this] show ?thesis
      by (simp add: parser.simps [of p] Cons parser_token_frame)
  qed
qed

text \<open>
  What a token contributes to the message, whatever came before it, and the message a queue of
  tokens describes: a specification without \<open>m_last_token\<close>.
\<close>

definition set_field :: "irc_token \<Rightarrow> irc_message \<Rightarrow> irc_message" where
  "set_field t m = (case tok_type t of
     Tok_SERVERNAME \<Rightarrow> m\<lparr>servername := tok_value t\<rparr>
   | Tok_NICK \<Rightarrow> m\<lparr>nick := tok_value t\<rparr>
   | Tok_USER \<Rightarrow> m\<lparr>user := tok_value t\<rparr>
   | Tok_HOST \<Rightarrow> m\<lparr>host := tok_value t\<rparr>
   | Tok_COMMAND \<Rightarrow> m\<lparr>command := tok_value t\<rparr>
   | Tok_PARAM \<Rightarrow> m\<lparr>params := params m @ [tok_value t]\<rparr>
   | _ \<Rightarrow> m)"

definition assemble :: "irc_token list \<Rightarrow> irc_message" where
  "assemble ts = fold set_field ts empty_message"

text \<open>The token types the parser accepts after a given one, the end of the line apart.\<close>

fun follows :: "token_type \<Rightarrow> token_type \<Rightarrow> bool" where
  "follows Tok_LF t \<longleftrightarrow> t \<in> {Tok_SERVERNAME, Tok_NICK, Tok_COMMAND}"
| "follows Tok_SERVERNAME t \<longleftrightarrow> t = Tok_COMMAND"
| "follows Tok_NICK t \<longleftrightarrow> t \<in> {Tok_USER, Tok_HOST, Tok_COMMAND}"
| "follows Tok_USER t \<longleftrightarrow> t \<in> {Tok_HOST, Tok_COMMAND}"
| "follows Tok_HOST t \<longleftrightarrow> t = Tok_COMMAND"
| "follows Tok_COMMAND t \<longleftrightarrow> t \<in> {Tok_PARAM, Tok_CR}"
| "follows Tok_PARAM t \<longleftrightarrow> t \<in> {Tok_PARAM, Tok_CR}"
| "follows Tok_CR t \<longleftrightarrow> False"

fun follows_all :: "token_type \<Rightarrow> token_type list \<Rightarrow> bool" where
  "follows_all l [] \<longleftrightarrow> True"
| "follows_all l (t # ts) \<longleftrightarrow> follows l t \<and> follows_all t ts"

lemma follows_all_snoc:
  "follows_all l (ts @ [t]) \<longleftrightarrow> follows_all l ts \<and> follows (last (l # ts)) t"
  by (induction ts arbitrary: l) auto

lemma follows_not_LF: "follows l t \<Longrightarrow> t \<noteq> Tok_LF"
  by (cases l) auto

lemma follows_all_last_LF:
  "follows_all l ts \<Longrightarrow> last (l # ts) = Tok_LF \<Longrightarrow> ts = []"
  by (induction ts arbitrary: l) (auto dest: follows_not_LF split: if_splits)

lemma parser_token_follows:
  "follows (m_last_token p) (tok_type t) \<Longrightarrow>
   parser_token t p = p\<lparr>m_message := set_field t (m_message p), m_last_token := tok_type t\<rparr>"
  by (cases "m_last_token p"; cases "tok_type t") (simp_all add: parser_token_def set_field_def Let_def)

lemma fold_parser_token_follows:
  "follows_all (m_last_token p) (map tok_type ts) \<Longrightarrow>
   fold parser_token ts p = p\<lparr>m_message := fold set_field ts (m_message p),
     m_last_token := last (m_last_token p # map tok_type ts)\<rparr>"
proof (induction ts arbitrary: p)
  case Nil
  show ?case by simp
next
  case (Cons t ts)
  then show ?case by (simp add: parser_token_follows)
qed

lemma parser_token_LF:
  assumes "m_last_token p \<in> {Tok_COMMAND, Tok_PARAM, Tok_CR}" and "tok_type t = Tok_LF"
  shows "parser_token t p = (push_message (m_message p) p)\<lparr>m_message := empty_message,
    m_last_token := Tok_LF\<rparr>"
  using assms by (auto simp: parser_token_def Let_def)

text \<open>On a complete line the parser appends the message its tokens describe, once.\<close>

lemma parser_complete_line:
  assumes "m_last_token p = Tok_LF" and "m_message p = empty_message"
    and "m_tokens p = ts @ [t]" and "tok_type t = Tok_LF"
    and "follows_all Tok_LF (map tok_type ts)"
    and "last (Tok_LF # map tok_type ts) \<in> {Tok_COMMAND, Tok_PARAM, Tok_CR}"
  shows "parser p = (push_message (assemble ts) p)\<lparr>m_tokens := []\<rparr>"
proof -
  have "parser p = parser_token t (fold parser_token ts (p\<lparr>m_tokens := []\<rparr>))"
    by (simp add: parser_fold assms(3))
  also have "fold parser_token ts (p\<lparr>m_tokens := []\<rparr>) =
      p\<lparr>m_tokens := [], m_message := assemble ts, m_last_token := last (Tok_LF # map tok_type ts)\<rparr>"
    using fold_parser_token_follows [of "p\<lparr>m_tokens := []\<rparr>" ts] assms(1,2,5)
    by (simp add: assemble_def)
  also have "parser_token t \<dots> = (push_message (assemble ts) p)\<lparr>m_tokens := []\<rparr>"
    using assms(1,2,4,6) by (subst parser_token_LF) (simp_all add: push_message_def)
  finally show ?thesis .
qed

section \<open>The invariant between characters\<close>

text \<open>The type of the last queued token that each lexer state expects (\<open>LF\<close>: none queued).\<close>

fun expects :: "lexer_state \<Rightarrow> token_type \<Rightarrow> bool" where
  "expects St_NONE t \<longleftrightarrow> t = Tok_LF"
| "expects St_SERVERNAME_NICK t \<longleftrightarrow> t = Tok_LF"
| "expects St_USER t \<longleftrightarrow> t = Tok_NICK"
| "expects St_HOST t \<longleftrightarrow> t \<in> {Tok_NICK, Tok_USER}"
| "expects St_PARAMS t \<longleftrightarrow> t \<in> {Tok_COMMAND, Tok_PARAM}"
| "expects St_TRAILING t \<longleftrightarrow> t \<in> {Tok_COMMAND, Tok_PARAM}"
| "expects St_CR t \<longleftrightarrow> t = Tok_CR"
| "expects St_LF t \<longleftrightarrow> False"
| "expects _ t \<longleftrightarrow> t \<in> {Tok_LF, Tok_SERVERNAME, Tok_USER, Tok_HOST}"

text \<open>Characters that end a line or a string on the wire.\<close>

definition line_safe :: "string \<Rightarrow> bool" where
  "line_safe s \<longleftrightarrow> NUL \<notin> set s \<and> CR \<notin> set s \<and> LF \<notin> set s"

definition command_text :: "string \<Rightarrow> bool" where
  "command_text s \<longleftrightarrow> (\<forall>c \<in> set (tl s). is_digit c \<or> is_alpha c)"

fun value_ok :: "token_type \<Rightarrow> string \<Rightarrow> bool" where
  "value_ok Tok_SERVERNAME v \<longleftrightarrow> SPC \<notin> set v \<and> CHR ''!'' \<notin> set v \<and> CHR ''@'' \<notin> set v"
| "value_ok Tok_NICK v \<longleftrightarrow> SPC \<notin> set v \<and> CHR ''!'' \<notin> set v \<and> CHR ''@'' \<notin> set v"
| "value_ok Tok_USER v \<longleftrightarrow> SPC \<notin> set v \<and> CHR ''@'' \<notin> set v"
| "value_ok Tok_HOST v \<longleftrightarrow> SPC \<notin> set v"
| "value_ok Tok_COMMAND v \<longleftrightarrow> command_text v"
| "value_ok Tok_PARAM v \<longleftrightarrow> line_safe v"
| "value_ok _ v \<longleftrightarrow> True"

text \<open>What the characters collected so far satisfy in each state.\<close>

fun stream_ok :: "lexer_state \<Rightarrow> string \<Rightarrow> bool" where
  "stream_ok St_SERVERNAME_NICK w \<longleftrightarrow> value_ok Tok_NICK w"
| "stream_ok St_USER w \<longleftrightarrow> value_ok Tok_USER w"
| "stream_ok St_HOST w \<longleftrightarrow> value_ok Tok_HOST w"
| "stream_ok St_COMMAND w \<longleftrightarrow> length w \<le> 1"
| "stream_ok St_COMMAND_NUM w \<longleftrightarrow> command_text w"
| "stream_ok St_COMMAND_LETTER w \<longleftrightarrow> command_text w"
| "stream_ok St_PARAMS w \<longleftrightarrow> line_safe w"
| "stream_ok St_TRAILING w \<longleftrightarrow> line_safe w"
| "stream_ok _ w \<longleftrightarrow> w = ''''"

definition message_ok :: "irc_message \<Rightarrow> bool" where
  "message_ok m \<longleftrightarrow> value_ok Tok_SERVERNAME (servername m) \<and> value_ok Tok_NICK (nick m)
     \<and> value_ok Tok_USER (user m) \<and> value_ok Tok_HOST (host m) \<and> command_text (command m)
     \<and> (\<forall>q \<in> set (params m). line_safe q)"

definition parser_ok :: "irc_parser \<Rightarrow> bool" where
  "parser_ok p \<longleftrightarrow> m_last_token p = Tok_LF \<and> m_message p = empty_message
     \<and> follows_all Tok_LF (map tok_type (m_tokens p))
     \<and> expects (m_state p) (last (Tok_LF # map tok_type (m_tokens p)))
     \<and> (\<forall>t \<in> set (m_tokens p). value_ok (tok_type t) (tok_value t))
     \<and> (\<forall>m \<in> set (m_messages p). message_ok m)"

lemma message_ok_set_field:
  "message_ok m \<Longrightarrow> value_ok (tok_type t) (tok_value t) \<Longrightarrow> message_ok (set_field t m)"
  by (cases "tok_type t") (auto simp: set_field_def message_ok_def)

lemma message_ok_empty: "message_ok empty_message"
  by (simp add: message_ok_def command_text_def)

lemma message_ok_fold:
  "message_ok m \<Longrightarrow> (\<forall>t \<in> set ts. value_ok (tok_type t) (tok_value t)) \<Longrightarrow>
   message_ok (fold set_field ts m)"
  by (induction ts arbitrary: m) (simp_all add: message_ok_set_field)

lemma message_ok_assemble:
  "(\<forall>t \<in> set ts. value_ok (tok_type t) (tok_value t)) \<Longrightarrow> message_ok (assemble ts)"
  unfolding assemble_def by (rule message_ok_fold [OF message_ok_empty])

definition last_queued :: "irc_parser \<Rightarrow> token_type" where
  "last_queued p = last (Tok_LF # map tok_type (m_tokens p))"

lemma last_queued_putToken [simp]:
  "last_queued (putToken t v p) = t" "last_queued (putTokenType t p) = t"
  by (simp_all add: last_queued_def putToken_def putTokenType_def Token_def)

lemma last_queued_state [simp]: "last_queued (p\<lparr>m_state := st\<rparr>) = last_queued p"
  by (simp add: last_queued_def)

lemma parser_ok_state:
  "parser_ok p \<Longrightarrow> expects st (last_queued p) \<Longrightarrow> parser_ok (p\<lparr>m_state := st\<rparr>)"
  by (simp add: parser_ok_def last_queued_def)

lemma parser_ok_putToken:
  "parser_ok p \<Longrightarrow> follows (last_queued p) t \<Longrightarrow> value_ok t v \<Longrightarrow> expects st t \<Longrightarrow>
   parser_ok ((putToken t v p)\<lparr>m_state := st\<rparr>)"
  using follows_all_snoc [of Tok_LF "map tok_type (m_tokens p)" t]
  by (auto simp: parser_ok_def last_queued_def putToken_def Token_def)

lemma parser_ok_putTokenType:
  "parser_ok p \<Longrightarrow> follows (last_queued p) t \<Longrightarrow> value_ok t '''' \<Longrightarrow> expects st t \<Longrightarrow>
   parser_ok ((putTokenType t p)\<lparr>m_state := st\<rparr>)"
  using parser_ok_putToken [of p t "''''" st] by (simp add: putToken_def putTokenType_def)

lemma parser_ok_expects: "parser_ok p \<Longrightarrow> expects (m_state p) (last_queued p)"
  by (simp add: parser_ok_def last_queued_def)

text \<open>Reading the line feed of a complete line delivers the assembled message.\<close>

lemma parser_line_feed:
  assumes "parser_ok p" and "last_queued p \<in> {Tok_COMMAND, Tok_PARAM, Tok_CR}"
  shows "parser ((putTokenType Tok_LF p)\<lparr>m_state := st\<rparr>) =
    (push_message (assemble (m_tokens p)) p)\<lparr>m_state := st, m_tokens := []\<rparr>"
proof -
  let ?q = "(putTokenType Tok_LF p)\<lparr>m_state := st\<rparr>"
  have "parser ?q = (push_message (assemble (m_tokens p)) ?q)\<lparr>m_tokens := []\<rparr>"
    by (rule parser_complete_line [where t = "Token Tok_LF ''''"])
      (use assms in \<open>simp_all add: parser_ok_def last_queued_def putTokenType_def Token_def\<close>)
  then show ?thesis by (simp add: putTokenType_def push_message_def)
qed

lemma parser_ok_line_feed:
  assumes "parser_ok p"
  shows "parser_ok ((push_message (assemble (m_tokens p)) p)\<lparr>m_tokens := [], m_state := St_NONE\<rparr>)"
  using assms by (auto simp: parser_ok_def push_message_def message_ok_assemble)

definition step_ok :: "irc_parser \<times> string \<Rightarrow> bool" where
  "step_ok s \<longleftrightarrow> parser_ok (fst s) \<and> stream_ok (m_state (fst s)) (snd s)"

lemmas parser_ok_intros = parser_ok_state parser_ok_putToken parser_ok_putTokenType

lemma stream_ok_Nil [simp]: "stream_ok st ''''"
  by (cases st) (auto simp: command_text_def line_safe_def)

lemma command_text_snoc:
  "command_text w \<Longrightarrow> is_digit x \<or> is_alpha x \<Longrightarrow> command_text (w @ [x])"
  by (cases w) (auto simp: command_text_def)

lemma stream_ok_absorb:
  "stream_ok st w \<Longrightarrow> absorbs st x \<Longrightarrow> stream_ok st (w @ [x])"
  by (cases st) (auto simp: line_safe_def intro: command_text_snoc)

lemma step_ok_absorb:
  "step_ok (p, w) \<Longrightarrow> absorbs (m_state p) x \<Longrightarrow> step_ok (lexer_step x (p, w))"
  by (simp add: lexer_step_absorb step_ok_def stream_ok_absorb)

lemma step_ok_putParam:
  assumes "parser_ok p" and "m_state p = St_PARAMS" and "line_safe w"
  obtains q where "putParam w p = (q, '''')" and "parser_ok q" and "m_state q = St_PARAMS"
proof (cases "w = ''''")
  case True
  then show ?thesis using assms that [of p] by (simp add: putParam_def)
next
  case False
  have "last_queued p \<in> {Tok_COMMAND, Tok_PARAM}"
    using parser_ok_expects [OF assms(1)] assms(2) by simp
  then have "parser_ok ((putToken Tok_PARAM w p)\<lparr>m_state := St_PARAMS\<rparr>)"
    by (intro parser_ok_putToken) (use assms in auto)
  moreover have "(putToken Tok_PARAM w p)\<lparr>m_state := St_PARAMS\<rparr> = putToken Tok_PARAM w p"
    using assms(2) by (simp add: putToken_def)
  ultimately have "parser_ok (putToken Tok_PARAM w p)" by simp
  with False assms(2) show ?thesis
    by (intro that [of "putToken Tok_PARAM w p"]) (simp_all add: putParam_def putToken_def)
qed

lemma step_ok_CR:
  "parser_ok p \<Longrightarrow> last_queued p \<in> {Tok_COMMAND, Tok_PARAM} \<Longrightarrow>
   step_ok ((putTokenType Tok_CR p)\<lparr>m_state := St_CR\<rparr>, '''')"
  unfolding step_ok_def by (auto intro!: parser_ok_putTokenType)

lemma step_ok_LF:
  "parser_ok p \<Longrightarrow> last_queued p \<in> {Tok_COMMAND, Tok_PARAM, Tok_CR} \<Longrightarrow>
   step_ok ((parser ((putTokenType Tok_LF p)\<lparr>m_state := St_LF\<rparr>))\<lparr>m_state := St_NONE\<rparr>, '''')"
  unfolding step_ok_def using parser_line_feed [of p St_LF] parser_ok_line_feed [of p] by simp

lemma step_ok_PARAMS:
  assumes ok: "parser_ok p" and st: "m_state p = St_PARAMS" and w: "line_safe w"
    and x: "\<not> absorbs St_PARAMS x"
  shows "step_ok (lexer_step x (p, w))"
proof -
  from ok st w obtain q where q: "putParam w p = (q, '''')" "parser_ok q" "m_state q = St_PARAMS"
    by (rule step_ok_putParam)
  have lq: "last_queued q \<in> {Tok_COMMAND, Tok_PARAM}"
    using parser_ok_expects [OF q(2)] q(3) by simp
  from x consider "x = CHR '':''" | "x = SPC" | "x = NUL" | "x = CR" | "x = LF" by auto
  then show ?thesis
  proof cases
    case 1
    with parser_ok_expects [OF ok] st w show ?thesis
      by (auto simp: lexer_step_PARAMS step_ok_def intro!: parser_ok_state [OF ok])
  next
    case 2
    with q st show ?thesis by (simp add: lexer_step_PARAMS step_ok_def)
  next
    case 3
    with ok st w show ?thesis by (simp add: lexer_step_def lexer_char_def step_ok_def)
  next
    case 4
    have "lexer_step x (p, w) = ((putTokenType Tok_CR q)\<lparr>m_state := St_CR\<rparr>, '''')"
      using 4 st q(1) by (simp add: lexer_step_def lexer_char_def putTokenType_def)
    with step_ok_CR [OF q(2) lq] show ?thesis by simp
  next
    case 5
    have "lexer_step x (p, w) =
        ((parser ((putTokenType Tok_LF q)\<lparr>m_state := St_LF\<rparr>))\<lparr>m_state := St_NONE\<rparr>, '''')"
      using 5 st q(1) by (simp add: lexer_step_def lexer_char_def)
    with step_ok_LF [OF q(2)] lq show ?thesis by auto
  qed
qed

lemma step_ok_TRAILING:
  assumes ok: "parser_ok p" and st: "m_state p = St_TRAILING" and w: "line_safe w"
    and x: "\<not> absorbs St_TRAILING x"
  shows "step_ok (lexer_step x (p, w))"
proof -
  let ?q = "putToken Tok_PARAM w p"
  have "parser_ok (?q\<lparr>m_state := St_TRAILING\<rparr>)"
    by (rule parser_ok_putToken [OF ok]) (use parser_ok_expects [OF ok] st w in auto)
  moreover have "?q\<lparr>m_state := St_TRAILING\<rparr> = ?q" using st by (simp add: putToken_def)
  ultimately have q: "parser_ok ?q" by simp
  from x consider "x = NUL" | "x = CR" | "x = LF" by auto
  then show ?thesis
  proof cases
    case 1
    with ok st w show ?thesis by (simp add: lexer_step_def lexer_char_def step_ok_def)
  next
    case 2
    with step_ok_CR [OF q] st show ?thesis by (simp add: lexer_step_TRAILING_CR)
  next
    case 3
    with step_ok_LF [OF q] st show ?thesis by (simp add: lexer_step_def lexer_char_def)
  qed
qed

lemma step_ok_prefix_states:
  assumes ok: "parser_ok p" and w: "stream_ok (m_state p) w"
    and st: "m_state p \<in> {St_NONE, St_SERVERNAME_NICK, St_USER, St_HOST}"
    and x: "\<not> absorbs (m_state p) x"
  shows "step_ok (lexer_step x (p, w))"
  using st parser_ok_expects [OF ok] x w
  by (auto simp: lexer_step_NONE lexer_step_SERVERNAME_NICK lexer_step_USER lexer_step_HOST step_ok_def
      intro!: parser_ok_intros [OF ok])

lemma step_ok_command_states:
  assumes ok: "parser_ok p" and w: "stream_ok (m_state p) w"
    and st: "m_state p \<in> {St_COMMAND, St_COMMAND_NUM, St_COMMAND_LETTER}"
    and x: "\<not> absorbs (m_state p) x"
  shows "step_ok (lexer_step x (p, w))"
proof -
  have ct: "length w \<le> 1 \<Longrightarrow> is_digit x \<or> is_alpha x \<Longrightarrow> command_text (w @ [x])"
    by (cases w) (auto simp: command_text_def)
  have lq: "last_queued p \<in> {Tok_LF, Tok_SERVERNAME, Tok_USER, Tok_HOST}"
    using st parser_ok_expects [OF ok] by auto
  consider "m_state p = St_COMMAND" "is_digit x" | "m_state p = St_COMMAND" "is_alpha x"
    | "m_state p = St_COMMAND" "\<not> is_digit x" "\<not> is_alpha x"
    | "m_state p \<in> {St_COMMAND_NUM, St_COMMAND_LETTER}" "x = SPC"
    | "m_state p \<in> {St_COMMAND_NUM, St_COMMAND_LETTER}" "x \<noteq> SPC"
    using st by auto
  then show ?thesis
  proof cases
    case 1
    with lq ct w show ?thesis
      by (auto simp: lexer_step_COMMAND step_ok_def intro!: parser_ok_state [OF ok])
  next
    case 2
    with lq ct w show ?thesis
      by (auto simp: lexer_step_COMMAND step_ok_def intro!: parser_ok_state [OF ok])
  next
    case 3
    with ok w show ?thesis by (simp add: lexer_step_def lexer_char_def step_ok_def)
  next
    case 4
    with lq w show ?thesis
      by (auto simp: lexer_step_COMMAND_end step_ok_def intro!: parser_ok_putToken [OF ok])
  next
    case 5
    with x have "lexer_step x (p, w) = (p, w)" by (intro lexer_step_COMMAND_ignored)
    with ok w show ?thesis by (simp add: step_ok_def)
  qed
qed

text \<open>Every character keeps the invariant, from every state.\<close>

lemma step_ok_step: "step_ok s \<Longrightarrow> step_ok (lexer_step x s)"
proof (cases s)
  case (Pair p w)
  assume "step_ok s"
  with Pair have ok: "parser_ok p" and w: "stream_ok (m_state p) w" by (simp_all add: step_ok_def)
  show ?thesis
  proof (cases "absorbs (m_state p) x")
    case True
    with ok w show ?thesis unfolding Pair by (intro step_ok_absorb) (simp_all add: step_ok_def)
  next
    case x: False
    consider "m_state p \<in> {St_NONE, St_SERVERNAME_NICK, St_USER, St_HOST}"
      | "m_state p \<in> {St_COMMAND, St_COMMAND_NUM, St_COMMAND_LETTER}"
      | "m_state p = St_PARAMS" | "m_state p = St_TRAILING" | "m_state p = St_CR" | "m_state p = St_LF"
      by (cases "m_state p") auto
    then show ?thesis
    proof cases
      case 1
      with ok w x show ?thesis unfolding Pair by (intro step_ok_prefix_states)
    next
      case 2
      with ok w x show ?thesis unfolding Pair by (intro step_ok_command_states)
    next
      case 3
      with ok w x show ?thesis unfolding Pair by (intro step_ok_PARAMS) simp_all
    next
      case 4
      with ok w x show ?thesis unfolding Pair by (intro step_ok_TRAILING) simp_all
    next
      case 5
      then have "last_queued p = Tok_CR" and "w = ''''" using parser_ok_expects [OF ok] w by simp_all
      with 5 ok step_ok_LF [OF ok] show ?thesis
        by (cases "x = LF") (simp_all add: Pair lexer_step_CR_LF step_ok_def lexer_step_def lexer_char_def)
    next
      case 6
      then show ?thesis using parser_ok_expects [OF ok] by simp
    qed
  qed
qed

lemma step_ok_fold: "step_ok s \<Longrightarrow> step_ok (fold lexer_step msg s)"
  by (induction msg arbitrary: s) (simp_all add: step_ok_step)

lemma parser_ok_new: "parser_ok new_IRCParser"
  by (simp add: parser_ok_def new_IRCParser_def)

lemma parser_ok_parse: "parser_ok p \<Longrightarrow> parser_ok (parse p msg)"
  using step_ok_fold [of "(p, '''')" msg] by (simp add: parse_def lexer_def step_ok_def)

lemma parser_ok_getMessage: "parser_ok p \<Longrightarrow> getMessage p = Inr (m, q) \<Longrightarrow> parser_ok q \<and> message_ok m"
  by (auto simp: getMessage_def parser_ok_def split: list.splits)

section \<open>Reading back a printed message\<close>

text \<open>
  The messages whose text determines them: a prefix that is a server name, or a nick with a user
  or a host (a lone nick reads back as a server name), or none; a command of digits or of letters,
  of at least two characters when there is no prefix; at least one parameter, all but the last
  non-empty and free of spaces and colons.
\<close>

definition has_prefix :: "irc_message \<Rightarrow> bool" where
  "has_prefix m \<longleftrightarrow> servername m \<noteq> '''' \<or> nick m \<noteq> ''''"

definition canonical_prefix :: "irc_message \<Rightarrow> bool" where
  "canonical_prefix m \<longleftrightarrow>
     (if servername m \<noteq> '''' then nick m = '''' \<and> user m = '''' \<and> host m = ''''
        \<and> (\<forall>c \<in> set (servername m). absorbs St_SERVERNAME_NICK c)
      else if nick m \<noteq> '''' then (user m \<noteq> '''' \<or> host m \<noteq> '''')
        \<and> (\<forall>c \<in> set (nick m). absorbs St_SERVERNAME_NICK c)
        \<and> (\<forall>c \<in> set (user m). absorbs St_USER c) \<and> (\<forall>c \<in> set (host m). absorbs St_HOST c)
      else user m = '''' \<and> host m = '''')"

definition canonical_command :: "irc_message \<Rightarrow> bool" where
  "canonical_command m \<longleftrightarrow>
     ((\<forall>c \<in> set (command m). is_digit c) \<or> (\<forall>c \<in> set (command m). is_alpha c))
     \<and> (if has_prefix m then 1 else 2) \<le> length (command m)"

definition canonical_params :: "string list \<Rightarrow> bool" where
  "canonical_params ps \<longleftrightarrow> ps \<noteq> [] \<and> line_safe (last ps)
     \<and> (\<forall>q \<in> set (butlast ps). q \<noteq> '''' \<and> (\<forall>c \<in> set q. absorbs St_PARAMS c))"

definition canonical :: "irc_message \<Rightarrow> bool" where
  "canonical m \<longleftrightarrow> canonical_prefix m \<and> canonical_command m \<and> canonical_params (params m)"

definition prefix_tokens :: "irc_message \<Rightarrow> irc_token list" where
  "prefix_tokens m =
     (if servername m \<noteq> '''' then [Token Tok_SERVERNAME (servername m)]
      else if nick m \<noteq> '''' then Token Tok_NICK (nick m)
        # (if user m \<noteq> '''' then [Token Tok_USER (user m)] else [])
        @ (if host m \<noteq> '''' then [Token Tok_HOST (host m)] else [])
      else [])"

definition command_state :: "irc_message \<Rightarrow> lexer_state" where
  "command_state m = (if is_digit (last (command m)) then St_COMMAND_NUM else St_COMMAND_LETTER)"

lemma lex_prefix:
  assumes "canonical_prefix m" and "has_prefix m" and "m_state p = St_NONE"
  shows "fold lexer_step (prefix_string m) (p, '''') =
    (p\<lparr>m_state := St_COMMAND, m_tokens := m_tokens p @ prefix_tokens m\<rparr>, '''')"
  using assms
  by (auto simp: canonical_prefix_def has_prefix_def prefix_string_def prefix_tokens_def
      lexer_step_NONE lexer_step_SERVERNAME_NICK lexer_step_USER lexer_step_HOST fold_absorb
      putToken_def)

lemma lex_command_rest:
  assumes "m_state p = St_COMMAND" and "w \<noteq> ''''"
    and "(\<forall>c \<in> set w. is_digit c) \<or> (\<forall>c \<in> set w. is_alpha c)"
  shows "fold lexer_step w (p, token) =
    (p\<lparr>m_state := if is_digit (last w) then St_COMMAND_NUM else St_COMMAND_LETTER\<rparr>, token @ w)"
proof (cases w)
  case Nil
  with assms(2) show ?thesis by simp
next
  case (Cons c cs)
  from assms(3) show ?thesis
  proof
    assume "\<forall>c \<in> set w. is_digit c"
    moreover from this have "is_digit (last w)" using assms(2) by simp
    ultimately show ?thesis
      using assms(1) fold_absorb [of cs "p\<lparr>m_state := St_COMMAND_NUM\<rparr>"] Cons
      by (simp add: lexer_step_COMMAND)
  next
    assume "\<forall>c \<in> set w. is_alpha c"
    moreover from this have "is_alpha (last w)" using assms(2) by simp
    then have "\<not> is_digit (last w)" using is_digit_not_special(1) by blast
    ultimately show ?thesis
      using assms(1) fold_absorb [of cs "p\<lparr>m_state := St_COMMAND_LETTER\<rparr>"] Cons
      by (simp add: lexer_step_COMMAND)
  qed
qed

lemma lex_prefix_command:
  assumes "canonical_prefix m" and "canonical_command m" and "m_state p = St_NONE"
  shows "fold lexer_step (prefix_string m @ command m) (p, '''') =
    (p\<lparr>m_state := command_state m, m_tokens := m_tokens p @ prefix_tokens m\<rparr>, command m)"
proof (cases "has_prefix m")
  case True
  with assms(2) have "command m \<noteq> []" by (auto simp: canonical_command_def)
  with True assms show ?thesis
    using lex_command_rest [of "p\<lparr>m_state := St_COMMAND, m_tokens := m_tokens p @ prefix_tokens m\<rparr>"
        "command m" "''''"]
    by (auto simp: lex_prefix canonical_command_def command_state_def)
next
  case False
  with assms(2) obtain c d w where cmd: "command m = c # d # w"
    by (cases "command m"; cases "tl (command m)") (auto simp: canonical_command_def)
  with assms(2) have "c \<noteq> CHR '':''"
    using is_digit_not_special(6) is_alpha_not_special(5) by (auto simp: canonical_command_def)
  with False cmd assms show ?thesis
    using lex_command_rest [of "p\<lparr>m_state := St_COMMAND\<rparr>" "d # w" "[c]"]
    by (auto simp: lexer_step_NONE canonical_command_def command_state_def has_prefix_def
        prefix_string_def prefix_tokens_def)
qed

lemma params_string_snoc:
  "params_string (qs @ [l]) = '' '' @ concat (map (\<lambda>q. q @ '' '') qs) @ '':'' @ l"
proof -
  have "concat (map (\<lambda>q. SPC # q) qs) @ '' '' = '' '' @ concat (map (\<lambda>q. q @ '' '') qs)"
    by (induction qs) auto
  then show ?thesis by (simp add: params_string_def)
qed

lemma lex_middle:
  assumes "m_state p = St_PARAMS" and "\<forall>q \<in> set qs. q \<noteq> '''' \<and> (\<forall>c \<in> set q. absorbs St_PARAMS c)"
  shows "fold lexer_step (concat (map (\<lambda>q. q @ '' '') qs)) (p, '''') =
    (p\<lparr>m_tokens := m_tokens p @ map (Token Tok_PARAM) qs\<rparr>, '''')"
  using assms
proof (induction qs arbitrary: p)
  case Nil
  show ?case by simp
next
  case (Cons q qs)
  then show ?case
    using Cons.IH [of "putToken Tok_PARAM q p"]
    by (simp add: fold_absorb lexer_step_PARAMS putParam_def putToken_def)
qed

definition line_tokens :: "irc_message \<Rightarrow> irc_token list" where
  "line_tokens m = prefix_tokens m @ Token Tok_COMMAND (command m)
     # map (Token Tok_PARAM) (params m) @ [Token Tok_CR '''']"

lemma lex_params:
  assumes "canonical_params ps" and "m_state p \<in> {St_COMMAND_NUM, St_COMMAND_LETTER}"
  shows "fold lexer_step (params_string ps @ [CR]) (p, w) =
    (p\<lparr>m_state := St_CR, m_tokens := m_tokens p @ Token Tok_COMMAND w
       # map (Token Tok_PARAM) ps @ [Token Tok_CR '''']\<rparr>, '''')"
proof -
  from assms(1) obtain qs l where ps: "ps = qs @ [l]"
    by (cases ps rule: rev_cases) (auto simp: canonical_params_def)
  let ?p1 = "(putToken Tok_COMMAND w p)\<lparr>m_state := St_PARAMS\<rparr>"
  let ?p2 = "?p1\<lparr>m_tokens := m_tokens ?p1 @ map (Token Tok_PARAM) qs, m_state := St_TRAILING\<rparr>"
  have 1: "lexer_step SPC (p, w) = (?p1, '''')"
    using assms(2) by (rule lexer_step_COMMAND_end)
  have 2: "fold lexer_step (concat (map (\<lambda>q. q @ '' '') qs) @ '':'') (?p1, '''') = (?p2, '''')"
    using assms(1) by (simp add: lex_middle ps canonical_params_def lexer_step_PARAMS)
  have 3: "fold lexer_step l (?p2, '''') = (?p2, l)"
    using assms(1) by (subst fold_absorb) (auto simp: ps canonical_params_def line_safe_def)
  from 1 2 3 show ?thesis
    by (simp add: ps params_string_snoc lexer_step_TRAILING_CR putToken_def putTokenType_def)
qed

lemma assemble_params:
  "fold set_field (map (Token Tok_PARAM) qs) x = x\<lparr>params := params x @ qs\<rparr>"
  by (induction qs arbitrary: x) (simp_all add: set_field_def Token_def)

lemma assemble_prefix:
  assumes "canonical_prefix m"
  shows "fold set_field (prefix_tokens m) empty_message = m\<lparr>command := [], params := []\<rparr>"
proof -
  have sn: "servername m \<noteq> [] \<Longrightarrow> nick m = [] \<and> user m = [] \<and> host m = []"
    and no: "servername m = [] \<Longrightarrow> nick m = [] \<Longrightarrow> user m = [] \<and> host m = []"
    using assms by (simp_all add: canonical_prefix_def split: if_splits)
  show ?thesis
  proof (cases "servername m = []")
    case True
    with no show ?thesis
      by (intro irc_message.equality)
        (cases "nick m = []"; simp add: prefix_tokens_def set_field_def Token_def)+
  next
    case False
    with sn show ?thesis
      by (intro irc_message.equality) (simp_all add: prefix_tokens_def set_field_def Token_def)
  qed
qed

lemma assemble_line_tokens: "canonical_prefix m \<Longrightarrow> assemble (line_tokens m) = m"
  by (simp add: assemble_def line_tokens_def assemble_prefix assemble_params set_field_def Token_def)

definition idle :: "irc_parser \<Rightarrow> bool" where
  "idle p \<longleftrightarrow> parser_ok p \<and> m_state p = St_NONE"

lemma idle_tokens: "idle p \<Longrightarrow> m_tokens p = []"
proof -
  assume "idle p"
  then have ok: "parser_ok p" and st: "m_state p = St_NONE" by (simp_all add: idle_def)
  from parser_ok_expects [OF ok] st have "last (Tok_LF # map tok_type (m_tokens p)) = Tok_LF"
    unfolding last_queued_def by (simp only: expects.simps)
  moreover from ok have "follows_all Tok_LF (map tok_type (m_tokens p))"
    by (simp add: parser_ok_def)
  ultimately have "map tok_type (m_tokens p) = []" by (intro follows_all_last_LF)
  then show ?thesis by simp
qed

lemma idle_new: "idle new_IRCParser"
  by (simp add: idle_def parser_ok_new) (simp add: new_IRCParser_def)

text \<open>From inside a command: the rest of the line delivers one message.\<close>

lemma lex_params_line:
  assumes ok: "step_ok (q, w)" and st: "m_state q \<in> {St_COMMAND_NUM, St_COMMAND_LETTER}"
    and ps: "canonical_params ps"
  shows "fold lexer_step (params_string ps @ [CR, LF]) (q, w) =
    ((push_message (assemble (m_tokens q @ Token Tok_COMMAND w # map (Token Tok_PARAM) ps @ [Token Tok_CR ''''])) q)
       \<lparr>m_state := St_NONE, m_tokens := []\<rparr>, '''')"
proof -
  let ?ts = "m_tokens q @ Token Tok_COMMAND w # map (Token Tok_PARAM) ps @ [Token Tok_CR '''']"
  let ?q = "q\<lparr>m_state := St_CR, m_tokens := ?ts\<rparr>"
  have cr: "fold lexer_step (params_string ps @ [CR]) (q, w) = (?q, '''')"
    using ps st by (rule lex_params)
  then have ok': "parser_ok ?q"
    using step_ok_fold [OF ok, of "params_string ps @ [CR]"] by (simp add: step_ok_def)
  have "fold lexer_step (params_string ps @ [CR, LF]) (q, w) = lexer_step LF (?q, '''')"
    using cr by simp
  then show ?thesis
    using parser_line_feed [OF ok', of St_LF] parser_ok_expects [OF ok']
    by (simp add: lexer_step_CR_LF push_message_def)
qed

lemma lex_line:
  assumes "idle p" and "canonical m"
  shows "fold lexer_step (toString m False) (p, '''') = (push_message m p, '''')"
proof -
  let ?q = "p\<lparr>m_state := command_state m, m_tokens := prefix_tokens m\<rparr>"
  have pc: "fold lexer_step (prefix_string m @ command m) (p, '''') = (?q, command m)"
    using assms lex_prefix_command [of m p] idle_tokens [OF assms(1)]
    by (simp add: canonical_def idle_def)
  have "step_ok (p, '''')" using assms(1) by (simp add: step_ok_def idle_def)
  then have "step_ok (?q, command m)" using step_ok_fold pc by metis
  from lex_params_line [OF this, of "params m"] pc assms idle_tokens [OF assms(1)]
    assemble_line_tokens [of m]
  show ?thesis
    by (simp add: toString_def canonical_def command_state_def line_tokens_def push_message_def idle_def)
qed

lemma canonical_message_ok:
  assumes "canonical m" shows "message_ok m"
proof -
  have "line_safe q" if q: "q \<in> set (params m)" for q
  proof (cases "q = last (params m)")
    case True
    with assms show ?thesis by (simp add: canonical_def canonical_params_def)
  next
    case False
    from q have ne: "params m \<noteq> []" by auto
    with q have "q \<in> set (butlast (params m) @ [last (params m)])" by simp
    with False have "q \<in> set (butlast (params m))" by simp
    with assms show ?thesis by (auto simp: canonical_def canonical_params_def line_safe_def)
  qed
  moreover have "set (tl (command m)) \<subseteq> set (command m)" by (cases "command m") auto
  then have "command_text (command m)"
    using assms unfolding canonical_def canonical_command_def command_text_def by blast
  moreover have "\<forall>c \<in> set (servername m). absorbs St_SERVERNAME_NICK c"
    "\<forall>c \<in> set (nick m). absorbs St_SERVERNAME_NICK c"
    "\<forall>c \<in> set (user m). absorbs St_USER c" "\<forall>c \<in> set (host m). absorbs St_HOST c"
    using assms
    by (cases "servername m = []"; cases "nick m = []";
      simp add: canonical_def canonical_prefix_def del: absorbs.simps)+
  then have "value_ok Tok_SERVERNAME (servername m)" "value_ok Tok_NICK (nick m)"
    "value_ok Tok_USER (user m)" "value_ok Tok_HOST (host m)"
    by force+
  ultimately show ?thesis by (simp add: message_ok_def)
qed

lemma idle_push: "idle p \<Longrightarrow> message_ok m \<Longrightarrow> idle (push_message m p)"
  by (auto simp: idle_def parser_ok_def push_message_def)

lemma lex_lines:
  "idle p \<Longrightarrow> \<forall>m \<in> set ms. canonical m \<Longrightarrow>
   fold lexer_step (concat (map (\<lambda>m. toString m False) ms)) (p, '''') =
     (p\<lparr>m_messages := m_messages p @ ms\<rparr>, '''')"
proof (induction ms arbitrary: p)
  case Nil
  show ?case by simp
next
  case (Cons m ms)
  then have "idle (push_message m p)" by (simp add: idle_push canonical_message_ok)
  from Cons.IH [OF this] Cons.prems show ?case by (simp add: lex_line) (simp add: push_message_def)
qed

section \<open>Delivery in pieces\<close>

text \<open>
  The token stream is local to a call of \<open>lexer\<close>: what a call has collected of an unfinished
  token is dropped when it returns. Where it is empty, cutting the input there changes nothing.
\<close>

definition token_empty_after :: "irc_parser \<Rightarrow> string \<Rightarrow> bool" where
  "token_empty_after p a \<longleftrightarrow> snd (fold lexer_step a (p, '''')) = ''''"

lemma parse_append:
  "token_empty_after p a \<Longrightarrow> parse p (a @ b) = parse (parse p a) b"
  by (cases "fold lexer_step a (p, '''')") (simp add: token_empty_after_def parse_def lexer_def)

lemma parse_absorbed: "(\<forall>x \<in> set w. absorbs (m_state p) x) \<Longrightarrow> parse p w = p"
  by (simp add: parse_def lexer_def fold_absorb)

lemma parse_lines:
  "idle p \<Longrightarrow> \<forall>m \<in> set ms. canonical m \<Longrightarrow>
   parse p (concat (map (\<lambda>m. toString m False) ms)) = p\<lparr>m_messages := m_messages p @ ms\<rparr>"
  by (simp add: parse_def lexer_def lex_lines)

text \<open>A sequence of pieces is clean when no token is under way at the end of any of them.\<close>

fun clean :: "irc_parser \<Rightarrow> string list \<Rightarrow> bool" where
  "clean p [] \<longleftrightarrow> True"
| "clean p (x # xs) \<longleftrightarrow> token_empty_after p x \<and> clean (parse p x) xs"

lemma lexer_of_clean: "token_empty_after p x \<Longrightarrow> fold lexer_step x (p, '''') = (parse p x, '''')"
  by (cases "fold lexer_step x (p, '''')") (simp add: token_empty_after_def parse_def lexer_def)

lemma clean_runs: "clean p xs \<Longrightarrow> fold lexer_step (concat xs) (p, '''') = (fold (\<lambda>x q. parse q x) xs p, '''')"
  by (induction xs arbitrary: p) (simp_all add: lexer_of_clean)

lemma clean_parse: "clean p xs \<Longrightarrow> parse p (concat xs) = fold (\<lambda>x q. parse q x) xs p"
  by (simp add: parse_def [of p] lexer_def clean_runs)

lemma clean_append: "clean p (xs @ ys) \<longleftrightarrow> clean p xs \<and> clean (fold (\<lambda>x q. parse q x) xs p) ys"
  by (induction xs arbitrary: p) simp_all

lemma clean_reads:
  "clean p (concat reads) \<Longrightarrow> fold (\<lambda>read q. parse q (concat read)) reads p = parse p (concat (concat reads))"
proof (induction reads arbitrary: p)
  case Nil
  show ?case by (simp add: parse_def lexer_def)
next
  case (Cons r rs)
  then have r: "clean p r" "clean (parse p (concat r)) (concat rs)" by (simp_all add: clean_append clean_parse)
  have "token_empty_after p (concat r)" using clean_runs [OF r(1)] by (simp add: token_empty_after_def)
  from parse_append [OF this] Cons.IH [OF r(2)] show ?case by simp
qed

text \<open>The text of a message in pieces: its prefix, its command, its parameters but the last, a colon, the last, LF.\<close>

definition line_pieces :: "irc_message \<Rightarrow> string list" where
  "line_pieces m = [prefix_string m, command m @ '' ''] @ map (\<lambda>q. q @ '' '') (butlast (params m)) @
     ['':'', last (params m) @ [CR], [LF]]"

lemma concat_line_pieces:
  assumes "canonical m"
  shows "concat (line_pieces m) = toString m False"
proof -
  have "params m = butlast (params m) @ [last (params m)]" using assms by (simp add: canonical_def canonical_params_def)
  then have "params_string (params m) = '' '' @ concat (map (\<lambda>q. q @ '' '') (butlast (params m))) @ '':'' @ last (params m)"
    by (metis params_string_snoc)
  then show ?thesis by (simp add: line_pieces_def toString_def)
qed

lemma clean_params:
  assumes "m_state p = St_PARAMS" and "\<forall>q \<in> set qs. q \<noteq> '''' \<and> (\<forall>c \<in> set q. absorbs St_PARAMS c)" and "line_safe l"
  shows "clean p (map (\<lambda>q. q @ '' '') qs @ ['':'', l @ [CR], [LF]])"
  using assms
proof (induction qs arbitrary: p)
  case Nil
  have l: "\<forall>c \<in> set l. absorbs St_TRAILING c" using Nil.prems(3) by (auto simp: line_safe_def)
  have 1: "fold lexer_step '':'' (p, '''') = (p\<lparr>m_state := St_TRAILING\<rparr>, '''')"
    using Nil.prems(1) by (simp add: lexer_step_PARAMS)
  have 2: "\<exists>q. m_state q = St_CR \<and> fold lexer_step (l @ [CR]) (p\<lparr>m_state := St_TRAILING\<rparr>, '''') = (q, '''')"
    using fold_absorb [of l "p\<lparr>m_state := St_TRAILING\<rparr>"] l by (simp add: lexer_step_TRAILING_CR)
  then obtain q where q: "m_state q = St_CR" "fold lexer_step (l @ [CR]) (p\<lparr>m_state := St_TRAILING\<rparr>, '''') = (q, '''')" by blast
  have 3: "snd (fold lexer_step [LF] (q, '''')) = ''''" using q(1) by (simp add: lexer_step_CR_LF)
  from 1 q 3 show ?case by (simp add: token_empty_after_def parse_def lexer_def)
next
  case (Cons q qs)
  have "fold lexer_step (q @ '' '') (p, '''') = (p\<lparr>m_tokens := m_tokens p @ [Token Tok_PARAM q]\<rparr>, '''')"
    using lex_middle [of p "[q]"] Cons.prems by simp
  moreover have "clean (p\<lparr>m_tokens := m_tokens p @ [Token Tok_PARAM q]\<rparr>) (map (\<lambda>q. q @ '' '') qs @ ['':'', l @ [CR], [LF]])"
    using Cons.prems by (intro Cons.IH) simp_all
  ultimately show ?case by (simp add: token_empty_after_def parse_def lexer_def)
qed

lemma clean_line:
  assumes "idle p" and "canonical m"
  shows "clean p (line_pieces m)"
proof -
  have st: "m_state p = St_NONE" using assms(1) by (simp add: idle_def)
  have "\<exists>q. fold lexer_step (prefix_string m) (p, '''') = (q, '''')"
    using lex_prefix [of m p] assms(2) st by (cases "has_prefix m") (auto simp: canonical_def has_prefix_def prefix_string_def)
  then obtain q where q: "fold lexer_step (prefix_string m) (p, '''') = (q, '''')" by blast
  have "fold lexer_step (prefix_string m @ command m) (p, '''') =
    (p\<lparr>m_state := command_state m, m_tokens := m_tokens p @ prefix_tokens m\<rparr>, command m)"
    using assms(2) st by (intro lex_prefix_command) (simp_all add: canonical_def)
  with q have "fold lexer_step (command m @ '' '') (q, '''') =
      ((putToken Tok_COMMAND (command m) (p\<lparr>m_state := command_state m, m_tokens := m_tokens p @ prefix_tokens m\<rparr>))
        \<lparr>m_state := St_PARAMS\<rparr>, '''')"
    by (simp add: lexer_step_COMMAND_end command_state_def)
  moreover have "clean ((putToken Tok_COMMAND (command m) (p\<lparr>m_state := command_state m, m_tokens := m_tokens p @ prefix_tokens m\<rparr>))
        \<lparr>m_state := St_PARAMS\<rparr>) (map (\<lambda>q. q @ '' '') (butlast (params m)) @ ['':'', last (params m) @ [CR], [LF]])"
    using assms(2) by (intro clean_params) (simp_all add: canonical_def canonical_params_def)
  ultimately show ?thesis
    using q by (simp add: line_pieces_def token_empty_after_def parse_def lexer_def)
qed

lemma clean_lines:
  "idle p \<Longrightarrow> \<forall>m \<in> set ms. canonical m \<Longrightarrow> clean p (concat (map line_pieces ms))"
proof (induction ms arbitrary: p)
  case (Cons m ms)
  then have c: "clean p (line_pieces m)" by (intro clean_line) simp_all
  have "parse p (concat (line_pieces m)) = push_message m p"
    using Cons.prems by (simp add: concat_line_pieces parse_def lexer_def lex_line)
  then have "fold (\<lambda>x q. parse q x) (line_pieces m) p = push_message m p" using clean_parse [OF c] by simp
  moreover have "idle (push_message m p)" using Cons.prems by (simp add: idle_push canonical_message_ok)
  ultimately show ?case using c Cons by (simp add: clean_append)
qed simp

lemma concat_pieces: "\<forall>m \<in> set ms. canonical m \<Longrightarrow>
  concat (concat (map line_pieces ms)) = concat (map (\<lambda>m. toString m False) ms)"
  by (induction ms) (simp_all add: concat_line_pieces)

lemma parse_cut:
  assumes "idle p" and "\<forall>m \<in> set ms. canonical m" and "concat reads = concat (map line_pieces ms)"
  shows "fold (\<lambda>read q. parse q (concat read)) reads p = p\<lparr>m_messages := m_messages p @ ms\<rparr>"
proof -
  have "clean p (concat reads)" unfolding assms(3) using assms(1,2) by (rule clean_lines)
  from clean_reads [OF this] show ?thesis using assms by (simp add: concat_pieces parse_lines)
qed

text \<open>The states a parser can be in between calls.\<close>

inductive parser_reach :: "irc_parser \<Rightarrow> bool" where
  reach_new: "parser_reach new_IRCParser"
| reach_parse: "parser_reach p \<Longrightarrow> parser_reach (parse p chunk)"
| reach_get: "parser_reach p \<Longrightarrow> getMessage p = Inr (m, q) \<Longrightarrow> parser_reach q"

lemma parser_reach_ok: "parser_reach p \<Longrightarrow> parser_ok p"
  by (induction rule: parser_reach.induct)
    (auto simp: parser_ok_new parser_ok_parse dest: parser_ok_getMessage)

section \<open>Properties\<close>

text \<open>
  C23: reading back the text of a message delivers that message, at the end of the queue, and the
  parser is ready for the next line: the parser inverts \<open>toString\<close> on canonical messages, whatever is
  queued already.
\<close>

theorem parse_toString:
  assumes "idle p" and "canonical m"
  shows "parse p (toString m False) = push_message m p"
  using assms by (simp add: parse_def lexer_def lex_line)

text \<open>
  Remark: a stream of messages may arrive in buffers that hold any number of whole messages each;
  the queue then holds exactly these messages in order.
\<close>

theorem parse_message_stream:
  assumes "idle p" and "\<forall>ms \<in> set groups. \<forall>m \<in> set ms. canonical m"
  shows "fold (\<lambda>ms q. parse q (concat (map (\<lambda>m. toString m False) ms))) groups p =
    p\<lparr>m_messages := m_messages p @ concat groups\<rparr>"
  using assms
proof (induction groups arbitrary: p)
  case Nil
  show ?case by simp
next
  case (Cons ms groups)
  then have ok: "\<forall>m \<in> set ms. message_ok m" by (simp add: canonical_message_ok)
  with Cons.prems(1) have "idle (p\<lparr>m_messages := m_messages p @ ms\<rparr>)"
    by (auto simp: idle_def parser_ok_def)
  from Cons.IH [OF this] Cons.prems show ?case by (simp add: parse_lines)
qed

text \<open>
  C35: the text of a stream of messages may be cut behind the prefix of a line, behind the blank after the
  command or a parameter, behind the colon, the CR and the LF, at any selection of these points: the queue then holds exactly these messages, with every field as it was printed.
\<close>

theorem parse_cut_stream:
  assumes "idle p" and "\<forall>m \<in> set ms. canonical m" and "concat reads = concat (map line_pieces ms)"
  shows "fold (\<lambda>read q. parse q (concat read)) reads p = p\<lparr>m_messages := m_messages p @ ms\<rparr>"
  using assms by (rule parse_cut)

text \<open>
  Remark: a call whose input lies inside one token leaves no trace: the characters are lost, although the
  class comment promises that messages can be delivered in parts.
\<close>

theorem parse_inside_token_lost:
  assumes "\<forall>x \<in> set w. absorbs (m_state p) x"
  shows "parse p w = p"
  using assms by (rule parse_absorbed)

text \<open>
  Remark: a line cut inside the nick is delivered with the tail of the nick only.
\<close>

theorem parse_split_nick:
  assumes "idle p" and "canonical m" and "servername m = ''''" and "nick m = a @ b" and "b \<noteq> ''''"
  shows "parse (parse p ('':'' @ a)) (drop (Suc (length a)) (toString m False)) =
    push_message (m\<lparr>nick := b\<rparr>) p"
proof -
  have absorbed: "\<forall>x \<in> set a. absorbs St_SERVERNAME_NICK x" and canon: "canonical (m\<lparr>nick := b\<rparr>)"
    using assms by (auto simp: canonical_def canonical_prefix_def canonical_command_def has_prefix_def)
  let ?q = "p\<lparr>m_state := St_SERVERNAME_NICK\<rparr>"
  have q: "parse p '':'' = ?q" "parse p ('':'' @ a) = ?q"
    using assms(1) absorbed fold_absorb [of a ?q]
    by (simp_all add: parse_def lexer_def lexer_step_NONE idle_def)
  have rest: "toString (m\<lparr>nick := b\<rparr>) False = '':'' @ drop (Suc (length a)) (toString m False)"
    using assms(3-5) by (simp add: toString_def prefix_string_def)
  have "token_empty_after p '':''"
    using assms(1) by (simp add: token_empty_after_def lexer_step_NONE idle_def)
  then have "parse p (toString (m\<lparr>nick := b\<rparr>) False) =
      parse (parse p '':'') (drop (Suc (length a)) (toString m False))"
    unfolding rest by (rule parse_append)
  with q assms(1) canon show ?thesis by (simp add: parse_def lexer_def lex_line)
qed

text \<open>
  Remark: a command without parameters is never delivered: CR and LF are ignored while the
  command is read, so the next line is taken for its continuation and only one message results, under
  a command that is the two commands joined.
\<close>

theorem parse_parameterless_swallowed:
  assumes "idle p" and "canonical m" and "\<not> has_prefix m"
    and "\<forall>c \<in> set (command m). is_alpha c" and "\<forall>c \<in> set w. is_alpha c" and "2 \<le> length w"
  shows "parse p (w @ [CR, LF] @ toString m False) = push_message (m\<lparr>command := w @ command m\<rparr>) p"
proof -
  let ?q = "p\<lparr>m_state := St_COMMAND_LETTER\<rparr>"
  from assms(6) obtain c d v where w: "w = c # d # v" by (cases w; cases "tl w") auto
  with assms(5) have "c \<noteq> CHR '':''" using is_alpha_not_special(5) by auto
  with assms(1,5) w have "fold lexer_step w (p, '''') = (?q, w)"
    using fold_absorb [of v ?q] by (simp add: lexer_step_NONE lexer_step_COMMAND idle_def)
  then have pre: "fold lexer_step (w @ [CR, LF] @ command m) (p, '''') = (?q, w @ command m)"
    using assms(4) by (simp add: lexer_step_COMMAND_ignored fold_absorb)
  have "step_ok (p, '''')" using assms(1) by (simp add: step_ok_def idle_def)
  with pre have "step_ok (?q, w @ command m)" using step_ok_fold by metis
  from lex_params_line [OF this, of "params m"] assms(1,2) idle_tokens [OF assms(1)]
  have "fold lexer_step (params_string (params m) @ [CR, LF]) (?q, w @ command m) =
      (push_message (IRCMessage (w @ command m) (params m)) p, '''')"
    by (simp add: canonical_def assemble_def assemble_params set_field_def Token_def
        push_message_def idle_def IRCMessage_def)
  moreover have "IRCMessage (w @ command m) (params m) = m\<lparr>command := w @ command m\<rparr>"
    using assms(2,3)
    by (intro irc_message.equality) (simp_all add: has_prefix_def canonical_def canonical_prefix_def)
  moreover have "toString m False = command m @ params_string (params m) @ [CR, LF]"
    using assms(3) by (simp add: toString_def prefix_string_def has_prefix_def)
  ultimately show ?thesis
    using pre by (simp add: parse_def lexer_def)
qed

text \<open>
  Remark: in every reachable state, a line feed that ends a line appends exactly one message, the one
  that the queued tokens describe, and empties the token queue; the branches that the source marks
  as errors are never taken.
\<close>

theorem parse_line_feed_delivers:
  assumes "parser_reach p" and "m_state p = St_CR"
  shows "parse p [LF] = (push_message (assemble (m_tokens p)) p)\<lparr>m_state := St_NONE, m_tokens := []\<rparr>"
proof -
  have ok: "parser_ok p" using assms(1) by (rule parser_reach_ok)
  then show ?thesis
    using parser_line_feed [OF ok, of St_LF] parser_ok_expects [OF ok] assms(2)
    by (simp add: parse_def lexer_def lexer_step_CR_LF push_message_def)
qed

text \<open>
  Remark: between calls the parser has consumed whole lines only (the last token parsed is a line feed,
  no half-filled message is kept), the queued tokens are a prefix of a line that the grammar allows
  and agree with the lexer's state.
\<close>

theorem parse_reachable_invariant:
  assumes "parser_reach p"
  shows "m_last_token p = Tok_LF \<and> m_message p = empty_message
    \<and> follows_all Tok_LF (map tok_type (m_tokens p)) \<and> expects (m_state p) (last_queued p)"
  using parser_reach_ok [OF assms] parser_ok_expects by (auto simp: parser_ok_def)

text \<open>
  C25: whatever the server sends, in whatever pieces, a delivered message has parameters without CR,
  LF and NUL, a command of letters and digits from its second character on, and a nick, user and host
  that cannot run into the next field.
\<close>

theorem delivered_message_safe:
  assumes "parser_reach p" and "getMessage p = Inr (m, q)"
  shows "message_ok m"
  using parser_ok_getMessage [OF parser_reach_ok [OF assms(1)] assms(2)] by blast

text \<open>
  Remark: taking messages while the count is positive returns all of them, oldest first, and leaves none;
  taking one from an empty queue is undefined.
\<close>

theorem getMessage_drains:
  "(\<exists>q. pop_n getMessage (messagesCount p) p = Inr (m_messages p, q) \<and> messagesEmpty q)
   \<and> (getMessage p = Inl UndefinedBehaviour \<longleftrightarrow> messagesEmpty p)"
  using parsed.drain [of p] by (auto simp: messagesEmpty_def getMessage_def split: list.splits)

section \<open>Concrete lines\<close>

definition example_message :: irc_message where
  "example_message = \<lparr>servername = '''', user = ''~KolK2'', nick = ''KolK1'', host = ''example.com'',
     command = ''PRIVMSG'', params = [''#cmake'', ''testing message'']\<rparr>"

definition example_ping :: irc_message where
  "example_ping = IRCMessage ''PING'' [''irc.example.com'']"

lemma canonical_examples: "canonical example_message" "canonical example_ping"
  by code_simp+

lemma reach_example_CR: "m_state (parse new_IRCParser (''PING :a'' @ [CR])) = St_CR"
  by code_simp

theorem parse_toString_witness:
  "parse new_IRCParser (toString example_message False) = push_message example_message new_IRCParser"
  by (rule parse_toString [OF idle_new canonical_examples(1)])

theorem parse_message_stream_witness:
  "fold (\<lambda>ms q. parse q (concat (map (\<lambda>m. toString m False) ms)))
     [[example_message], [example_ping, example_message]] new_IRCParser =
   new_IRCParser\<lparr>m_messages := [example_message, example_ping, example_message]\<rparr>"
  using parse_message_stream [OF idle_new, of "[[example_message], [example_ping, example_message]]"]
    canonical_examples by (simp add: new_IRCParser_def)

theorem parse_cut_stream_witness:
  "fold (\<lambda>read q. parse q (concat read)) [[''''], [''PING ''], ['':'', ''a b'' @ [CR]], [[LF]]] new_IRCParser =
   new_IRCParser\<lparr>m_messages := [IRCMessage ''PING'' [''a b'']]\<rparr>"
proof -
  have "canonical (IRCMessage ''PING'' [''a b''])" by code_simp
  moreover have "concat [[''''], [''PING ''], ['':'', ''a b'' @ [CR]], [[LF]]] =
    concat (map line_pieces [IRCMessage ''PING'' [''a b'']])" by code_simp
  ultimately show ?thesis using parse_cut_stream [OF idle_new, of "[IRCMessage ''PING'' [''a b'']]" "[[''''], [''PING ''], ['':'', ''a b'' @ [CR]], [[LF]]]"]
    by (simp del: concat.simps) (simp add: new_IRCParser_def)
qed

theorem parse_inside_token_lost_witness:
  "parse (parse new_IRCParser '':Ko'') ''lK1'' = parse new_IRCParser '':Ko''"
proof (rule parse_inside_token_lost)
  have "m_state (parse new_IRCParser '':Ko'') = St_SERVERNAME_NICK" by code_simp
  then show "\<forall>x \<in> set ''lK1''. absorbs (m_state (parse new_IRCParser '':Ko'')) x" by simp
qed

theorem parse_split_nick_witness:
  "parse (parse new_IRCParser ('':'' @ ''Kol'')) (drop (Suc (length ''Kol'')) (toString example_message False)) =
   push_message (example_message\<lparr>nick := ''K1''\<rparr>) new_IRCParser"
  by (rule parse_split_nick [OF idle_new canonical_examples(1)]) (simp_all add: example_message_def)

theorem parse_parameterless_swallowed_witness:
  "parse new_IRCParser (''AWAY'' @ [CR, LF] @ toString example_ping False) =
   push_message (example_ping\<lparr>command := ''AWAY'' @ command example_ping\<rparr>) new_IRCParser"
  by (rule parse_parameterless_swallowed [OF idle_new canonical_examples(2)]) code_simp+

theorem parse_line_feed_delivers_witness:
  "parse (parse new_IRCParser (''PING :a'' @ [CR])) [LF] =
   (push_message (assemble (m_tokens (parse new_IRCParser (''PING :a'' @ [CR]))))
      (parse new_IRCParser (''PING :a'' @ [CR])))\<lparr>m_state := St_NONE, m_tokens := []\<rparr>"
  by (rule parse_line_feed_delivers [OF reach_parse [OF reach_new] reach_example_CR])

theorem parse_reachable_invariant_witness:
  "m_last_token (parse new_IRCParser '':a!b'') = Tok_LF
   \<and> m_message (parse new_IRCParser '':a!b'') = empty_message
   \<and> follows_all Tok_LF (map tok_type (m_tokens (parse new_IRCParser '':a!b'')))
   \<and> expects (m_state (parse new_IRCParser '':a!b'')) (last_queued (parse new_IRCParser '':a!b''))"
  by (rule parse_reachable_invariant [OF reach_parse [OF reach_new]])

theorem delivered_message_safe_witness:
  "message_ok example_message"
proof (rule delivered_message_safe)
  show "parser_reach (parse new_IRCParser (toString example_message False))"
    by (rule reach_parse [OF reach_new])
  show "getMessage (parse new_IRCParser (toString example_message False)) =
      Inr (example_message, new_IRCParser)"
    unfolding parse_def lexer_def lex_line [OF idle_new canonical_examples(1)]
    by (simp add: getMessage_def push_message_def new_IRCParser_def)
qed

end
