(* ===== verification/Bot_Core.thy ===== *)
theory Bot_Core
  imports Plugin_Base Irc_Parser
begin

text \<open>
  \<open>Core\<close> (include/ircbot/core.hpp, source/core.cpp): the connection to the IRC server, the plugins
  it passes messages to, and the life cycle \<open>run\<close>, \<open>stop\<close>, \<open>waitForStop\<close> that the main
  program drives. Sockets, the resolver, the dynamic loader and the acceptors are the parameters
  of \<open>env\<close>.
\<close>

section \<open>State\<close>

datatype run_result = RESULT_OK | RESULT_CONNECTION_ERROR | RESULT_ERROR

text \<open>The shared state of the promise; \<open>run\<close> replaces the promise by a fresh one.\<close>

datatype promise = Unset | Value run_result

text \<open>
  \<open>admin_port\<close> and \<open>tcp_plugin_server\<close> are null or an object whose acceptor is open or closed.
  \<open>receiving\<close>: a receive operation is pending on the socket. \<open>outgoing\<close> is what was passed to
  \<open>async_send\<close>.
\<close>

record ('n, 'x) core =
  core_cfg :: 'n
  socket_open :: bool
  receiving :: bool
  m_parser :: irc_parser
  admin_port :: "bool option"
  tcp_plugin_server :: "bool option"
  core_running :: bool
  m_result :: run_result
  m_stop_promise :: promise
  m_plugins :: "('n, 'x) plugin list"
  m_dl_plugins :: "string \<rightharpoonup> nat"
  outgoing :: "string list"

text \<open>
  The environment: whether a host resolves; whether the \<open>n\<close>-th connection attempt succeeds; the
  extension of a path; the handle of a shared library, and what its \<open>getPlugin\<close> returns (\<open>None\<close>
  when the symbol is missing); the exception thrown by \<open>cancel()\<close> on an acceptor that is open or
  closed; the exception thrown while a plugin server or an admin port is constructed; the uptime.
\<close>

record ('n, 'x) env =
  yaml_ops :: "'n yaml"
  resolves :: "string \<Rightarrow> 16 word \<Rightarrow> bool"
  attempt :: "nat \<Rightarrow> bool"
  extension :: "string \<Rightarrow> string"
  dlopen :: "string \<Rightarrow> nat option"
  getPlugin :: "nat \<Rightarrow> 'n plugin_config \<Rightarrow> ('n, 'x) plugin option"
  acceptor_cancel :: "bool \<Rightarrow> fault option"
  open_plugin_server :: "string \<Rightarrow> 16 word \<Rightarrow> fault option"
  open_admin_port :: "string \<Rightarrow> fault option"
  uptime_now :: int

definition raise :: "fault option \<Rightarrow> 'a \<Rightarrow> 'a result" where
  "raise f x = (case f of Some e \<Rightarrow> Inl e | None \<Rightarrow> Inr x)"

definition Core :: "'n \<Rightarrow> ('n, 'x) core" where
  "Core cfg = \<lparr>core_cfg = cfg, socket_open = False, receiving = False, m_parser = new_IRCParser,
     admin_port = None, tcp_plugin_server = None, core_running = False, m_result = RESULT_OK,
     m_stop_promise = Unset, m_plugins = [], m_dl_plugins = Map.empty, outgoing = []\<rparr>"

section \<open>Sending\<close>

definition send_text :: "string \<Rightarrow> ('n, 'x) core \<Rightarrow> ('n, 'x) core" where
  "send_text msg c = c\<lparr>outgoing := outgoing c @ [msg]\<rparr>"

definition send_message :: "irc_message \<Rightarrow> ('n, 'x) core \<Rightarrow> ('n, 'x) core" where
  "send_message msg c = send_text (toString msg False) c"

section \<open>The list of plugins\<close>

text \<open>Iterators are indices; \<open>end()\<close> is the length.\<close>

definition findPlugin :: "string \<Rightarrow> ('n, 'x) core \<Rightarrow> nat" where
  "findPlugin pluginId c = length (takeWhile (\<lambda>p. m_id p \<noteq> pluginId) (m_plugins c))"

definition addPlugin :: "('n, 'x) plugin \<Rightarrow> ('n, 'x) core \<Rightarrow> nat \<times> ('n, 'x) core" where
  "addPlugin p c = (length (m_plugins c), c\<lparr>m_plugins := m_plugins c @ [p]\<rparr>)"

text \<open>The destructor of a plugin whose thread is still joinable calls \<open>std::terminate\<close>.\<close>

definition destroy :: "('n, 'x) plugin \<Rightarrow> unit result" where
  "destroy p = (if m_thread p \<noteq> NoThread then Inl Terminate else Inr ())"

text \<open>
  \<open>removePlugin(it)\<close> logs \<open>(*it)->getId()\<close> before it compares \<open>it\<close> with \<open>end()\<close>, so its
  exception is never reached.
\<close>

definition removePluginAt :: "nat \<Rightarrow> ('n, 'x) core \<Rightarrow> ('n, 'x) core result" where
  "removePluginAt i c = bind_result (vec_at (m_plugins c) i) (\<lambda>p.
     if i = length (m_plugins c) then Inl (RuntimeError ''There is no such plugin!'')
     else bind_result (destroy p) (\<lambda>_.
       Inr (c\<lparr>m_plugins := take i (m_plugins c) @ drop (Suc i) (m_plugins c)\<rparr>)))"

definition removePlugin :: "string \<Rightarrow> ('n, 'x) core \<Rightarrow> ('n, 'x) core result" where
  "removePlugin pluginId c = (let i = findPlugin pluginId c in
     if i \<noteq> length (m_plugins c) then removePluginAt i c else Inr c)"

definition listPlugins :: "('n, 'x) core \<Rightarrow> string list" where
  "listPlugins c = map name_of (m_plugins c)"

definition authenticatePlugin :: "('n, 'x) env \<Rightarrow> string \<Rightarrow> ('n, 'x) core \<Rightarrow> bool result" where
  "authenticatePlugin env token c =
     bind_result (required (as_string (yaml_ops env) (at_key (yaml_ops env) (core_cfg c) ''plugin_token'')))
       (\<lambda>real_token. Inr (if real_token = '''' then False else real_token = token))"

text \<open>What a plugin's handler asked for.\<close>

fun perform :: "plugin_effect \<Rightarrow> ('n, 'x) core \<Rightarrow> ('n, 'x) core result" where
  "perform (Send msg) c = Inr (send_message msg c)"
| "perform (RemovePlugin pluginId) c = removePlugin pluginId c"

text \<open>
  Calling \<open>stop()\<close> on the plugin at an index, from code that goes on to use the iterator: when a
  handler has removed an element, the iterator and \<open>end()\<close> are invalid.
\<close>

definition stop_at :: "('n, 'x) env \<Rightarrow> nat \<Rightarrow> ('n, 'x) core \<Rightarrow> ('n, 'x) core result" where
  "stop_at env i c = bind_result (vec_at (m_plugins c) i) (\<lambda>p.
     case stop (uptime_now env) p of (q, es, f) \<Rightarrow>
       bind_result (fold_result perform es (c\<lparr>m_plugins := (m_plugins c)[i := q]\<rparr>)) (\<lambda>c'.
         case f of Some e \<Rightarrow> Inl e
         | None \<Rightarrow> if length (m_plugins c') \<noteq> length (m_plugins c) then Inl UndefinedBehaviour else Inr c'))"

definition spawn_at :: "nat \<Rightarrow> ('n, 'x) core \<Rightarrow> ('n, 'x) core result" where
  "spawn_at i c = bind_result (vec_at (m_plugins c) i) (\<lambda>p.
     bind_result (spawn p) (\<lambda>q. Inr (c\<lparr>m_plugins := (m_plugins c)[i := q]\<rparr>)))"

definition startPlugins :: "('n, 'x) core \<Rightarrow> ('n, 'x) core result" where
  "startPlugins c = fold_result spawn_at [0 ..< length (m_plugins c)] c"

definition stopPlugins :: "('n, 'x) env \<Rightarrow> ('n, 'x) core \<Rightarrow> ('n, 'x) core result" where
  "stopPlugins env c = fold_result (stop_at env) [0 ..< length (m_plugins c)] c"

definition deinitializePlugins :: "('n, 'x) core \<Rightarrow> ('n, 'x) core result" where
  "deinitializePlugins c =
     bind_result (fold_result (\<lambda>p _. destroy p) (m_plugins c) ()) (\<lambda>_. Inr (c\<lparr>m_plugins := []\<rparr>))"

section \<open>Loading\<close>

text \<open>\<open>m_dl_plugins[plugin->getId()] = pluginLibrary\<close>.\<close>

definition loadSoPlugin ::
  "('n, 'x) env \<Rightarrow> string \<Rightarrow> 'n plugin_config \<Rightarrow> ('n, 'x) core \<Rightarrow> ('n, 'x) plugin option \<times> ('n, 'x) core" where
  "loadSoPlugin env fname config c = (case dlopen env fname of
     None \<Rightarrow> (None, c)
   | Some lib \<Rightarrow> (case getPlugin env lib config of
       None \<Rightarrow> (None, c)
     | Some p \<Rightarrow> (Some p, c\<lparr>m_dl_plugins := (m_dl_plugins c)(m_id p \<mapsto> lib)\<rparr>)))"

text \<open>The result is the iterator and the core; nothing was loaded when the iterator is \<open>end()\<close>.\<close>

definition loadPluginWith ::
  "('n, 'x) env \<Rightarrow> string \<Rightarrow> 'n \<Rightarrow> ('n, 'x) core \<Rightarrow> (nat \<times> ('n, 'x) core) result" where
  "loadPluginWith env pluginId config c =
     bind_result (required (as_string (yaml_ops env) (at_key (yaml_ops env) config ''path''))) (\<lambda>path.
       let omitted = (length (m_plugins c), c); ext = extension env path in
       if path = '''' then Inr omitted
       else if ext = '''' then Inr omitted
       else if ext = ''.so'' then
         (case loadSoPlugin env path \<lparr>pc_id = pluginId, pc_config = config\<rparr> c of
            (None, c') \<Rightarrow> Inr (length (m_plugins c'), c')
          | (Some p, c') \<Rightarrow> Inr (addPlugin p c'))
       else Inr omitted)"

definition loadPlugin :: "('n, 'x) env \<Rightarrow> string \<Rightarrow> ('n, 'x) core \<Rightarrow> (nat \<times> ('n, 'x) core) result" where
  "loadPlugin env pluginId c = loadPluginWith env pluginId
     (at_key (yaml_ops env) (at_key (yaml_ops env) (core_cfg c) ''plugins'') pluginId) c"

text \<open>The body of the loop of \<open>initializePlugins\<close>, for one entry of the configuration.\<close>

definition load_entry :: "('n, 'x) env \<Rightarrow> 'n \<times> 'n \<Rightarrow> ('n, 'x) core \<Rightarrow> ('n, 'x) core result" where
  "load_entry env = (\<lambda>(k, v) c.
     bind_result (required (as_string (yaml_ops env) k)) (\<lambda>pluginId.
       bind_result (loadPluginWith env pluginId v c) (\<lambda>(_, c'). Inr c')))"

definition initializePlugins :: "('n, 'x) env \<Rightarrow> ('n, 'x) core \<Rightarrow> ('n, 'x) core result" where
  "initializePlugins env c = fold_result (load_entry env)
     (entries (yaml_ops env) (at_key (yaml_ops env) (core_cfg c) ''plugins'')) c"

definition restartPlugin :: "('n, 'x) env \<Rightarrow> string \<Rightarrow> ('n, 'x) core \<Rightarrow> ('n, 'x) core result" where
  "restartPlugin env pluginId c = (let i = findPlugin pluginId c in
     if i = length (m_plugins c) then Inr c
     else bind_result (stop_at env i c) (spawn_at i))"

text \<open>
  \<open>m_dl_plugins[pluginId]\<close> inserts a null pointer for an id without a library; a failing
  \<open>dlclose\<close> is only logged. The iterator that \<open>loadPlugin\<close> returns is dereferenced whether a plugin was loaded or
  not.
\<close>

definition reloadPlugin :: "('n, 'x) env \<Rightarrow> string \<Rightarrow> ('n, 'x) core \<Rightarrow> ('n, 'x) core result" where
  "reloadPlugin env pluginId c = (let i = findPlugin pluginId c in
     if i = length (m_plugins c) then Inr c
     else bind_result (stop_at env i c) (\<lambda>c1.
       let c2 = c1\<lparr>m_dl_plugins := (m_dl_plugins c1)(pluginId \<mapsto> (case m_dl_plugins c1 pluginId of Some l \<Rightarrow> l | None \<Rightarrow> 0))\<rparr>
       in bind_result (removePluginAt i c2) (\<lambda>c3.
         bind_result (loadPlugin env pluginId c3) (\<lambda>(j, c4). spawn_at j c4))))"

section \<open>Admin port and plugin server\<close>

definition startAdminPort :: "('n, 'x) env \<Rightarrow> ('n, 'x) core \<Rightarrow> ('n, 'x) core result" where
  "startAdminPort env c =
     (let y = yaml_ops env;
          path = with_default ''/var/run/ircbot_admin.sock''
            (as_string y (at_key y (at_key y (core_cfg c) ''admin_port'') ''path''))
      in if admin_port c \<noteq> None then Inr c
         else raise (open_admin_port env path) (c\<lparr>admin_port := Some True\<rparr>))"

text \<open>\<open>AdminPort::stop\<close> cancels and closes the acceptor; then the object is destroyed.\<close>

definition stopAdminPort :: "('n, 'x) env \<Rightarrow> ('n, 'x) core \<Rightarrow> ('n, 'x) core result" where
  "stopAdminPort env c = (case admin_port c of
     Some is_open \<Rightarrow> raise (acceptor_cancel env is_open) (c\<lparr>admin_port := None\<rparr>)
   | None \<Rightarrow> Inr c)"

definition startTcpPluginServer :: "('n, 'x) env \<Rightarrow> ('n, 'x) core \<Rightarrow> ('n, 'x) core result" where
  "startTcpPluginServer env c =
     (let y = yaml_ops env; cfg = at_key y (core_cfg c) ''tcp_plugin_server'';
          h = with_default ''localhost'' (as_string y (at_key y cfg ''host''));
          port = with_default 5454 (as_uint16 y (at_key y cfg ''port''))
      in if tcp_plugin_server c \<noteq> None then Inr c
         else raise (open_plugin_server env h port) (c\<lparr>tcp_plugin_server := Some True\<rparr>))"

text \<open>\<open>TcpPluginServer::stop\<close> cancels and closes the acceptor; the pointer is kept.\<close>

definition stopTcpPluginServer :: "('n, 'x) env \<Rightarrow> ('n, 'x) core \<Rightarrow> ('n, 'x) core result" where
  "stopTcpPluginServer env c = (case tcp_plugin_server c of
     None \<Rightarrow> Inr c
   | Some is_open \<Rightarrow> raise (acceptor_cancel env is_open) (c\<lparr>tcp_plugin_server := Some False\<rparr>))"


section \<open>Connecting\<close>

definition startAsyncReceive :: "('n, 'x) core \<Rightarrow> ('n, 'x) core" where
  "startAsyncReceive c = c\<lparr>receiving := True\<rparr>"

text \<open>The pending operation completes with \<open>operation_aborted\<close>.\<close>

definition stopAsyncReceive :: "('n, 'x) core \<Rightarrow> ('n, 'x) core" where
  "stopAsyncReceive c = c\<lparr>receiving := False\<rparr>"

definition disconnect :: "('n, 'x) core \<Rightarrow> ('n, 'x) core" where
  "disconnect c = c\<lparr>core_running := False, socket_open := False\<rparr>"

text \<open>The interval after a failed attempt, in \<open>uint32_t\<close>.\<close>

definition next_interval :: "32 word \<Rightarrow> 32 word \<Rightarrow> 32 word" where
  "next_interval maximum_interval interval =
     (let interval = interval * 2 in if interval < maximum_interval then interval else maximum_interval)"

text \<open>
  The loop around \<open>asio::connect\<close>, as the list of the pauses it made: \<open>None\<close> when it never ends.
  \<open>trials\<close> numbers the attempts.
\<close>

partial_function (option) connect_loop ::
  "(nat \<Rightarrow> bool) \<Rightarrow> 32 word \<Rightarrow> nat \<Rightarrow> 32 word \<Rightarrow> 32 word list \<Rightarrow> 32 word list option" where
  "connect_loop success maximum_interval trials interval pauses =
     (if \<not> success trials then
        connect_loop success maximum_interval (trials + 1) (next_interval maximum_interval interval)
          (pauses @ [interval])
      else Some pauses)"

text \<open>\<open>None\<close>: the loop never ends.\<close>

definition connect :: "('n, 'x) env \<Rightarrow> ('n, 'x) core \<Rightarrow> ('n, 'x) core result option" where
  "connect env c =
     (let y = yaml_ops env; entry = at_key y (core_cfg c) in
      case bind_result (required (as_string y (entry ''server''))) (\<lambda>h.
             bind_result (required (as_uint16 y (entry ''port''))) (\<lambda>port.
               if port = 0 \<or> h = '''' then Inl (RuntimeError ''Incorrect host or port!'')
               else if \<not> resolves env h port then Inl (RuntimeError ''Could not resolve address!'')
               else Inr ())) of
        Inl e \<Rightarrow> Some (Inl e)
      | Inr _ \<Rightarrow>
          (case connect_loop (attempt env)
                  (with_default 15000 (as_uint32 y (entry ''max-reconnect-interval''))) 0
                  (with_default 200 (as_uint32 y (entry ''reconnect-interval''))) [] of
             None \<Rightarrow> None
           | Some _ \<Rightarrow> Some (Inr (startAsyncReceive (c\<lparr>socket_open := True\<rparr>)))))"

section \<open>Stopping\<close>

definition set_value :: "run_result \<Rightarrow> ('n, 'x) core \<Rightarrow> ('n, 'x) core result" where
  "set_value r c = (case m_stop_promise c of
     Unset \<Rightarrow> Inr (c\<lparr>m_stop_promise := Value r\<rparr>)
   | Value _ \<Rightarrow> Inl FutureError)"

definition core_stop :: "('n, 'x) env \<Rightarrow> ('n, 'x) core \<Rightarrow> ('n, 'x) core result" where
  "core_stop env c =
     bind_result (stopPlugins env (disconnect (stopAsyncReceive c))) (\<lambda>c1.
     bind_result (stopTcpPluginServer env c1) (\<lambda>c2.
     bind_result (deinitializePlugins c2) (\<lambda>c3.
     bind_result (stopAdminPort env c3) (\<lambda>c4.
       set_value (m_result c4) c4))))"

text \<open>\<open>waitForStop\<close> blocks until the value is there.\<close>

definition waitForStop :: "('n, 'x) core \<Rightarrow> run_result result" where
  "waitForStop c = (case m_stop_promise c of Value r \<Rightarrow> Inr r | Unset \<Rightarrow> Inl BlockedForever)"

definition SIGINT :: int where "SIGINT = 2"
definition SIGTERM :: int where "SIGTERM = 15"

definition core_signal :: "('n, 'x) env \<Rightarrow> int \<Rightarrow> ('n, 'x) core \<Rightarrow> ('n, 'x) core result" where
  "core_signal env signum c = (if signum = SIGTERM \<or> signum = SIGINT then core_stop env c else Inr c)"

section \<open>Receiving\<close>

text \<open>Passing one message to one plugin: the pre-filter, then the plugin's filter.\<close>

definition offer :: "irc_message \<Rightarrow> nat \<Rightarrow> ('n, 'x) core \<Rightarrow> ('n, 'x) core result" where
  "offer msg i c = bind_result (vec_at (m_plugins c) i) (\<lambda>p.
     if \<not> preFilter msg p then Inr c
     else bind_result (filter_message (m_class p) msg (m_object p)) (\<lambda>passed.
       Inr (if passed then c\<lparr>m_plugins := (m_plugins c)[i := receive msg p]\<rparr> else c)))"

definition dispatch :: "irc_message \<Rightarrow> ('n, 'x) core \<Rightarrow> ('n, 'x) core result" where
  "dispatch msg c = fold_result (offer msg) [0 ..< length (m_plugins c)] c"

text \<open>
  \<open>while (m_parser.messagesCount() > 0)\<close>: every iteration takes one message, so the number of
  iterations is the count at the start.
\<close>

fun dispatch_messages :: "nat \<Rightarrow> ('n, 'x) core \<Rightarrow> ('n, 'x) core result" where
  "dispatch_messages 0 c = Inr c"
| "dispatch_messages (Suc n) c = bind_result (getMessage (m_parser c)) (\<lambda>(msg, parser).
     bind_result (dispatch msg (c\<lparr>m_parser := parser\<rparr>)) (dispatch_messages n))"

datatype receive_event = Received string | Aborted | Failed

text \<open>\<open>m_buffer\<close> is an array of 4096 characters; a longer count would be a read behind its end.\<close>

definition fits_buffer :: "string \<Rightarrow> bool" where
  "fits_buffer bytes \<longleftrightarrow> int (length bytes) \<le> 4096"

definition receive_handler :: "('n, 'x) env \<Rightarrow> receive_event \<Rightarrow> ('n, 'x) core \<Rightarrow> ('n, 'x) core result" where
  "receive_handler env ev c = (let c = c\<lparr>receiving := False\<rparr> in case ev of
     Failed \<Rightarrow> core_stop env (c\<lparr>m_result := RESULT_CONNECTION_ERROR\<rparr>)
   | Aborted \<Rightarrow> Inr c
   | Received bytes \<Rightarrow>
       if \<not> fits_buffer bytes then Inl UndefinedBehaviour
       else (let c = c\<lparr>m_parser := parse (m_parser c) bytes\<rparr>
        in bind_result (dispatch_messages (messagesCount (m_parser c)) c) (\<lambda>c'. Inr (startAsyncReceive c'))))"

section \<open>Running\<close>

definition core_run :: "('n, 'x) env \<Rightarrow> ('n, 'x) core \<Rightarrow> ('n, 'x) core result option" where
  "core_run env c = map_option (\<lambda>r. bind_result r (\<lambda>c1.
     bind_result (initializePlugins env c1) (\<lambda>c2.
     bind_result (startPlugins c2) (\<lambda>c3.
     bind_result (startTcpPluginServer env c3) (startAdminPort env)))))
     (connect env (c\<lparr>core_running := True, m_stop_promise := Unset\<rparr>))"

text \<open>
  A turn of a plugin's thread between two operations of the core: it takes a message, and the core
  performs what the handler asked for.
\<close>

definition plugin_turn :: "('n, 'x) env \<Rightarrow> nat \<Rightarrow> ('n, 'x) core \<Rightarrow> ('n, 'x) core result" where
  "plugin_turn env i c = bind_result (vec_at (m_plugins c) i) (\<lambda>p. bind_result (getCommand p) (\<lambda>(msg, q).
     case run_handler (uptime_now env) (process_message msg q) q of (r, es, f) \<Rightarrow>
       (case f of Some e \<Rightarrow> if catchable e then fold_result perform es (c\<lparr>m_plugins := (m_plugins c)[i := set_thread Finished r]\<rparr>)
                            else Inl e
        | None \<Rightarrow> fold_result perform es (c\<lparr>m_plugins := (m_plugins c)[i := r]\<rparr>))))"

section \<open>Lemmas: plugins' list\<close>

lemma findPlugin_le: "findPlugin pid c \<le> length (m_plugins c)"
  by (simp add: findPlugin_def length_takeWhile_le)

lemma findPlugin_found:
  "findPlugin pid c < length (m_plugins c) \<Longrightarrow> m_id (m_plugins c ! findPlugin pid c) = pid"
  unfolding findPlugin_def using nth_length_takeWhile by fastforce

lemma findPlugin_iff: "findPlugin pid c = length (m_plugins c) \<longleftrightarrow> pid \<notin> m_id ` set (m_plugins c)"
proof -
  have "length (takeWhile P xs) = length xs \<longleftrightarrow> (\<forall>x \<in> set xs. P x)" for P and xs :: "('n, 'x) plugin list"
    by (induction xs) auto
  then show ?thesis by (auto simp: findPlugin_def)
qed

lemma removePlugin_effect:
  assumes "removePlugin pid c = Inr c'"
  shows "m_plugins c' = (if pid \<in> m_id ` set (m_plugins c)
     then take (findPlugin pid c) (m_plugins c) @ drop (Suc (findPlugin pid c)) (m_plugins c) else m_plugins c)"
    and "length (m_plugins c') = length (m_plugins c) \<longleftrightarrow> pid \<notin> m_id ` set (m_plugins c)"
proof -
  have le: "findPlugin pid c \<le> length (m_plugins c)" by (rule findPlugin_le)
  show 1: "m_plugins c' = (if pid \<in> m_id ` set (m_plugins c)
     then take (findPlugin pid c) (m_plugins c) @ drop (Suc (findPlugin pid c)) (m_plugins c) else m_plugins c)"
    using assms findPlugin_iff [of pid c]
    by (auto simp: removePlugin_def removePluginAt_def Let_def bind_result_Inr_iff split: if_split_asm)
  show "length (m_plugins c') = length (m_plugins c) \<longleftrightarrow> pid \<notin> m_id ` set (m_plugins c)"
  proof (cases "pid \<in> m_id ` set (m_plugins c)")
    case True
    then have "findPlugin pid c < length (m_plugins c)"
      using findPlugin_iff [of pid c] le by fastforce
    with True show ?thesis unfolding 1 by simp
  qed (simp add: 1)
qed


section \<open>Lemmas: what the operations leave alone\<close>

definition control :: "('n, 'x) core \<Rightarrow> 'n \<times> bool \<times> bool \<times> bool \<times> run_result \<times> promise \<times> bool option \<times> bool option" where
  "control c = (core_cfg c, socket_open c, receiving c, core_running c, m_result c, m_stop_promise c,
     admin_port c, tcp_plugin_server c)"

named_theorems control_intros \<open>operations that keep the control state\<close>

lemma control_simps [simp]:
  "control (c\<lparr>m_plugins := ps\<rparr>) = control c" "control (c\<lparr>m_dl_plugins := d\<rparr>) = control c"
  "control (c\<lparr>outgoing := os\<rparr>) = control c" "control (c\<lparr>m_parser := q\<rparr>) = control c"
  by (simp_all add: control_def)

lemma control_send [simp]: "control (send_message msg c) = control c" "m_plugins (send_message msg c) = m_plugins c"
  by (simp_all add: send_message_def send_text_def)

lemma control_removePlugin: "removePlugin pid c = Inr c' \<Longrightarrow> control c' = control c"
  by (auto simp: removePlugin_def removePluginAt_def Let_def bind_result_Inr_iff split: if_split_asm)

lemma control_perform: "perform e c = Inr c' \<Longrightarrow> control c' = control c"
  by (cases e) (auto dest: control_removePlugin)

lemma control_fold:
  assumes "fold_result f xs c = Inr c'" and "\<And>x s t. f x s = Inr t \<Longrightarrow> control t = control s"
  shows "control c' = control c"
  using fold_result_invariant [OF assms(1), of "\<lambda>s. control s = control c"] assms(2) by metis

lemma control_perform_all: "fold_result perform es c = Inr c' \<Longrightarrow> control c' = control c"
  by (erule control_fold) (erule control_perform)

lemma stop_at_Inr:
  assumes "stop_at env i c = Inr c'"
  obtains p q es where "vec_at (m_plugins c) i = Inr p" "stop (uptime_now env) p = (q, es, None)"
    "fold_result perform es (c\<lparr>m_plugins := (m_plugins c)[i := q]\<rparr>) = Inr c'"
    "length (m_plugins c') = length (m_plugins c)"
proof -
  from assms obtain p where p: "vec_at (m_plugins c) i = Inr p" by (auto simp: stop_at_def bind_result_Inr_iff)
  obtain q es f where s: "stop (uptime_now env) p = (q, es, f)" by (cases "stop (uptime_now env) p") auto
  show thesis
    using assms p s by (intro that [OF p, of q es])
      (auto simp: stop_at_def bind_result_Inr_iff split: option.splits if_split_asm)
qed

lemma control_stop_at: "stop_at env i c = Inr c' \<Longrightarrow> control c' = control c"
  by (erule stop_at_Inr) (auto dest: control_perform_all)

lemma length_stop_at: "stop_at env i c = Inr c' \<Longrightarrow> length (m_plugins c') = length (m_plugins c)"
  by (erule stop_at_Inr)

lemma control_spawn_at: "spawn_at i c = Inr c' \<Longrightarrow> control c' = control c"
  by (auto simp: spawn_at_def bind_result_Inr_iff)

lemma control_stopPlugins: "stopPlugins env c = Inr c' \<Longrightarrow> control c' = control c"
  unfolding stopPlugins_def by (erule control_fold) (erule control_stop_at)

lemma control_startPlugins: "startPlugins c = Inr c' \<Longrightarrow> control c' = control c"
  unfolding startPlugins_def by (erule control_fold) (erule control_spawn_at)

lemma control_deinitialize: "deinitializePlugins c = Inr c' \<Longrightarrow> control c' = control c \<and> m_plugins c' = []"
  by (auto simp: deinitializePlugins_def bind_result_Inr_iff)

lemma control_loadSoPlugin: "loadSoPlugin env fname cfg c = (p, c') \<Longrightarrow> control c' = control c \<and> m_plugins c' = m_plugins c"
  by (auto simp: loadSoPlugin_def split: option.splits)

lemma control_loadPluginWith: "loadPluginWith env pid cfg c = Inr (i, c') \<Longrightarrow> control c' = control c"
  by (auto simp: loadPluginWith_def Let_def bind_result_Inr_iff addPlugin_def
      split: if_split_asm prod.splits option.splits dest: control_loadSoPlugin)

lemma control_load_entry: "load_entry env e c = Inr c' \<Longrightarrow> control c' = control c"
  by (auto simp: load_entry_def bind_result_Inr_iff split: prod.splits dest: control_loadPluginWith)

lemma control_initializePlugins: "initializePlugins env c = Inr c' \<Longrightarrow> control c' = control c"
  unfolding initializePlugins_def
  by (erule control_fold) (rule control_load_entry)

lemma control_restartPlugin: "restartPlugin env pid c = Inr c' \<Longrightarrow> control c' = control c"
  by (auto simp: restartPlugin_def Let_def bind_result_Inr_iff split: if_split_asm
      dest!: control_stop_at control_spawn_at)

lemma control_removePluginAt: "removePluginAt i c = Inr c' \<Longrightarrow> control c' = control c"
  by (auto simp: removePluginAt_def bind_result_Inr_iff split: if_split_asm)

lemma control_reloadPlugin: "reloadPlugin env pid c = Inr c' \<Longrightarrow> control c' = control c"
  by (auto simp: reloadPlugin_def loadPlugin_def Let_def bind_result_Inr_iff split: if_split_asm
      dest!: control_stop_at control_spawn_at control_removePluginAt control_loadPluginWith)

lemma control_offer: "offer msg i c = Inr c' \<Longrightarrow> control c' = control c"
  by (auto simp: offer_def bind_result_Inr_iff split: if_split_asm)

lemma control_dispatch: "dispatch msg c = Inr c' \<Longrightarrow> control c' = control c"
  unfolding dispatch_def by (erule control_fold) (erule control_offer)

lemma control_dispatch_messages: "dispatch_messages n c = Inr c' \<Longrightarrow> control c' = control c"
  by (induction n arbitrary: c) (auto simp: bind_result_Inr_iff dest: control_dispatch)

lemma control_plugin_turn:
  assumes "plugin_turn env i c = Inr c'" shows "control c' = control c"
proof -
  from assms obtain p msg q where pq: "vec_at (m_plugins c) i = Inr p" "getCommand p = Inr (msg, q)"
    by (auto simp: plugin_turn_def bind_result_Inr_iff)
  obtain r es f where "run_handler (uptime_now env) (process_message msg q) q = (r, es, f)"
    by (cases "run_handler (uptime_now env) (process_message msg q) q") auto
  with assms pq show ?thesis
    by (auto simp: plugin_turn_def split: option.splits if_split_asm dest: control_perform_all)
qed

text \<open>The two servers and the result, through \<open>stop\<close> and \<open>run\<close>.\<close>

lemma raise_Inr_iff [simp]: "raise f x = Inr y \<longleftrightarrow> f = None \<and> x = y"
  by (auto simp: raise_def split: option.splits)

lemma stopTcpPluginServer_Inr:
  "stopTcpPluginServer env c = Inr c' \<longleftrightarrow>
     (case tcp_plugin_server c of None \<Rightarrow> c' = c
      | Some b \<Rightarrow> acceptor_cancel env b = None \<and> c' = c\<lparr>tcp_plugin_server := Some False\<rparr>)"
  by (auto simp: stopTcpPluginServer_def split: option.splits)

lemma stopAdminPort_Inr:
  "stopAdminPort env c = Inr c' \<longleftrightarrow>
     (case admin_port c of None \<Rightarrow> c' = c
      | Some b \<Rightarrow> acceptor_cancel env b = None \<and> c' = c\<lparr>admin_port := None\<rparr>)"
  by (auto simp: stopAdminPort_def split: option.splits)

lemma core_stop_result:
  assumes "core_stop env c = Inr c'"
  shows "m_plugins c' = []" "\<not> socket_open c'" "\<not> receiving c'" "\<not> core_running c'"
    "admin_port c' = None" "m_result c' = m_result c" "m_stop_promise c' = Value (m_result c)"
    "m_stop_promise c = Unset" "tcp_plugin_server c' = map_option (\<lambda>_. False) (tcp_plugin_server c)"
    "\<And>b. tcp_plugin_server c = Some b \<Longrightarrow> acceptor_cancel env b = None"
proof -
  let ?c0 = "disconnect (stopAsyncReceive c)"
  obtain c1 c2 c3 c4 where s: "stopPlugins env ?c0 = Inr c1" "stopTcpPluginServer env c1 = Inr c2"
    "deinitializePlugins c2 = Inr c3" "stopAdminPort env c3 = Inr c4" "set_value (m_result c4) c4 = Inr c'"
    using assms by (auto simp: core_stop_def bind_result_Inr_iff)
  have c1: "control c1 = control ?c0" using s(1) by (rule control_stopPlugins)
  have c3: "control c3 = control c2 \<and> m_plugins c3 = []" using s(3) by (rule control_deinitialize)
  have c': "m_stop_promise c4 = Unset" "c' = c4\<lparr>m_stop_promise := Value (m_result c4)\<rparr>"
    using s(5) by (auto simp: set_value_def split: promise.splits)
  note all = c1 c3 c' s(2,4)
  show "m_plugins c' = []" "\<not> socket_open c'" "\<not> receiving c'" "\<not> core_running c'"
    "admin_port c' = None" "m_result c' = m_result c" "m_stop_promise c' = Value (m_result c)"
    "m_stop_promise c = Unset" "tcp_plugin_server c' = map_option (\<lambda>_. False) (tcp_plugin_server c)"
    using all
    by (auto simp: control_def disconnect_def stopAsyncReceive_def stopTcpPluginServer_Inr stopAdminPort_Inr
        split: option.splits)
  show "acceptor_cancel env b = None" if "tcp_plugin_server c = Some b" for b
    using all that
    by (auto simp: control_def disconnect_def stopAsyncReceive_def stopTcpPluginServer_Inr split: option.splits)
qed

lemma core_run_result:
  assumes "core_run env c = Some (Inr c')"
  shows "m_result c' = m_result c" "m_stop_promise c' = Unset" "admin_port c' \<noteq> None"
    "tcp_plugin_server c' = (if tcp_plugin_server c = None then Some True else tcp_plugin_server c)"
    "core_running c'" "socket_open c'" "receiving c'"
proof -
  let ?c0 = "c\<lparr>core_running := True, m_stop_promise := Unset\<rparr>"
  obtain c1 c2 c3 c4 where r: "connect env ?c0 = Some (Inr c1)" "initializePlugins env c1 = Inr c2"
    "startPlugins c2 = Inr c3" "startTcpPluginServer env c3 = Inr c4" "startAdminPort env c4 = Inr c'"
    using assms by (auto simp: core_run_def bind_result_Inr_iff)
  have c1: "c1 = startAsyncReceive (?c0\<lparr>socket_open := True\<rparr>)"
    using r(1) by (auto simp: connect_def Let_def split: sum.splits option.splits)
  have c3: "control c3 = control c1"
    using control_startPlugins [OF r(3)] control_initializePlugins [OF r(2)] by simp
  show "m_result c' = m_result c" "m_stop_promise c' = Unset" "admin_port c' \<noteq> None"
    "tcp_plugin_server c' = (if tcp_plugin_server c = None then Some True else tcp_plugin_server c)"
    "core_running c'" "socket_open c'" "receiving c'"
    using c3 r(4,5) unfolding c1
    by (auto simp: control_def startAsyncReceive_def startTcpPluginServer_def startAdminPort_def Let_def
        split: if_split_asm)
qed


section \<open>Lemmas: dispatching\<close>

definition accepts :: "irc_message \<Rightarrow> ('n, 'x) plugin \<Rightarrow> bool" where
  "accepts msg p \<longleftrightarrow> preFilter msg p \<and> filter_message (m_class p) msg (m_object p) = Inr True"

definition deliver :: "irc_message \<Rightarrow> ('n, 'x) plugin \<Rightarrow> ('n, 'x) plugin" where
  "deliver msg p = (if accepts msg p then receive msg p else p)"

lemma offer_Inr:
  assumes "offer msg i c = Inr c'" and "i < length (m_plugins c)"
  shows "c' = c\<lparr>m_plugins := (m_plugins c)[i := deliver msg (m_plugins c ! i)]\<rparr>"
  using assms
  by (auto simp: offer_def vec_at_def deliver_def accepts_def bind_result_Inr_iff split: if_split_asm)

lemma offers_Inr:
  assumes "n \<le> length (m_plugins c)" and "fold_result (offer msg) [0 ..< n] c = Inr c'"
  shows "c' = c\<lparr>m_plugins := map (deliver msg) (take n (m_plugins c)) @ drop n (m_plugins c)\<rparr>"
  using assms
proof (induction n arbitrary: c')
  case 0
  then show ?case by simp
next
  case (Suc n)
  from Suc.prems(2) obtain d where d: "fold_result (offer msg) [0 ..< n] c = Inr d" "offer msg n d = Inr c'"
    by (auto simp: fold_result_append bind_result_Inr_iff)
  from Suc d have d1: "d = c\<lparr>m_plugins := map (deliver msg) (take n (m_plugins c)) @ drop n (m_plugins c)\<rparr>"
    by simp
  from Suc.prems(1) have "n < length (m_plugins c)" by simp
  then have "drop n (m_plugins c) = m_plugins c ! n # drop (Suc n) (m_plugins c)"
    by (simp add: Cons_nth_drop_Suc)
  with offer_Inr [OF d(2)] Suc.prems(1) show ?case
    unfolding d1 by (simp add: nth_append list_update_append take_Suc_conv_app_nth min_def)
qed

lemma dispatch_Inr:
  "dispatch msg c = Inr c' \<Longrightarrow> c' = c\<lparr>m_plugins := map (deliver msg) (m_plugins c)\<rparr>"
  unfolding dispatch_def using offers_Inr [of "length (m_plugins c)" c msg c'] by simp

lemma accepts_receive [simp]: "accepts m (receive n p) = accepts m p"
  by (simp add: receive_def accepts_def preFilter_def isCommand_def)

lemma accepts_deliver [simp]: "accepts m (deliver n p) = accepts m p"
  by (simp add: deliver_def)

lemma deliver_all:
  "m_incoming (fold deliver ms p) = m_incoming p @ filter (\<lambda>m. accepts m p) ms"
proof (induction ms arbitrary: p)
  case (Cons m ms)
  then show ?case by (simp add: deliver_def [of m])
qed simp

lemma deliver_frame [simp]: "m_id (deliver m p) = m_id p" "m_thread (deliver m p) = m_thread p"
  "m_object (deliver m p) = m_object p"
  by (simp_all add: deliver_def receive_def)

lemma dispatch_messages_Inr:
  "dispatch_messages n c = Inr c' \<Longrightarrow> n = messagesCount (m_parser c) \<Longrightarrow>
   m_plugins c' = map (fold deliver (m_messages (m_parser c))) (m_plugins c) \<and>
   m_parser c' = (m_parser c)\<lparr>m_messages := []\<rparr>"
proof (induction n arbitrary: c)
  case 0
  then have "m_messages (m_parser c) = []" by (simp add: messagesCount_def)
  with 0 show ?case by (cases "m_parser c") simp
next
  case (Suc n)
  then obtain m ms where ms: "m_messages (m_parser c) = m # ms" "length ms = n"
    by (cases "m_messages (m_parser c)") (auto simp: messagesCount_def)
  let ?q = "(m_parser c)\<lparr>m_messages := ms\<rparr>"
  have get: "getMessage (m_parser c) = Inr (m, ?q)" using ms by (simp add: getMessage_def)
  with Suc.prems(1) obtain d where d: "dispatch m (c\<lparr>m_parser := ?q\<rparr>) = Inr d" "dispatch_messages n d = Inr c'"
    by (auto simp: bind_result_Inr_iff)
  have "d = c\<lparr>m_parser := ?q, m_plugins := map (deliver m) (m_plugins c)\<rparr>"
    using dispatch_Inr [OF d(1)] by simp
  with Suc.IH [OF d(2)] ms show ?case by (simp add: messagesCount_def)
qed

section \<open>Lemmas: connecting\<close>

lemma connect_loop_success:
  "success (n + k) \<Longrightarrow> \<forall>j<k. \<not> success (n + j) \<Longrightarrow>
   connect_loop success mx n i ps = Some (ps @ map (\<lambda>j. (next_interval mx ^^ j) i) [0 ..< k])"
proof (induction k arbitrary: n i ps)
  case 0
  then show ?case by (simp add: connect_loop.simps [of success mx n])
next
  case (Suc k)
  have "\<not> success n" using Suc.prems(2) by force
  then have "connect_loop success mx n i ps = connect_loop success mx (Suc n) (next_interval mx i) (ps @ [i])"
    by (simp add: connect_loop.simps [of success mx n])
  moreover have "\<forall>j<k. \<not> success (Suc n + j)" using Suc.prems(2) by auto
  ultimately have "connect_loop success mx n i ps =
      Some (ps @ i # map (\<lambda>j. (next_interval mx ^^ j) (next_interval mx i)) [0 ..< k])"
    using Suc.IH [of "Suc n"] Suc.prems(1) by simp
  moreover have "map (\<lambda>j. (next_interval mx ^^ j) i) [0 ..< Suc k] =
      i # map (\<lambda>j. (next_interval mx ^^ j) (next_interval mx i)) [0 ..< k]"
    by (simp add: upt_conv_Cons map_Suc_upt [symmetric] funpow_swap1 del: upt_Suc)
  ultimately show ?case by simp
qed

lemma connect_loop_returns:
  assumes "connect_loop success mx n i ps = Some r" shows "\<exists>k\<ge>n. success k"
  by (rule connect_loop.raw_induct [OF _ assms, where P = "\<lambda>success _ n _ _ _. \<exists>k\<ge>n. success k"])
     (metis Suc_eq_plus1 Suc_leD order_refl)

lemma next_interval_bounded:
  assumes "unat i < 2 ^ 31"
  shows "unat (next_interval mx i) = min (unat i * 2) (unat mx)"
proof -
  have "unat (i * 2) = unat i * 2" using assms by (subst unat_word_ariths) simp
  then show ?thesis by (auto simp: next_interval_def Let_def word_less_nat_alt)
qed

lemma next_interval_iter:
  assumes "unat i < 2 ^ 31" and "unat mx < 2 ^ 31"
  shows "unat ((next_interval mx ^^ j) i) = (if j = 0 then unat i else min (unat i * 2 ^ j) (unat mx))"
proof (induction j)
  case (Suc j)
  have "unat ((next_interval mx ^^ j) i) < 2 ^ 31" using Suc assms by (auto simp: min_less_iff_disj)
  from next_interval_bounded [OF this, of mx] Suc show ?case by (auto simp: min_def)
qed simp

lemma next_interval_maximal: "next_interval (- 1) i = i * 2"
proof -
  have "i * 2 \<le> - 1" by simp
  then show ?thesis by (auto simp: next_interval_def Let_def word_le_less_eq)
qed

lemma next_interval_wraps: "(next_interval (- 1) ^^ j) i = i * 2 ^ j"
  by (induction j) (simp_all add: next_interval_maximal)

lemma wrapped_zero: "32 \<le> j \<Longrightarrow> (i :: 32 word) * 2 ^ j = 0"
proof -
  assume "32 \<le> j"
  then obtain k where "j = 32 + k" using le_Suc_ex by blast
  moreover have "(2 :: 32 word) ^ 32 = 0" by simp
  ultimately show ?thesis by (simp only: power_add mult_zero_left mult_zero_right)
qed


section \<open>The operations as a step relation\<close>

text \<open>What other threads do to the core between \<open>run\<close> and the next \<open>run\<close>.\<close>

inductive core_event :: "('n, 'x) env \<Rightarrow> ('n, 'x) core \<Rightarrow> ('n, 'x) core \<Rightarrow> bool" for env where
  ce_receive: "receiving c \<Longrightarrow> receive_handler env ev c = Inr c' \<Longrightarrow> core_event env c c'"
| ce_stop: "core_stop env c = Inr c' \<Longrightarrow> core_event env c c'"
| ce_signal: "core_signal env n c = Inr c' \<Longrightarrow> core_event env c c'"
| ce_restart: "restartPlugin env pid c = Inr c' \<Longrightarrow> core_event env c c'"
| ce_reload: "reloadPlugin env pid c = Inr c' \<Longrightarrow> core_event env c c'"
| ce_add: "addPlugin p c = (i, c') \<Longrightarrow> core_event env c c'"
| ce_turn: "plugin_turn env i c = Inr c' \<Longrightarrow> core_event env c c'"

inductive core_step :: "('n, 'x) env \<Rightarrow> ('n, 'x) core \<Rightarrow> ('n, 'x) core \<Rightarrow> bool" for env where
  cs_run: "core_run env c = Some (Inr c') \<Longrightarrow> core_step env c c'"
| cs_event: "core_event env c c' \<Longrightarrow> core_step env c c'"

lemma receive_handler_Received:
  assumes "receive_handler env (Received bytes) c = Inr c'"
  shows "\<exists>d. dispatch_messages (messagesCount (parse (m_parser c) bytes))
      (c\<lparr>receiving := False, m_parser := parse (m_parser c) bytes\<rparr>) = Inr d \<and> c' = d\<lparr>receiving := True\<rparr>"
  using assms by (auto simp: receive_handler_def Let_def bind_result_Inr_iff startAsyncReceive_def split: if_split_asm)

lemma m_result_of_control: "control c' = control c \<Longrightarrow> m_result c' = m_result c"
  by (simp add: control_def)

lemma m_result_receive:
  assumes "receive_handler env ev c = Inr c'"
  shows "m_result c' = (if ev = Failed then RESULT_CONNECTION_ERROR else m_result c)"
proof (cases ev)
  case (Received bytes)
  from receive_handler_Received [OF assms [unfolded Received]] obtain d where
    d: "dispatch_messages (messagesCount (parse (m_parser c) bytes))
      (c\<lparr>receiving := False, m_parser := parse (m_parser c) bytes\<rparr>) = Inr d" "c' = d\<lparr>receiving := True\<rparr>" by blast
  from control_dispatch_messages [OF d(1)] have "m_result d = m_result c" by (simp add: control_def)
  with d(2) Received show ?thesis by simp
next
  case Failed
  with assms have "core_stop env (c\<lparr>receiving := False, m_result := RESULT_CONNECTION_ERROR\<rparr>) = Inr c'"
    by (simp add: receive_handler_def Let_def)
  from core_stop_result(6) [OF this] Failed show ?thesis by simp
next
  case Aborted
  with assms show ?thesis by (auto simp: receive_handler_def Let_def)
qed

lemma control_of_event:
  assumes "core_event env c c'"
  shows "control c' = control c \<or> core_stop env c = Inr c' \<or> (\<exists>ev. receive_handler env ev c = Inr c')"
  using assms
  by (cases rule: core_event.cases)
    (auto simp: core_signal_def addPlugin_def split: if_split_asm
      dest: control_restartPlugin control_reloadPlugin control_plugin_turn)

lemma m_result_event:
  "core_event env c c' \<Longrightarrow> m_result c' = m_result c \<or> m_result c' = RESULT_CONNECTION_ERROR"
  using control_of_event [of env c c']
  by (auto dest: core_stop_result(6) m_result_of_control m_result_receive split: if_split_asm)

lemma m_result_step:
  "core_step env c c' \<Longrightarrow> m_result c' = m_result c \<or> m_result c' = RESULT_CONNECTION_ERROR"
  by (cases rule: core_step.cases) (auto dest: core_run_result(1) m_result_event)

lemma m_result_steps:
  "(core_step env)\<^sup>*\<^sup>* c c' \<Longrightarrow> m_result c = RESULT_CONNECTION_ERROR \<Longrightarrow> m_result c' = RESULT_CONNECTION_ERROR"
  by (induction rule: rtranclp_induct) (auto dest: m_result_step)

lemma core_stop_Value: "m_stop_promise c = Value r \<Longrightarrow> \<exists>e. core_stop env c = Inl e"
  using core_stop_result(8) [of env c] by (cases "core_stop env c") auto

lemma core_stop_closed_server:
  "tcp_plugin_server c = Some False \<Longrightarrow> acceptor_cancel env False \<noteq> None \<Longrightarrow> \<exists>e. core_stop env c = Inl e"
  using core_stop_result(10) [of env c] by (cases "core_stop env c") auto

lemma deliver_all_frame:
  "m_class (fold deliver ms p) = m_class p \<and> m_object (fold deliver ms p) = m_object p \<and>
   m_command_parser (fold deliver ms p) = m_command_parser p"
  by (induction ms arbitrary: p) (simp_all add: deliver_def receive_def)

text \<open>What a received stream of whole canonical messages does to the plugins.\<close>

lemma stream_to_plugins:
  assumes "idle (m_parser c)" and "m_messages (m_parser c) = []" and "\<forall>m \<in> set ms. canonical m"
    and "receive_handler env (Received (concat (map (\<lambda>m. toString m False) ms))) c = Inr c'"
  shows "m_plugins c' = map (fold deliver ms) (m_plugins c)" and "m_parser c' = m_parser c"
proof -
  let ?bytes = "concat (map (\<lambda>m. toString m False) ms)"
  have p: "parse (m_parser c) ?bytes = (m_parser c)\<lparr>m_messages := ms\<rparr>"
    using parse_lines [OF assms(1,3)] assms(2) by simp
  from receive_handler_Received [OF assms(4)] obtain d where
    d: "dispatch_messages (messagesCount (parse (m_parser c) ?bytes))
      (c\<lparr>receiving := False, m_parser := parse (m_parser c) ?bytes\<rparr>) = Inr d" "c' = d\<lparr>receiving := True\<rparr>" by blast
  from dispatch_messages_Inr [OF d(1)] d(2) p assms(2)
  show "m_plugins c' = map (fold deliver ms) (m_plugins c)" "m_parser c' = m_parser c" by simp_all
qed

lemma loadPlugin_so:
  assumes "as_string (yaml_ops env) (at_key (yaml_ops env) (at_key (yaml_ops env)
      (at_key (yaml_ops env) (core_cfg c) ''plugins'') pid) ''path'') = Some path"
    and "path \<noteq> ''''" and "extension env path = ''.so''" and "dlopen env path = Some lib"
    and "\<And>cfg. getPlugin env lib cfg = Some (Plugin K obj cfg)"
  shows "\<exists>cfg. pc_id cfg = pid \<and> loadPlugin env pid c = Inr (length (m_plugins c),
    c\<lparr>m_dl_plugins := (m_dl_plugins c)(pid \<mapsto> lib), m_plugins := m_plugins c @ [Plugin K obj cfg]\<rparr>)"
  using assms
  by (intro exI [of _ "\<lparr>pc_id = pid, pc_config = at_key (yaml_ops env) (at_key (yaml_ops env) (core_cfg c) ''plugins'') pid\<rparr>"])
    (simp add: loadPlugin_def loadPluginWith_def loadSoPlugin_def addPlugin_def Let_def Plugin_def)

lemma load_entry_so:
  assumes "as_string (yaml_ops env) k = Some pid" and "as_string (yaml_ops env) (at_key (yaml_ops env) v ''path'') = Some path"
    and "path \<noteq> ''''" and "extension env path = ''.so''" and "dlopen env path = Some lib"
    and "getPlugin env lib \<lparr>pc_id = pid, pc_config = v\<rparr> = Some p"
  shows "load_entry env (k, v) c = Inr (c\<lparr>m_dl_plugins := (m_dl_plugins c)(m_id p \<mapsto> lib), m_plugins := m_plugins c @ [p]\<rparr>)"
  using assms by (simp add: load_entry_def required_def loadPluginWith_def loadSoPlugin_def addPlugin_def Let_def)

lemma new_plugin_simps [simp]:
  "m_id (Plugin K obj cfg) = pc_id cfg" "m_class (Plugin K obj cfg) = K" "m_object (Plugin K obj cfg) = obj"
  "m_incoming (Plugin K obj cfg) = []" "m_running (Plugin K obj cfg)" "m_thread (Plugin K obj cfg) = NoThread"
  by (simp_all add: Plugin_def)

lemma spawn_at_last:
  "m_plugins d = ps @ [p] \<Longrightarrow> m_thread p = NoThread \<Longrightarrow>
   spawn_at (length ps) d = Inr (d\<lparr>m_plugins := ps @ [p\<lparr>m_running := True, m_thread := Starting\<rparr>]\<rparr>)"
  by (simp add: spawn_at_def vec_at_def spawn_def)

section \<open>Properties\<close>

text \<open>
  C21: when the core has handled received bytes, every plugin has in its mailbox, after what was
  there, exactly the parsed messages that its pre-filter and filter accept, in the order of
  arrival; no message is left in the parser, the plugins are otherwise unchanged, and the next
  receive is under way.
\<close>

theorem received_messages_delivered:
  assumes "receive_handler env (Received bytes) c = Inr c'" and "i < length (m_plugins c)"
  shows "length (m_plugins c') = length (m_plugins c) \<and>
    m_incoming (m_plugins c' ! i) = m_incoming (m_plugins c ! i) @
      filter (\<lambda>m. accepts m (m_plugins c ! i)) (m_messages (parse (m_parser c) bytes)) \<and>
    m_parser c' = (parse (m_parser c) bytes)\<lparr>m_messages := []\<rparr> \<and> receiving c'"
proof -
  from receive_handler_Received [OF assms(1)] obtain d where
    d: "dispatch_messages (messagesCount (parse (m_parser c) bytes))
      (c\<lparr>receiving := False, m_parser := parse (m_parser c) bytes\<rparr>) = Inr d" "c' = d\<lparr>receiving := True\<rparr>" by blast
  from dispatch_messages_Inr [OF d(1)] d(2) assms(2) show ?thesis
    by (simp add: deliver_all)
qed

text \<open>
  C37: connecting ends exactly if some attempt succeeds, after the pauses of the attempts before the
  first success: the configured interval, then each time the doubled one up to the maximum.
\<close>

theorem connect_loop_spec:
  "connect_loop success maximum 0 interval [] =
    (if \<exists>k. success k
     then Some (map (\<lambda>j. (next_interval maximum ^^ j) interval) [0 ..< (LEAST k. success k)])
     else None)"
proof (cases "\<exists>k. success k")
  case True
  then have "success (LEAST k. success k)" by (rule LeastI_ex)
  moreover have "\<forall>j < (LEAST k. success k). \<not> success j" using not_less_Least by blast
  ultimately have "connect_loop success maximum 0 interval [] =
      Some (map (\<lambda>j. (next_interval maximum ^^ j) interval) [0 ..< (LEAST k. success k)])"
    using connect_loop_success [of success 0 "LEAST k. success k" maximum interval "[]"]
    by (simp only: add_0 append_Nil)
  then show ?thesis by (simp only: if_P [OF True])
next
  case False
  then show ?thesis using connect_loop_returns [of success maximum 0 interval "[]"] by fastforce
qed

text \<open>
  C38: with an interval and a maximum below \<open>2 ^ 31\<close> milliseconds no doubling overflows: the
  \<open>j\<close>-th pause is the interval times \<open>2 ^ j\<close>, capped at the maximum from the second pause on.
\<close>

theorem connect_pause_bounds:
  assumes "unat interval < 2 ^ 31" and "unat maximum < 2 ^ 31"
  shows "unat ((next_interval maximum ^^ j) interval) =
    (if j = 0 then unat interval else min (unat interval * 2 ^ j) (unat maximum))"
  by (rule next_interval_iter [OF assms])

text \<open>
  Remark: with the largest maximum the interval wraps: from the 33rd pause on there is no pause at
  all, and the loop hammers the server.
\<close>

theorem connect_pause_wraps:
  assumes "connect_loop success (- 1) 0 interval [] = Some pauses"
  shows "\<forall>p \<in> set (drop 32 pauses). p = 0"
proof -
  let ?k = "LEAST k. success k"
  obtain k where "success k" using connect_loop_returns [OF assms] by blast
  then have "success ?k" by (rule LeastI)
  moreover have "\<forall>j < ?k. \<not> success j" using not_less_Least by blast
  ultimately have "pauses = map (\<lambda>j. (next_interval (- 1) ^^ j) interval) [0 ..< ?k]"
    using connect_loop_success [of success 0 ?k "- 1" interval "[]"] assms
    by (simp only: add_0 append_Nil option.inject)
  then have "drop 32 pauses = map (\<lambda>j. interval * 2 ^ j) [32 ..< ?k]"
    by (simp only: drop_map drop_upt add_0 next_interval_wraps)
  moreover have "interval * 2 ^ j = 0" if "j \<in> set [32 ..< ?k]" for j
    using that by (intro wrapped_zero) simp
  ultimately show ?thesis by (simp only: set_map ball_simps) blast
qed

text \<open>
  Remark: a stop that returns has closed the connection and the admin port, removed all plugins and
  handed the result to \<open>waitForStop\<close>.
\<close>

theorem core_stop_postcondition:
  assumes "core_stop env c = Inr c'"
  shows "m_plugins c' = [] \<and> \<not> socket_open c' \<and> \<not> receiving c' \<and> \<not> core_running c' \<and>
    admin_port c' = None \<and> waitForStop c' = Inr (m_result c)"
  using core_stop_result [OF assms] by (simp add: waitForStop_def)

text \<open>
  Remark: a second stop never returns normally: whatever happened to plugins and servers in between,
  the promise is already satisfied (a second signal, or a shutdown command after a connection
  error, ends the process by an exception).
\<close>

theorem core_stop_twice_fails:
  assumes "core_stop env c = Inr c1" and "m_stop_promise c2 = m_stop_promise c1"
  shows "\<exists>e. core_stop env c2 = Inl e"
  using core_stop_result(7) [OF assms(1)] assms(2) core_stop_Value by metis

text \<open>
  Remark: the plugin server is closed by a stop but its pointer is kept, so \<open>run\<close> does not start
  another one. After the restart no plugin can connect, and the next stop throws, because it
  cancels an acceptor that is closed.
\<close>

theorem restarted_core_cannot_stop:
  assumes "acceptor_cancel env False = Some e" and "tcp_plugin_server c \<noteq> None"
    and "core_stop env c = Inr c1" and "core_run env c1 = Some (Inr c2)"
  shows "tcp_plugin_server c2 = Some False \<and> (\<exists>f. core_stop env c2 = Inl f)"
proof -
  have "tcp_plugin_server c1 = Some False" using core_stop_result(9) [OF assms(3)] assms(2) by auto
  then have "tcp_plugin_server c2 = Some False" using core_run_result(4) [OF assms(4)] by simp
  with core_stop_closed_server assms(1) show ?thesis by fastforce
qed

text \<open>
  Remark: once a receive has failed, every later result is a connection error: no sequence of runs,
  messages, commands and stops makes \<open>waitForStop\<close> return \<open>OK\<close> again, not even a stop that a user
  or a signal asked for.
\<close>

theorem connection_error_sticky:
  assumes "receive_handler env Failed c = Inr c1" and "(core_step env)\<^sup>*\<^sup>* c1 c2"
    and "core_stop env c2 = Inr c3"
  shows "waitForStop c3 = Inr RESULT_CONNECTION_ERROR"
proof -
  have "m_result c1 = RESULT_CONNECTION_ERROR" using m_result_receive [OF assms(1)] by simp
  with assms(2) have "m_result c2 = RESULT_CONNECTION_ERROR" by (rule m_result_steps)
  with core_stop_result(7) [OF assms(3)] show ?thesis by (simp add: waitForStop_def)
qed

text \<open>
  Remark: reloading a plugin whose library can no longer be opened stops and removes it and then
  dereferences the end iterator.
\<close>

theorem reload_unloadable_undefined:
  assumes "findPlugin pid c = i" and "i < length (m_plugins c)"
    and "stop (uptime_now env) (m_plugins c ! i) = (q, [], None)" and "m_thread q = NoThread"
    and "as_string (yaml_ops env) (at_key (yaml_ops env) (at_key (yaml_ops env)
      (at_key (yaml_ops env) (core_cfg c) ''plugins'') pid) ''path'') = Some path"
    and "extension env path = ''.so''" and "dlopen env path = None"
  shows "reloadPlugin env pid c = Inl UndefinedBehaviour"
proof -
  have s: "stop_at env i c = Inr (c\<lparr>m_plugins := (m_plugins c)[i := q]\<rparr>)"
    using assms(2,3) by (simp add: stop_at_def vec_at_def)
  have l: "loadPlugin env pid d = Inr (length (m_plugins d), d)" if "core_cfg d = core_cfg c"
    for d :: "('a, 'b) core"
    using assms(5-7) that by (simp add: loadPlugin_def loadPluginWith_def loadSoPlugin_def Let_def)
  show ?thesis
    using assms(1,2,4) s l
    by (simp add: reloadPlugin_def Let_def removePluginAt_def vec_at_def destroy_def spawn_at_def)
qed

text \<open>
  Remark: a reload puts the new object of the plugin at the end of the vector, started, and leaves the
  other plugins as they were and in their order; the messages that waited in the mailbox of the old object are gone,
  and the plugin is offered each later message after all others.
\<close>

theorem reload_replaces_plugin:
  assumes "findPlugin pid c = i" and "i < length (m_plugins c)"
    and "stop (uptime_now env) (m_plugins c ! i) = (q, [], None)" and "m_thread q = NoThread"
    and "as_string (yaml_ops env) (at_key (yaml_ops env) (at_key (yaml_ops env)
      (at_key (yaml_ops env) (core_cfg c) ''plugins'') pid) ''path'') = Some path"
    and "path \<noteq> ''''" and "extension env path = ''.so''" and "dlopen env path = Some lib"
    and "\<And>cfg. getPlugin env lib cfg = Some (Plugin K obj cfg)"
  shows "\<exists>p c'. reloadPlugin env pid c = Inr c' \<and>
    m_plugins c' = take i (m_plugins c) @ drop (Suc i) (m_plugins c) @ [p] \<and>
    m_id p = pid \<and> m_class p = K \<and> m_object p = obj \<and> m_incoming p = [] \<and> m_running p \<and> m_thread p = Starting \<and>
    outgoing c' = outgoing c \<and> control c' = control c \<and> m_dl_plugins c' pid = Some lib"
proof -
  have s: "stop_at env i c = Inr (c\<lparr>m_plugins := (m_plugins c)[i := q]\<rparr>)"
    using assms(2,3) by (simp add: stop_at_def vec_at_def)
  obtain ps where ps: "ps = take i (m_plugins c) @ drop (Suc i) (m_plugins c)" by blast
  let ?c2 = "c\<lparr>m_plugins := (m_plugins c)[i := q], m_dl_plugins :=
     (m_dl_plugins c)(pid \<mapsto> (case m_dl_plugins c pid of Some l \<Rightarrow> l | None \<Rightarrow> 0))\<rparr>"
  have r: "removePluginAt i ?c2 = Inr (?c2\<lparr>m_plugins := ps\<rparr>)"
    using assms(2,4) by (simp add: removePluginAt_def vec_at_def destroy_def ps)
  have "core_cfg (?c2\<lparr>m_plugins := ps\<rparr>) = core_cfg c" by simp
  from loadPlugin_so [of env "?c2\<lparr>m_plugins := ps\<rparr>", unfolded this, OF assms(5-9)] obtain cfg where
    cfg: "pc_id cfg = pid" and l: "loadPlugin env pid (?c2\<lparr>m_plugins := ps\<rparr>) = Inr (length ps,
      ?c2\<lparr>m_dl_plugins := (m_dl_plugins ?c2)(pid \<mapsto> lib), m_plugins := ps @ [Plugin K obj cfg]\<rparr>)"
    by auto
  let ?c4 = "?c2\<lparr>m_dl_plugins := (m_dl_plugins ?c2)(pid \<mapsto> lib), m_plugins := ps @ [Plugin K obj cfg]\<rparr>"
  let ?q = "(Plugin K obj cfg)\<lparr>m_running := True, m_thread := Starting\<rparr>"
  have "spawn_at (length ps) ?c4 = Inr (?c4\<lparr>m_plugins := ps @ [?q]\<rparr>)"
    by (rule spawn_at_last) simp_all
  with r l s assms(1,2) have "reloadPlugin env pid c = Inr (?c4\<lparr>m_plugins := ps @ [?q]\<rparr>)"
    by (simp add: reloadPlugin_def Let_def)
  then have "\<exists>c'. reloadPlugin env pid c = Inr c' \<and> m_plugins c' = ps @ [?q] \<and>
      outgoing c' = outgoing c \<and> control c' = control c \<and> m_dl_plugins c' pid = Some lib"
    by simp
  moreover have "m_id ?q = pid \<and> m_class ?q = K \<and> m_object ?q = obj \<and> m_incoming ?q = [] \<and> m_running ?q \<and> m_thread ?q = Starting"
    using cfg by simp
  ultimately show ?thesis unfolding ps by (metis append_assoc)
qed

text \<open>
  Remark: a plugin is admitted exactly with the configured token, which must not be empty: an unset or
  empty token admits nobody.
\<close>

theorem authenticate_iff:
  "authenticatePlugin env token c = Inr True \<longleftrightarrow>
    token \<noteq> '''' \<and> as_string (yaml_ops env) (at_key (yaml_ops env) (core_cfg c) ''plugin_token'') = Some token"
  by (auto simp: authenticatePlugin_def required_def bind_result_Inr_iff split: option.splits)


section \<open>A concrete core\<close>

definition example_core_config :: yaml_node where
  "example_core_config = Mapping
     [(''server'', Scalar ''irc.example.com''), (''port'', Scalar ''6667''),
      (''plugin_token'', Scalar ''secret''),
      (''plugins'', Mapping [(''base'', Mapping [(''path'', Scalar ''base.so'')]),
                             (''gone'', Mapping [(''path'', Scalar ''gone.so'')])])]"

definition example_env :: "(yaml_node, nat) env" where
  "example_env = \<lparr>yaml_ops = yaml_tree, resolves = (\<lambda>_ _. True), attempt = (\<lambda>n. 2 \<le> n),
     extension = (\<lambda>_. ''.so''), dlopen = (\<lambda>path. if path = ''base.so'' then Some 1 else None),
     getPlugin = (\<lambda>_ config. Some (Plugin (base_class ''Base'') 0 config)),
     acceptor_cancel = (\<lambda>is_open. if is_open then None else Some (SystemError ''Bad file descriptor'')),
     open_plugin_server = (\<lambda>_ _. None), open_admin_port = (\<lambda>_. None), uptime_now = 0\<rparr>"

definition value_or :: "'a \<Rightarrow> 'a result \<Rightarrow> 'a" where
  "value_or d r = (case r of Inr x \<Rightarrow> x | Inl _ \<Rightarrow> d)"


definition is_ok :: "'a result \<Rightarrow> bool" where
  "is_ok r = (case r of Inr _ \<Rightarrow> True | Inl _ \<Rightarrow> False)"

lemma is_ok_value: "is_ok r \<Longrightarrow> r = Inr (value_or d r)"
  by (auto simp: is_ok_def value_or_def split: sum.splits)

text \<open>The same environment with a \<open>cancel()\<close> that ignores closed acceptors.\<close>

definition tolerant_env :: "(yaml_node, nat) env" where
  "tolerant_env = example_env\<lparr>acceptor_cancel := (\<lambda>_. None)\<rparr>"

lemma example_connects:
  assumes "core_cfg c = example_core_config" and "env = example_env \<or> env = tolerant_env"
  shows "connect env c = Some (Inr (startAsyncReceive (c\<lparr>socket_open := True\<rparr>)))"
proof -
  have env: "yaml_ops env = yaml_tree" "attempt env = (\<lambda>n. 2 \<le> n)" "resolves env = (\<lambda>_ _. True)"
    using assms(2) by (auto simp: example_env_def tolerant_env_def)
  have "connect_loop (attempt env) mx 0 i [] \<noteq> None" for mx i
    using connect_loop_success [of "attempt env" 0 2 mx i "[]"] by (simp add: env)
  moreover have "stoi ''6667'' = Inr 6667" by code_simp
  ultimately show ?thesis
    using assms(1)
    by (auto simp: connect_def Let_def example_core_config_def env yaml_tree_def split: option.splits)
qed

definition after_connect :: "(yaml_node, nat) env \<Rightarrow> (yaml_node, nat) core \<Rightarrow> (yaml_node, nat) core result" where
  "after_connect env c =
     bind_result (initializePlugins env c) (\<lambda>c2. bind_result (startPlugins c2) (\<lambda>c3.
       bind_result (startTcpPluginServer env c3) (startAdminPort env)))"

definition running :: "(yaml_node, nat) core \<Rightarrow> (yaml_node, nat) core" where
  "running c = startAsyncReceive (c\<lparr>core_running := True, m_stop_promise := Unset, socket_open := True\<rparr>)"

lemma example_run_from:
  assumes "core_cfg c = example_core_config" and "env = example_env \<or> env = tolerant_env"
    and "is_ok (after_connect env (running c))"
  shows "core_run env c = Some (Inr (value_or d (after_connect env (running c))))"
  using example_connects [of "c\<lparr>core_running := True, m_stop_promise := Unset\<rparr>", OF _ assms(2)] assms(1)
    is_ok_value [OF assms(3), of d]
  by (simp add: core_run_def after_connect_def running_def)

definition example_core :: "(yaml_node, nat) core" where
  "example_core = value_or (Core Undefined) (after_connect example_env (running (Core example_core_config)))"

definition stopped :: "(yaml_node, nat) env \<Rightarrow> (yaml_node, nat) core \<Rightarrow> (yaml_node, nat) core" where
  "stopped env c = value_or (Core Undefined) (core_stop env c)"

definition failed :: "(yaml_node, nat) env \<Rightarrow> (yaml_node, nat) core \<Rightarrow> (yaml_node, nat) core" where
  "failed env c = value_or (Core Undefined) (receive_handler env Failed c)"

definition rerun :: "(yaml_node, nat) env \<Rightarrow> (yaml_node, nat) core \<Rightarrow> (yaml_node, nat) core" where
  "rerun env c = value_or (Core Undefined) (after_connect env (running c))"

lemma example_run: "core_run example_env (Core example_core_config) = Some (Inr example_core)"
  unfolding example_core_def by (rule example_run_from) (simp_all add: Core_def, code_simp)

lemma example_stop: "core_stop example_env example_core = Inr (stopped example_env example_core)"
  unfolding stopped_def by (rule is_ok_value) code_simp

lemma example_rerun:
  "core_run example_env (stopped example_env example_core) =
     Some (Inr (rerun example_env (stopped example_env example_core)))"
  unfolding rerun_def by (rule example_run_from) (code_simp, simp, code_simp)

lemma tolerant_fail: "receive_handler tolerant_env Failed example_core = Inr (failed tolerant_env example_core)"
  unfolding failed_def by (rule is_ok_value) code_simp

lemma tolerant_rerun:
  "core_run tolerant_env (failed tolerant_env example_core) =
     Some (Inr (rerun tolerant_env (failed tolerant_env example_core)))"
  unfolding rerun_def by (rule example_run_from) (code_simp, simp, code_simp)

lemma tolerant_stop:
  "core_stop tolerant_env (rerun tolerant_env (failed tolerant_env example_core)) =
     Inr (stopped tolerant_env (rerun tolerant_env (failed tolerant_env example_core)))"
  unfolding stopped_def by (rule is_ok_value) code_simp

lemma example_core_plugins: "map m_id (m_plugins example_core) = [''base'']"
  by code_simp


theorem received_messages_delivered_witness:
  "\<exists>c'. receive_handler example_env (Received (toString example_ping False)) example_core = Inr c' \<and>
     m_incoming (m_plugins c' ! 0) = [example_ping] \<and> receiving c'"
proof -
  let ?r = "receive_handler example_env (Received (toString example_ping False)) example_core"
  have ok: "?r = Inr (value_or (Core Undefined) ?r)" by (rule is_ok_value) code_simp
  have "0 < length (m_plugins example_core)" using example_core_plugins by (cases "m_plugins example_core") auto
  moreover have "m_incoming (m_plugins example_core ! 0) @ filter (\<lambda>m. accepts m (m_plugins example_core ! 0))
      (m_messages (parse (m_parser example_core) (toString example_ping False))) = [example_ping]"
    by code_simp
  ultimately show ?thesis using received_messages_delivered [OF ok, of 0] ok by auto
qed

theorem connect_pause_bounds_witness:
  "unat ((next_interval 15000 ^^ 7) (200 :: 32 word)) = 15000"
  by (subst connect_pause_bounds) simp_all

theorem connect_pause_wraps_witness:
  "\<exists>pauses. connect_loop (\<lambda>n. 40 \<le> n) (- 1) 0 200 [] = Some pauses \<and> length pauses = 40 \<and>
     (\<forall>p \<in> set (drop 32 pauses). p = 0)"
proof -
  have "connect_loop (\<lambda>n. 40 \<le> n) (- 1) 0 200 [] =
      Some (map (\<lambda>j. (next_interval (- 1) ^^ j) 200) [0 ..< 40])"
    using connect_loop_success [of "\<lambda>n. 40 \<le> n" 0 40 "- 1" 200 "[]"] by (simp only: add_0 append_Nil) auto
  from this connect_pause_wraps [OF this] show ?thesis by (intro exI conjI) (auto simp del: upt.simps)
qed

theorem core_stop_postcondition_witness:
  "m_plugins (stopped example_env example_core) = [] \<and> waitForStop (stopped example_env example_core) = Inr RESULT_OK"
proof -
  have "m_result example_core = RESULT_OK" by code_simp
  with core_stop_postcondition [OF example_stop] show ?thesis by simp
qed

theorem core_stop_twice_fails_witness:
  "\<exists>e. core_stop example_env (stopped example_env example_core) = Inl e"
  by (rule core_stop_twice_fails [OF example_stop refl])

theorem restarted_core_cannot_stop_witness:
  "\<exists>f. core_stop example_env (rerun example_env (stopped example_env example_core)) = Inl f"
proof -
  have "acceptor_cancel example_env False = Some (SystemError ''Bad file descriptor'')"
    by (simp add: example_env_def)
  moreover have "tcp_plugin_server example_core \<noteq> None" by code_simp
  ultimately show ?thesis
    using restarted_core_cannot_stop example_stop example_rerun by blast
qed

theorem connection_error_sticky_witness:
  "waitForStop (stopped tolerant_env (rerun tolerant_env (failed tolerant_env example_core))) =
     Inr RESULT_CONNECTION_ERROR"
  by (rule connection_error_sticky [OF tolerant_fail
      r_into_rtranclp [where r = "core_step tolerant_env", OF cs_run [OF tolerant_rerun]] tolerant_stop])

definition core_with_gone :: "(yaml_node, nat) core" where
  "core_with_gone = example_core\<lparr>m_plugins :=
     [(Plugin (base_class ''Base'') 0 \<lparr>pc_id = ''gone'', pc_config = Undefined\<rparr>)\<lparr>m_running := False\<rparr>]\<rparr>"

theorem reload_replaces_plugin_witness:
  "\<exists>p c'. reloadPlugin example_env ''base'' (example_core\<lparr>m_plugins :=
       [(Plugin (base_class ''Base'') 7 \<lparr>pc_id = ''base'', pc_config = Undefined\<rparr>)\<lparr>m_running := False, m_incoming := [example_ping]\<rparr>]\<rparr>) =
       Inr c' \<and> m_plugins c' = [p] \<and> m_incoming p = [] \<and> m_object p = 0"
proof -
  let ?p = "(Plugin (base_class ''Base'') 7 \<lparr>pc_id = ''base'', pc_config = Undefined\<rparr>)\<lparr>m_running := False, m_incoming := [example_ping]\<rparr>"
  let ?c = "example_core\<lparr>m_plugins := [?p]\<rparr>"
  have 1: "findPlugin ''base'' ?c = 0" by (simp add: findPlugin_def Plugin_def)
  have 2: "stop (uptime_now example_env) (m_plugins ?c ! 0) = (?p, [], None)" by (simp add: stop_def)
  have 3: "as_string (yaml_ops example_env) (at_key (yaml_ops example_env) (at_key (yaml_ops example_env)
      (at_key (yaml_ops example_env) (core_cfg ?c) ''plugins'') ''base'') ''path'') = Some ''base.so''"
    by code_simp
  have 4: "extension example_env ''base.so'' = ''.so''" "dlopen example_env ''base.so'' = Some 1"
    "getPlugin example_env 1 cfg = Some (Plugin (base_class ''Base'') 0 cfg)" for cfg
    by (simp_all add: example_env_def)
  from reload_replaces_plugin [OF 1 _ 2 _ 3 _ 4] show ?thesis by (simp add: Plugin_def) blast
qed

theorem reload_unloadable_undefined_witness:
  "reloadPlugin example_env ''gone'' core_with_gone = Inl UndefinedBehaviour"
proof (rule reload_unloadable_undefined)
  show "findPlugin ''gone'' core_with_gone = 0"
    by (simp add: findPlugin_def core_with_gone_def Plugin_def)
  show "stop (uptime_now example_env) (m_plugins core_with_gone ! 0) = (m_plugins core_with_gone ! 0, [], None)"
    by (simp add: core_with_gone_def stop_def)
  show "as_string (yaml_ops example_env) (at_key (yaml_ops example_env) (at_key (yaml_ops example_env)
      (at_key (yaml_ops example_env) (core_cfg core_with_gone) ''plugins'') ''gone'') ''path'') = Some ''gone.so''"
    by code_simp
qed (simp_all add: core_with_gone_def Plugin_def example_env_def)

end
