(* ===== verification/Admin_Port.thy ===== *)
theory Admin_Port
  imports Bot_Core
begin

text \<open>
  \<open>AdminPort\<close> (include/ircbot/admin_port.hpp, source/admin_port.cpp): commands for the core that
  arrive on a local socket, and the vector of its clients, whose elements the handlers of pending
  receives point to.
\<close>

section \<open>Commands\<close>

definition admin_parser :: parser_config where
  "admin_parser = \<lparr>prefix = NUL, parseOneCommand = True\<rparr>"

text \<open>A missing argument is only logged.\<close>

definition processCommand :: "('n, 'x) env \<Rightarrow> string \<Rightarrow> ('n, 'x) core \<Rightarrow> ('n, 'x) core result" where
  "processCommand env line c = bind_result (command_parse admin_parser line) (\<lambda>cmd.
     if cmd_command cmd = ''restartPlugin'' then fold_result (restartPlugin env) (arguments cmd) c
     else if cmd_command cmd = ''reloadPlugin'' then fold_result (reloadPlugin env) (arguments cmd) c
     else if cmd_command cmd = ''shutdown'' then core_stop env c
     else Inr c)"

text \<open>
  The receive handler of a client. After the command it calls \<open>startReceiving()\<close> on the client,
  which belongs to the admin port: when the command has destroyed the port, this is a call on a
  destroyed object.
\<close>

definition client_handler :: "('n, 'x) env \<Rightarrow> receive_event \<Rightarrow> ('n, 'x) core \<Rightarrow> ('n, 'x) core result" where
  "client_handler env ev c = (case ev of
     Failed \<Rightarrow> Inr c
   | Aborted \<Rightarrow> Inr c
   | Received msg \<Rightarrow> bind_result (processCommand env msg c) (\<lambda>c'.
       if admin_port c' = None then Inl UndefinedBehaviour else Inr c'))"

text \<open>
  The handler runs on the thread of \<open>ContextProvider\<close>, whose function is \<open>m_context.run()\<close> alone: an exception that
  leaves the handler leaves the thread's function too.
\<close>

definition on_io_thread :: "'a result \<Rightarrow> 'a result" where
  "on_io_thread r = (case r of Inl e \<Rightarrow> Inl (if catchable e then Terminate else e) | Inr x \<Rightarrow> Inr x)"

section \<open>Clients\<close>

text \<open>
  \<open>m_clients\<close> is a vector of clients by value. An address is the block the vector has allocated
  and the index in it; a pending receive keeps the address of its client.
\<close>

record client_vector =
  block :: nat
  capacity :: nat
  clients :: nat
  pending :: "(nat \<times> nat) list"
  accepting :: bool

definition no_clients :: client_vector where
  "no_clients = \<lparr>block = 0, capacity = 0, clients = 0, pending = [], accepting = True\<rparr>"

text \<open>\<open>push_back\<close> moves all elements to a larger block when the vector is full.\<close>

definition addClient :: "(nat \<Rightarrow> nat) \<Rightarrow> client_vector \<Rightarrow> client_vector" where
  "addClient grow v =
     (let v = (if clients v = capacity v then v\<lparr>block := block v + 1, capacity := grow (capacity v)\<rparr> else v)
      in v\<lparr>clients := clients v + 1, pending := pending v @ [(block v, clients v)]\<rparr>)"

definition live :: "client_vector \<Rightarrow> nat \<times> nat \<Rightarrow> bool" where
  "live v a \<longleftrightarrow> fst a = block v \<and> snd a < clients v"

text \<open>The accept handler: \<open>Received\<close> stands for a new connection.\<close>

definition admin_accept_handler :: "(nat \<Rightarrow> nat) \<Rightarrow> receive_event \<Rightarrow> client_vector \<Rightarrow> client_vector" where
  "admin_accept_handler grow ev v = (case ev of
     Aborted \<Rightarrow> v\<lparr>accepting := False\<rparr>
   | Failed \<Rightarrow> v\<lparr>accepting := True\<rparr>
   | Received _ \<Rightarrow> (addClient grow v)\<lparr>accepting := True\<rparr>)"

text \<open>The completion of a pending receive writes to its client through the address it kept.\<close>

definition complete :: "nat \<times> nat \<Rightarrow> client_vector \<Rightarrow> unit result" where
  "complete a v = (if live v a then Inr () else Inl UndefinedBehaviour)"

section \<open>Lemmas\<close>

lemma print_admin_command:
  assumes "set name \<subseteq> {x. isCommandCharacter x}" and "as \<noteq> [] \<longrightarrow> last as \<noteq> ''''"
  shows "command_parse admin_parser (print_command admin_parser name as) =
    Inr \<lparr>cmd_command = name, arguments = as, cmd_irc_message = empty_message\<rparr>"
proof -
  have "split_arguments Unquoted '''' (drop 1 (print_arguments as)) = as"
    using assms(2) split_print_arguments by (cases "as = []") simp_all
  moreover have "\<forall>c \<in> set name. isCommandCharacter c" using assms(1) by blast
  ultimately show ?thesis
    using split_body_print [of name as]
    by (simp add: command_parse_eq split_command_def print_command_def admin_parser_def)
qed

text \<open>Arguments that a line feed ends, and a word after it.\<close>

lemma split_arguments_line:
  "ids \<noteq> [] \<Longrightarrow> split_arguments Unquoted '''' (drop 1 (print_arguments ids) @ LF # rest) =
     ids @ split_arguments Unquoted '''' rest"
proof (induction ids)
  case (Cons a as)
  then show ?case
    by (cases as) (use split_arguments_quoted [of Unquoted "''''" a] in \<open>auto simp: split_arguments_quoted\<close>)
qed simp

lemma split_arguments_word:
  "\<forall>x \<in> set w. isCommandCharacter x \<Longrightarrow> split_arguments Unquoted v (w @ rest) = split_arguments Unquoted (v @ w) rest"
proof (induction w arbitrary: v)
  case (Cons x w)
  then have "x \<notin> {SPC, CR, LF, ESCAPE, QUOTE, DQUOTE}"
    using not_command_special by (auto simp: isCommandCharacter_def)
  with Cons show ?case by simp
qed simp

lemma split_next_line:
  assumes "\<forall>x \<in> set w. isCommandCharacter x"
  shows "split_arguments Unquoted '''' (w @ print_arguments jds @ [LF]) = w # jds"
proof (cases jds)
  case Nil
  then show ?thesis using split_arguments_word [OF assms, of "''''"] by simp
next
  case (Cons a as)
  then have "print_arguments jds @ [LF] = SPC # drop 1 (print_arguments jds) @ [LF]" by simp
  with split_arguments_word [OF assms, of "''''"] split_arguments_line [of jds "''''"] Cons show ?thesis by simp
qed

lemma two_lines_parse:
  assumes "\<forall>x \<in> set u. isCommandCharacter x" and "\<forall>x \<in> set w. isCommandCharacter x" and "ids \<noteq> []"
  shows "\<exists>cmd. command_parse admin_parser (print_command admin_parser u ids @ LF # print_command admin_parser w jds @ [LF]) =
      Inr cmd \<and> cmd_command cmd = u \<and> arguments cmd = ids @ w # jds"
proof -
  from assms(3) obtain r where r: "print_arguments ids = SPC # r" by (cases ids) auto
  have s: "SPC \<notin> set u" using assms(1) not_command_special(1) by blast
  let ?rest = "LF # w @ print_arguments jds @ [LF]"
  have tw: "takeWhile (\<lambda>c. c \<noteq> SPC) (u @ SPC # r @ ?rest) = u" "dropWhile (\<lambda>c. c \<noteq> SPC) (u @ SPC # r @ ?rest) = SPC # r @ ?rest"
    using takeWhile_word [OF s, of "SPC # r @ ?rest"] by simp_all
  have f: "find (\<lambda>c. \<not> command_word_char c) u = None" "filter isCommandCharacter u = u"
    using assms(1) by (simp_all add: find_None_iff command_word_char_def filter_id_conv)
  have "split_arguments Unquoted '''' (r @ ?rest) = ids @ w # jds"
    using split_arguments_line [OF assms(3), of "w @ print_arguments jds @ [LF]"] split_next_line [OF assms(2), of jds] r
    by simp
  then show ?thesis
    using tw f by (simp add: command_parse_eq split_command_def admin_parser_def print_command_def split_body_def r)
qed

section \<open>Properties\<close>

text \<open>
  Remark: a \<open>restartPlugin\<close> or \<open>reloadPlugin\<close> command, its arguments escaped, is carried out on
  exactly the given plugin ids, whatever bytes they contain, in the order given, and an id that
  names no plugin is skipped.
\<close>

theorem admin_plugin_commands:
  assumes "ids \<noteq> []" and "last ids \<noteq> ''''"
  shows "processCommand env (print_command admin_parser ''restartPlugin'' ids) c =
      fold_result (restartPlugin env) ids c \<and>
    processCommand env (print_command admin_parser ''reloadPlugin'' ids) c =
      fold_result (reloadPlugin env) ids c \<and>
    (pid \<notin> m_id ` set (m_plugins c) \<longrightarrow> restartPlugin env pid c = Inr c \<and> reloadPlugin env pid c = Inr c)"
proof -
  have "set ''restartPlugin'' \<subseteq> {x. isCommandCharacter x}" "set ''reloadPlugin'' \<subseteq> {x. isCommandCharacter x}"
    by (simp_all add: isCommandCharacter_def)
  then show ?thesis
    using print_admin_command [of "''restartPlugin''" ids] print_admin_command [of "''reloadPlugin''" ids] assms
      findPlugin_iff [of pid c]
    by (simp add: processCommand_def restartPlugin_def reloadPlugin_def Let_def)
qed

text \<open>
  C40: the shutdown command never completes normally: either the stop throws, or it succeeds and
  destroys the admin port whose client then goes on receiving.
\<close>

theorem admin_shutdown_undefined:
  "client_handler env (Received (''shutdown'' @ [LF])) c =
     (case core_stop env c of Inl e \<Rightarrow> Inl e | Inr _ \<Rightarrow> Inl UndefinedBehaviour)"
proof -
  have "map_sum id cmd_command (command_parse admin_parser (''shutdown'' @ [LF])) = Inr ''shutdown''"
    by code_simp
  then obtain cmd where "command_parse admin_parser (''shutdown'' @ [LF]) = Inr cmd" "cmd_command cmd = ''shutdown''"
    by (cases "command_parse admin_parser (''shutdown'' @ [LF])") auto
  then have "processCommand env (''shutdown'' @ [LF]) c = core_stop env c"
    by (simp add: processCommand_def)
  then show ?thesis
    by (auto simp: client_handler_def core_stop_result(5) split: sum.split)
qed

text \<open>
  C18: a line that names none of the three commands leaves the core as it is, but one whose first word
  has a character other than a letter, a digit, a dash, CR or LF ends the whole process: nothing on the
  I/O thread catches the parser's exception.
\<close>

theorem admin_unknown_command:
  assumes "filter isCommandCharacter (takeWhile (\<lambda>x. x \<noteq> SPC) line) \<notin> {''restartPlugin'', ''reloadPlugin'', ''shutdown''}"
    and "admin_port c \<noteq> None"
  shows "on_io_thread (client_handler env (Received line) c) =
    (if \<exists>x \<in> set (takeWhile (\<lambda>x. x \<noteq> SPC) line). \<not> command_word_char x then Inl Terminate else Inr c)"
proof (cases "find (\<lambda>x. \<not> command_word_char x) (takeWhile (\<lambda>x. x \<noteq> SPC) line)")
  case None
  then have "\<forall>x \<in> set (takeWhile (\<lambda>x. x \<noteq> SPC) line). command_word_char x" by (simp add: find_None_iff)
  with None assms show ?thesis
    by (simp add: on_io_thread_def client_handler_def processCommand_def command_parse_eq split_command_def
        admin_parser_def split_body_def)
next
  case (Some x)
  then have "\<exists>x \<in> set (takeWhile (\<lambda>x. x \<noteq> SPC) line). \<not> command_word_char x"
    using nth_mem by (fastforce simp: find_Some_iff)
  with Some show ?thesis
    by (simp add: on_io_thread_def client_handler_def processCommand_def command_parse_eq split_command_def
        admin_parser_def split_body_def)
qed

text \<open>
  C19: what one read returns is taken for one command, however many lines it holds. A second line
  that arrives together with a \<open>restartPlugin\<close> or \<open>reloadPlugin\<close> line is read as further plugin ids, its
  command included: a \<open>reloadPlugin\<close> restarts, and a \<open>shutdown\<close> does nothing but look for a plugin of that name.
\<close>

theorem admin_lines_coalesce:
  assumes "ids \<noteq> []" and "\<forall>x \<in> set w. isCommandCharacter x"
  shows "processCommand env (print_command admin_parser ''restartPlugin'' ids @ LF # print_command admin_parser w jds @ [LF]) c =
      fold_result (restartPlugin env) (ids @ w # jds) c \<and>
    processCommand env (print_command admin_parser ''reloadPlugin'' ids @ LF # print_command admin_parser w jds @ [LF]) c =
      fold_result (reloadPlugin env) (ids @ w # jds) c"
proof -
  have "\<forall>x \<in> set ''restartPlugin''. isCommandCharacter x" "\<forall>x \<in> set ''reloadPlugin''. isCommandCharacter x"
    by (simp_all add: isCommandCharacter_def)
  from two_lines_parse [OF this(1) assms(2,1), of jds] two_lines_parse [OF this(2) assms(2,1), of jds]
  show ?thesis by (auto simp: processCommand_def)
qed

text \<open>
  Remark: a connection that makes the vector of clients grow leaves the pending receive of every
  earlier client with a dangling pointer; a connection that fits in the capacity leaves them
  all valid.
\<close>

theorem admin_client_dangles:
  assumes "a \<in> set (pending v)" and "live v a"
  shows "complete a (addClient grow v) = (if clients v = capacity v then Inl UndefinedBehaviour else Inr ())"
  using assms by (auto simp: complete_def addClient_def live_def Let_def)

theorem admin_plugin_commands_witness:
  "processCommand example_env (print_command admin_parser ''restartPlugin'' [''base'']) example_core =
     fold_result (restartPlugin example_env) [''base''] example_core \<and>
   restartPlugin example_env ''other'' example_core = Inr example_core"
proof -
  have "''other'' \<notin> m_id ` set (m_plugins example_core)"
    unfolding list.set_map [symmetric] example_core_plugins by simp
  then show ?thesis using admin_plugin_commands [of "[''base'']" example_env example_core "''other''"] by simp
qed

theorem admin_unknown_command_witness:
  "on_io_thread (client_handler example_env (Received (''restart_plugin base'' @ [LF])) example_core) = Inl Terminate \<and>
   on_io_thread (client_handler example_env (Received (''help'' @ [LF])) example_core) = Inr example_core"
proof -
  let ?w = "takeWhile (\<lambda>x. x \<noteq> SPC)"
  have p: "admin_port example_core \<noteq> None" by code_simp
  have bad: "filter isCommandCharacter (?w (''restart_plugin base'' @ [LF])) \<notin> {''restartPlugin'', ''reloadPlugin'', ''shutdown''}"
      "\<exists>x \<in> set (?w (''restart_plugin base'' @ [LF])). \<not> command_word_char x"
    by (simp_all add: isCommandCharacter_def command_word_char_def)
  have good: "filter isCommandCharacter (?w (''help'' @ [LF])) \<notin> {''restartPlugin'', ''reloadPlugin'', ''shutdown''}"
      "\<not> (\<exists>x \<in> set (?w (''help'' @ [LF])). \<not> command_word_char x)"
    by (simp_all add: isCommandCharacter_def command_word_char_def)
  show ?thesis
    using admin_unknown_command [OF bad(1) p, of example_env] bad(2)
      admin_unknown_command [OF good(1) p, of example_env] good(2) by (simp only: if_True if_False simp_thms)
qed

theorem admin_lines_coalesce_witness:
  "processCommand example_env (print_command admin_parser ''restartPlugin'' [''base''] @ LF #
       print_command admin_parser ''shutdown'' [] @ [LF]) example_core =
     fold_result (restartPlugin example_env) [''base'', ''shutdown''] example_core"
proof -
  have "\<forall>x \<in> set ''shutdown''. isCommandCharacter x" by (simp add: isCommandCharacter_def)
  from admin_lines_coalesce [OF _ this, of "[''base'']" example_env "[]" example_core] show ?thesis by simp
qed

theorem admin_client_dangles_witness:
  "complete (1, 0) (addClient (\<lambda>n. max 1 (2 * n)) (addClient (\<lambda>n. max 1 (2 * n)) no_clients)) =
     Inl UndefinedBehaviour"
proof -
  let ?v = "addClient (\<lambda>n. max 1 (2 * n)) no_clients"
  have "(1, 0) \<in> set (pending ?v)" "live ?v (1, 0)" "clients ?v = capacity ?v"
    by (simp_all add: addClient_def no_clients_def live_def Let_def)
  with admin_client_dangles [OF this(1,2)] show ?thesis by simp
qed

end
