(* ===== verification/Main_Program.thy ===== *)
theory Main_Program
  imports Logging Admin_Port
begin

text \<open>
  program/ircbot.cpp: the command line and configuration, the log outputs, the daemon's fork, and
  the loop that runs the core until it stops normally. Parsing of the command line and
  \<open>fork\<close> are parameters.
\<close>

section \<open>Leaving main\<close>

text \<open>A part of \<open>main\<close> goes on, returns an exit status, or throws.\<close>

datatype 's flow = Continue 's | Return int | Throw fault

text \<open>
  The outer handlers: \<open>std::runtime_error\<close> gives 2, another \<open>std::exception\<close> gives 3. The
  exceptions of yaml-cpp and of the system are runtime errors; \<open>UnexpectedCharacter\<close>,
  \<open>future_error\<close> and those of \<open>stoi\<close> and \<open>substr\<close> are logic errors. What is not an exception has no status.
\<close>

fun status_of_fault :: "fault \<Rightarrow> int option" where
  "status_of_fault (RuntimeError _) = Some 2"
| "status_of_fault (SystemError _) = Some 2"
| "status_of_fault BadConversion = Some 2"
| "status_of_fault (UnexpectedCharacter _ _) = Some 3"
| "status_of_fault (LogicError _) = Some 3"
| "status_of_fault OutOfRange = Some 3"
| "status_of_fault InvalidArgument = Some 3"
| "status_of_fault FutureError = Some 3"
| "status_of_fault _ = None"

fun exit_status :: "'s flow \<Rightarrow> int option" where
  "exit_status (Continue s) = None"
| "exit_status (Return n) = Some n"
| "exit_status (Throw e) = status_of_fault e"

fun of_result :: "'a result \<Rightarrow> ('a \<Rightarrow> 's flow) \<Rightarrow> 's flow" where
  "of_result (Inl e) k = Throw e"
| "of_result (Inr x) k = k x"

section \<open>Log outputs\<close>

record log_setup =
  set_logger :: logger
  set_streams :: streams
  stdout_logging :: bool

definition add_log ::
  "'n yaml \<Rightarrow> (string \<Rightarrow> bool) \<Rightarrow> bool \<Rightarrow> 'n \<Rightarrow> log_setup \<Rightarrow> log_setup flow" where
  "add_log y can_open log_debug entry s =
     of_result (required (as_string y (at_key y entry ''level''))) (\<lambda>level_str.
     of_result (required (as_string y (at_key y entry ''file''))) (\<lambda>log_fname.
     of_result (GetLogLevel level_str) (\<lambda>level.
       if \<not> log_debug \<and> level = DEBUG then Return 2
       else if log_fname = ''-'' \<or> log_fname = ''-stderr'' then
         Continue (s\<lparr>set_logger := addOutput \<lparr>m_level = level, output_stream = Clog\<rparr> (set_logger s),
           stdout_logging := True\<rparr>)
       else if log_fname = ''-stdout'' then
         Continue (s\<lparr>set_logger := addOutput \<lparr>m_level = level, output_stream = Cout\<rparr> (set_logger s),
           stdout_logging := True\<rparr>)
       else of_result (FileLogOutput can_open log_fname level (set_streams s)) (\<lambda>(out, streams).
         Continue (s\<lparr>set_logger := addOutput out (set_logger s), set_streams := streams\<rparr>)))))"

fun add_logs ::
  "'n yaml \<Rightarrow> (string \<Rightarrow> bool) \<Rightarrow> bool \<Rightarrow> 'n list \<Rightarrow> log_setup \<Rightarrow> log_setup flow" where
  "add_logs y can_open log_debug [] s = Continue s"
| "add_logs y can_open log_debug (l # ls) s = (case add_log y can_open log_debug l s of
     Continue s' \<Rightarrow> add_logs y can_open log_debug ls s'
   | Return n \<Rightarrow> Return n
   | Throw e \<Rightarrow> Throw e)"

section \<open>Up to the core\<close>

datatype command_line = Help | Version | OptionError | Options string bool

datatype fork_result = ForkFailed | Parent | Child

text \<open>
  \<open>io_thread\<close>: the process has the thread that \<open>ContextProvider::run\<close> started, on which every
  asynchronous handler runs. \<open>fork\<close> copies only the thread that calls it.
\<close>

record 'n process =
  proc_config :: 'n
  proc_logs :: log_setup
  io_thread :: bool
  is_daemon :: bool

definition main_start ::
  "'n yaml \<Rightarrow> (string \<Rightarrow> 'n result) \<Rightarrow> 'n \<Rightarrow> (string \<Rightarrow> bool) \<Rightarrow> bool \<Rightarrow> fork_result \<Rightarrow> log_setup
    \<Rightarrow> command_line \<Rightarrow> 'n process flow" where
  "main_start y load null can_open log_debug forked logs cl = (case cl of
     Help \<Rightarrow> Return 0
   | Version \<Rightarrow> Return 0
   | OptionError \<Rightarrow> Return 1
   | Options config_fname daemon \<Rightarrow>
       of_result (Config load null config_fname) (\<lambda>config.
         (case add_logs y can_open log_debug (elements y (at_key y (node config) ''log'')) logs of
            Return n \<Rightarrow> Return n
          | Throw e \<Rightarrow> Throw e
          | Continue logs' \<Rightarrow>
              (let p = \<lparr>proc_config = node config, proc_logs = logs', io_thread = True, is_daemon = False\<rparr>
               in if daemon then
                    (case forked of
                       ForkFailed \<Rightarrow> Continue p
                     | Parent \<Rightarrow> Return 0
                     | Child \<Rightarrow> Continue (p\<lparr>io_thread := False, is_daemon := True\<rparr>))
                  else Continue p))))"

section \<open>The main loop\<close>

text \<open>
  One iteration: \<open>run\<close>, whatever the other threads do, and \<open>waitForStop\<close>. The loop goes on while the
  result is not \<open>OK\<close>; the messages of the \<open>switch\<close> are only logged.
\<close>

inductive main_iteration ::
  "('n, 'x) env \<Rightarrow> ('n, 'x) core \<Rightarrow> ('n, 'x) core \<Rightarrow> run_result \<Rightarrow> bool" for env where
  "core_run env c = Some (Inr c1) \<Longrightarrow> (core_event env)\<^sup>*\<^sup>* c1 c' \<Longrightarrow> waitForStop c' = Inr r \<Longrightarrow>
   main_iteration env c c' r"

inductive main_head :: "('n, 'x) env \<Rightarrow> 'n \<Rightarrow> ('n, 'x) core \<Rightarrow> bool" for env cfg where
  main_enter: "main_head env cfg (Core cfg)"
| main_again: "main_head env cfg c \<Longrightarrow> main_iteration env c c' r \<Longrightarrow> r \<noteq> RESULT_OK \<Longrightarrow> main_head env cfg c'"

text \<open>\<open>return 0\<close> after the loop.\<close>

definition main_returns_ok :: "('n, 'x) env \<Rightarrow> ('n, 'x) core \<Rightarrow> bool" where
  "main_returns_ok env c \<longleftrightarrow> (\<exists>c'. main_iteration env c c' RESULT_OK)"

text \<open>The handler that \<open>signal\<close> installs.\<close>

definition signal_handler :: "('n, 'x) env \<Rightarrow> int \<Rightarrow> ('n, 'x) core option \<Rightarrow> ('n, 'x) core option result" where
  "signal_handler env signum client = (case client of
     None \<Rightarrow> Inr None
   | Some c \<Rightarrow> bind_result (core_signal env signum c) (\<lambda>c'. Inr (Some c')))"

section \<open>Lemmas\<close>

text \<open>The value in the promise is the result the core still has.\<close>

definition promise_ok :: "('n, 'x) core \<Rightarrow> bool" where
  "promise_ok c \<longleftrightarrow> (\<forall>r. m_stop_promise c = Value r \<longrightarrow> m_result c = r)"

lemma promise_ok_stop: "core_stop env c = Inr c' \<Longrightarrow> promise_ok c'"
  using core_stop_result(6,7) [of env c c'] by (simp add: promise_ok_def)

lemma promise_ok_control: "control c' = control c \<Longrightarrow> promise_ok c \<Longrightarrow> promise_ok c'"
  by (simp add: promise_ok_def control_def)

lemma control_receive:
  assumes "receive_handler env ev c = Inr c'" and "ev \<noteq> Failed"
  shows "m_result c' = m_result c" "m_stop_promise c' = m_stop_promise c"
    "tcp_plugin_server c' = tcp_plugin_server c"
proof -
  have "m_result c' = m_result c \<and> m_stop_promise c' = m_stop_promise c \<and>
    tcp_plugin_server c' = tcp_plugin_server c"
  proof (cases ev)
    case (Received bytes)
    from receive_handler_Received [OF assms(1) [unfolded Received]] obtain d where
      d: "dispatch_messages (messagesCount (parse (m_parser c) bytes))
        (c\<lparr>receiving := False, m_parser := parse (m_parser c) bytes\<rparr>) = Inr d" "c' = d\<lparr>receiving := True\<rparr>" by blast
    from control_dispatch_messages [OF d(1)] d(2) show ?thesis by (simp add: control_def)
  qed (use assms in \<open>auto simp: receive_handler_def Let_def\<close>)
  then show "m_result c' = m_result c" "m_stop_promise c' = m_stop_promise c"
    "tcp_plugin_server c' = tcp_plugin_server c" by blast+
qed

lemma receive_Failed:
  "receive_handler env Failed c = Inr c' \<Longrightarrow>
     core_stop env (c\<lparr>receiving := False, m_result := RESULT_CONNECTION_ERROR\<rparr>) = Inr c'"
  by (simp add: receive_handler_def Let_def)

lemma promise_ok_event: "core_event env c c' \<Longrightarrow> promise_ok c \<Longrightarrow> promise_ok c'"
proof -
  assume e: "core_event env c c'" and ok: "promise_ok c"
  from control_of_event [OF e] consider "control c' = control c" | "core_stop env c = Inr c'"
    | ev where "receive_handler env ev c = Inr c'" by blast
  then show "promise_ok c'"
  proof cases
    case (3 ev)
    show ?thesis
    proof (cases "ev = Failed")
      case True
      from receive_Failed [OF 3 [unfolded True]] show ?thesis by (rule promise_ok_stop)
    next
      case False
      with control_receive [OF 3] ok show ?thesis by (simp add: promise_ok_def)
    qed
  qed (use ok in \<open>auto intro: promise_ok_control promise_ok_stop\<close>)
qed

lemma promise_ok_events: "(core_event env)\<^sup>*\<^sup>* c c' \<Longrightarrow> promise_ok c \<Longrightarrow> promise_ok c'"
  by (induction rule: rtranclp_induct) (auto intro: promise_ok_event)

lemma iteration_result:
  assumes "main_iteration env c c' r"
  shows "m_result c' = r" and "r = m_result c \<or> r = RESULT_CONNECTION_ERROR"
proof -
  from assms obtain c1 where c1: "core_run env c = Some (Inr c1)" "(core_event env)\<^sup>*\<^sup>* c1 c'"
    "waitForStop c' = Inr r" by (cases rule: main_iteration.cases) auto
  have "promise_ok c1" using core_run_result(2) [OF c1(1)] by (simp add: promise_ok_def)
  with c1(2) have "promise_ok c'" by (rule promise_ok_events)
  with c1(3) show r: "m_result c' = r" by (auto simp: promise_ok_def waitForStop_def split: promise.splits)
  have "m_result c' = m_result c1 \<or> m_result c' = RESULT_CONNECTION_ERROR"
    using c1(2) by (induction rule: rtranclp_induct) (auto dest: m_result_event)
  with r core_run_result(1) [OF c1(1)] show "r = m_result c \<or> r = RESULT_CONNECTION_ERROR" by auto
qed

text \<open>A core whose plugin server has been closed cannot fulfil the promise of its next run.\<close>

definition cannot_stop :: "('n, 'x) core \<Rightarrow> bool" where
  "cannot_stop c \<longleftrightarrow> tcp_plugin_server c = Some False \<and> m_stop_promise c = Unset"

lemma cannot_stop_event:
  assumes "acceptor_cancel env False \<noteq> None" and "core_event env c c'" and "cannot_stop c"
  shows "cannot_stop c'"
proof -
  have no_stop: "core_stop env d \<noteq> Inr d'" if "tcp_plugin_server d = Some False" for d d'
    using core_stop_closed_server [OF that assms(1)] by fastforce
  from control_of_event [OF assms(2)] consider "control c' = control c" | "core_stop env c = Inr c'"
    | ev where "receive_handler env ev c = Inr c'" by blast
  then show ?thesis
  proof cases
    case 1
    with assms(3) show ?thesis by (simp add: cannot_stop_def control_def)
  next
    case 2
    with no_stop assms(3) show ?thesis by (simp add: cannot_stop_def)
  next
    case (3 ev)
    with no_stop [of "c\<lparr>receiving := False, m_result := RESULT_CONNECTION_ERROR\<rparr>"] assms(3)
    show ?thesis
      by (cases "ev = Failed") (auto simp: cannot_stop_def control_receive dest: receive_Failed)
  qed
qed

lemma cannot_stop_events:
  assumes "(core_event env)\<^sup>*\<^sup>* c c'" and "acceptor_cancel env False \<noteq> None" and "cannot_stop c"
  shows "cannot_stop c'"
  using assms(1,3) by (induction rule: rtranclp_induct) (auto intro: cannot_stop_event [OF assms(2)])

lemma event_server:
  assumes "core_event env c c'" and "tcp_plugin_server c \<noteq> None"
  shows "(tcp_plugin_server c' = tcp_plugin_server c \<and> m_stop_promise c' = m_stop_promise c) \<or>
    tcp_plugin_server c' = Some False"
proof -
  from control_of_event [OF assms(1)] consider "control c' = control c" | "core_stop env c = Inr c'"
    | ev where "receive_handler env ev c = Inr c'" by blast
  then show ?thesis
  proof cases
    case 1
    with assms(2) show ?thesis by (simp add: control_def)
  next
    case 2
    from core_stop_result(9) [OF 2] assms(2) show ?thesis by auto
  next
    case (3 ev)
    show ?thesis
    proof (cases "ev = Failed")
      case True
      from core_stop_result(9) [OF receive_Failed [OF 3 [unfolded True]]] assms(2) show ?thesis by auto
    next
      case False
      with control_receive [OF 3] assms(2) show ?thesis by simp
    qed
  qed
qed

lemma iteration_closes_server:
  assumes "main_iteration env c c' r" and "tcp_plugin_server c = None"
  shows "tcp_plugin_server c' = Some False"
proof -
  from assms obtain c1 where c1: "core_run env c = Some (Inr c1)" "(core_event env)\<^sup>*\<^sup>* c1 c'"
    "waitForStop c' = Inr r" by (cases rule: main_iteration.cases) auto
  have "tcp_plugin_server c1 \<noteq> None" "m_stop_promise c1 = Unset"
    using core_run_result(2,4) [OF c1(1)] assms(2) by auto
  with c1(2) have "tcp_plugin_server c' \<noteq> None \<and> (m_stop_promise c' = Unset \<or> tcp_plugin_server c' = Some False)"
  proof (induction rule: rtranclp_induct)
    case (step d d')
    from step.IH step.prems event_server [OF step.hyps(2)] show ?case by auto
  qed simp
  with c1(3) show ?thesis by (auto simp: waitForStop_def)
qed


lemma head_result: "main_head env cfg c \<Longrightarrow> m_result c \<noteq> RESULT_ERROR"
proof (induction rule: main_head.induct)
  case main_enter
  show ?case by (simp add: Core_def)
next
  case (main_again c c' r)
  with iteration_result [OF main_again.hyps(2)] show ?case by auto
qed

lemma head_server:
  "main_head env cfg c \<Longrightarrow> acceptor_cancel env False \<noteq> None \<Longrightarrow>
     c = Core cfg \<or> tcp_plugin_server c = Some False"
proof (induction rule: main_head.induct)
  case (main_again c c' r)
  then consider "c = Core cfg" | "tcp_plugin_server c = Some False" by blast
  then show ?case
  proof cases
    case 1
    then have "tcp_plugin_server c = None" by (simp add: Core_def)
    with iteration_closes_server main_again.hyps(2) show ?thesis by blast
  next
    case 2
    from main_again.hyps(2) obtain c1 where c1: "core_run env c = Some (Inr c1)"
      "(core_event env)\<^sup>*\<^sup>* c1 c'" by (cases rule: main_iteration.cases) auto
    have "cannot_stop c1" using core_run_result(2,4) [OF c1(1)] 2 by (simp add: cannot_stop_def)
    from cannot_stop_events [OF c1(2) main_again.prems this] show ?thesis by (simp add: cannot_stop_def)
  qed
qed simp

lemma no_iteration_with_closed_server:
  assumes "acceptor_cancel env False \<noteq> None" and "tcp_plugin_server c = Some False"
  shows "\<not> main_iteration env c c' r"
proof
  assume "main_iteration env c c' r"
  then obtain c1 where c1: "core_run env c = Some (Inr c1)" "(core_event env)\<^sup>*\<^sup>* c1 c'"
    "waitForStop c' = Inr r" by (cases rule: main_iteration.cases) auto
  have "cannot_stop c1" using core_run_result(2,4) [OF c1(1)] assms(2) by (simp add: cannot_stop_def)
  from cannot_stop_events [OF c1(2) assms(1) this] c1(3) show False
    by (simp add: cannot_stop_def waitForStop_def)
qed

section \<open>Properties\<close>

text \<open>
  C20: the program never completes a second session. Once an iteration of the main loop has
  ended with a connection error, the restarted core still holds the plugin server that the first
  stop closed; cancelling it throws, so no sequence of messages, commands and signals makes the
  next \<open>waitForStop\<close> return.
\<close>

theorem main_second_session_never_ends:
  assumes "acceptor_cancel env False = Some e" and "main_iteration env (Core cfg) c RESULT_CONNECTION_ERROR"
  shows "\<not> (\<exists>c' r. main_iteration env c c' r)"
proof -
  have "tcp_plugin_server (Core cfg :: ('a, 'b) core) = None" by (simp add: Core_def)
  from iteration_closes_server [OF assms(2) this] no_iteration_with_closed_server [of env c] assms(1)
  show ?thesis by auto
qed

text \<open>
  Remark: and were the plugin server reset, the loop would restart for ever: after one connection
  error no later iteration ends with \<open>OK\<close>, whatever made it stop.
\<close>

theorem main_restarts_for_ever:
  assumes "main_iteration env c c1 RESULT_CONNECTION_ERROR"
    and "(\<lambda>c c'. \<exists>r. main_iteration env c c' r)\<^sup>*\<^sup>* c1 c2"
  shows "\<not> main_returns_ok env c2"
proof -
  have "m_result c1 = RESULT_CONNECTION_ERROR" using iteration_result(1) [OF assms(1)] .
  with assms(2) have "m_result c2 = RESULT_CONNECTION_ERROR"
    by (induction rule: rtranclp_induct) (metis iteration_result)+
  then show ?thesis unfolding main_returns_ok_def using iteration_result(2) by fastforce
qed

text \<open>
  Remark: the branches for an unknown error and for an unsupported result are dead: an iteration of
  the main loop ends with \<open>OK\<close> or with a connection error.
\<close>

theorem main_unknown_error_unreachable:
  assumes "main_head env cfg c" and "main_iteration env c c' r"
  shows "r = RESULT_OK \<or> r = RESULT_CONNECTION_ERROR"
  using head_result [OF assms(1)] iteration_result(2) [OF assms(2)] by (cases r) auto

text \<open>
  Remark: in daemon mode the program forks after it has started the I/O thread, and the child goes on
  without that thread: no message is received, no admin command is read and no plugin connects.
\<close>

theorem daemon_has_no_io_thread:
  assumes "main_start y load null can_open log_debug Child logs (Options fname daemon) = Continue p"
  shows "io_thread p \<longleftrightarrow> \<not> daemon"
  using assms
  by (cases "Config load null fname") (auto simp: main_start_def Let_def split: flow.splits if_split_asm)

lemma of_result_Continue [simp]: "of_result r k = Continue s \<longleftrightarrow> (\<exists>x. r = Inr x \<and> k x = Continue s)"
  by (cases r) auto

text \<open>The output an entry of the configuration describes.\<close>

definition output_of :: "'n yaml \<Rightarrow> 'n \<Rightarrow> log_output option" where
  "output_of y l = (case (as_string y (at_key y l ''level''), as_string y (at_key y l ''file'')) of
     (Some level_str, Some f) \<Rightarrow> (case GetLogLevel level_str of
        Inr level \<Rightarrow> Some \<lparr>m_level = level, output_stream =
          (if f = ''-'' \<or> f = ''-stderr'' then Clog else if f = ''-stdout'' then Cout else File f)\<rparr>
      | Inl _ \<Rightarrow> None)
   | _ \<Rightarrow> None)"

lemma add_log_Continue:
  assumes "add_log y can_open log_debug l s = Continue s'"
  shows "\<exists>out. output_of y l = Some out \<and> (log_debug \<or> m_level out \<noteq> DEBUG) \<and>
      m_outputs (set_logger s') = m_outputs (set_logger s) @ [out]"
proof -
  from assms obtain level_str f level where
    "as_string y (at_key y l ''level'') = Some level_str" "as_string y (at_key y l ''file'') = Some f"
    "GetLogLevel level_str = Inr level"
    by (auto simp: add_log_def required_def split: option.splits)
  with assms show ?thesis
    by (auto simp: add_log_def output_of_def addOutput_def FileLogOutput_def split: if_split_asm)
qed

lemma add_logs_Continue:
  "add_logs y can_open log_debug ls s = Continue s' \<Longrightarrow>
   map Some (m_outputs (set_logger s')) = map Some (m_outputs (set_logger s)) @ map (output_of y) ls \<and>
   (log_debug \<or> (\<forall>l \<in> set ls. \<forall>out. output_of y l = Some out \<longrightarrow> m_level out \<noteq> DEBUG))"
proof (induction ls arbitrary: s)
  case (Cons l ls)
  then obtain t where t: "add_log y can_open log_debug l s = Continue t" "add_logs y can_open log_debug ls t = Continue s'"
    by (auto split: flow.splits)
  from add_log_Continue [OF t(1)] Cons.IH [OF t(2)] show ?case by auto
qed simp

text \<open>
  Remark: when \<open>main\<close> gets past its configuration, the logger has exactly the configured outputs,
  in order, with their levels and streams, and none at the \<open>DEBUG\<close> level in a build without debug
  logs.
\<close>

theorem log_configuration:
  assumes "main_start y load null can_open log_debug forked logs (Options fname daemon) = Continue p"
    and "m_outputs (set_logger logs) = []"
  shows "map Some (m_outputs (set_logger (proc_logs p))) =
      map (output_of y) (elements y (at_key y (proc_config p) ''log'')) \<and>
    (log_debug \<or> (\<forall>out \<in> set (m_outputs (set_logger (proc_logs p))). m_level out \<noteq> DEBUG))"
proof -
  from assms(1) obtain logs' where
    l: "add_logs y can_open log_debug (elements y (at_key y (proc_config p) ''log'')) logs = Continue logs'"
      "proc_logs p = logs'"
    by (cases "Config load null fname") (auto simp: main_start_def Let_def split: flow.splits if_split_asm fork_result.splits)
  note out = add_logs_Continue [OF l(1)]
  then have m: "map Some (m_outputs (set_logger logs')) =
      map (output_of y) (elements y (at_key y (proc_config p) ''log''))"
    using assms(2) by simp
  have "Some out \<in> output_of y ` set (elements y (at_key y (proc_config p) ''log''))"
    if "out \<in> set (m_outputs (set_logger logs'))" for out
    using that m by (metis imageI list.set_map)
  with out m l(2) show ?thesis by fastforce
qed


section \<open>Concrete runs\<close>

lemma example_fail: "receive_handler example_env Failed example_core = Inr (failed example_env example_core)"
  unfolding failed_def by (rule is_ok_value) code_simp

lemma example_iteration:
  "main_iteration example_env (Core example_core_config) (failed example_env example_core) RESULT_CONNECTION_ERROR"
proof (rule main_iteration.intros [OF example_run])
  have "receiving example_core" by code_simp
  from ce_receive [OF this example_fail]
  show "(core_event example_env)\<^sup>*\<^sup>* example_core (failed example_env example_core)"
    by (rule r_into_rtranclp [where r = "core_event example_env"])
  show "waitForStop (failed example_env example_core) = Inr RESULT_CONNECTION_ERROR" by code_simp
qed

lemma tolerant_iteration:
  "main_iteration tolerant_env (failed tolerant_env example_core)
     (stopped tolerant_env (rerun tolerant_env (failed tolerant_env example_core))) RESULT_CONNECTION_ERROR"
proof (rule main_iteration.intros [OF tolerant_rerun])
  show "(core_event tolerant_env)\<^sup>*\<^sup>* (rerun tolerant_env (failed tolerant_env example_core))
      (stopped tolerant_env (rerun tolerant_env (failed tolerant_env example_core)))"
    by (rule r_into_rtranclp [where r = "core_event tolerant_env", OF ce_stop [OF tolerant_stop]])
  show "waitForStop (stopped tolerant_env (rerun tolerant_env (failed tolerant_env example_core))) =
      Inr RESULT_CONNECTION_ERROR" by code_simp
qed

theorem main_second_session_never_ends_witness:
  "\<not> (\<exists>c' r. main_iteration example_env (failed example_env example_core) c' r)"
  by (rule main_second_session_never_ends [OF _ example_iteration, of "SystemError ''Bad file descriptor''"])
     (simp add: example_env_def)

theorem main_restarts_for_ever_witness:
  "\<not> main_returns_ok tolerant_env (stopped tolerant_env (rerun tolerant_env (failed tolerant_env example_core)))"
  by (rule main_restarts_for_ever [OF tolerant_iteration rtranclp.rtrancl_refl])

theorem main_unknown_error_unreachable_witness:
  "RESULT_CONNECTION_ERROR = RESULT_OK \<or> RESULT_CONNECTION_ERROR = RESULT_CONNECTION_ERROR"
  by (rule main_unknown_error_unreachable [OF main_enter example_iteration])

definition example_log_config :: yaml_node where
  "example_log_config = Mapping [(''log'', Sequence
     [Mapping [(''level'', Scalar ''INFO''), (''file'', Scalar ''-'')],
      Mapping [(''level'', Scalar ''ERROR''), (''file'', Scalar ''bot.log'')]])]"

definition no_logs :: log_setup where
  "no_logs = \<lparr>set_logger = \<lparr>m_outputs = [], m_stream = ''''\<rparr>, set_streams = (\<lambda>_. ''''), stdout_logging = False\<rparr>"

definition example_start :: "bool \<Rightarrow> yaml_node process flow" where
  "example_start daemon = main_start yaml_tree (\<lambda>_. Inr example_log_config) Undefined (\<lambda>_. True) False Child
     no_logs (Options ''bot.yaml'' daemon)"

lemma example_start_continues: "\<exists>p. example_start daemon = Continue p"
proof -
  have t: "case example_start True of Continue _ \<Rightarrow> True | _ \<Rightarrow> False" by code_simp
  have f: "case example_start False of Continue _ \<Rightarrow> True | _ \<Rightarrow> False" by code_simp
  from t f show ?thesis
    by (cases daemon) (cases "example_start True"; cases "example_start False"; simp)+
qed

theorem daemon_has_no_io_thread_witness:
  "\<exists>p. example_start True = Continue p \<and> \<not> io_thread p"
proof -
  obtain p where p: "example_start True = Continue p" using example_start_continues by blast
  with daemon_has_no_io_thread [OF p [unfolded example_start_def]] show ?thesis by simp
qed

theorem log_configuration_witness:
  "\<exists>p. example_start False = Continue p \<and>
     map Some (m_outputs (set_logger (proc_logs p))) =
       map (output_of yaml_tree) (elements yaml_tree (at_key yaml_tree (proc_config p) ''log''))"
proof -
  obtain p where p: "example_start False = Continue p" using example_start_continues by blast
  with log_configuration [OF p [unfolded example_start_def]] show ?thesis by (simp add: no_logs_def)
qed

end
