(* ===== verification/Bundled_Plugins.thy ===== *)
theory Bundled_Plugins
  imports Plugin_Base Irc_Parser
begin

text \<open>
  The plugins shipped under plugins/: \<open>Ping\<close>, \<open>Init\<close>, \<open>Join\<close>, \<open>HelloWorld\<close>, \<open>Uptime\<close>,
  \<open>Clipboard\<close> and \<open>SimpleCommands\<close>, each as its members and its handlers. A handler that reads a
  parameter by index without a check has the fault of the out-of-range read.
\<close>

section \<open>Ping\<close>

definition Ping_onMessage :: "irc_message \<Rightarrow> ('n, 'x) handler" where
  "Ping_onMessage msg = need (vec_back (params msg)) (\<lambda>p. send (IRCMessage ''PONG'' [p]))"

definition Ping_filter :: "irc_message \<Rightarrow> 'x \<Rightarrow> bool result" where
  "Ping_filter msg x = Inr (command msg = ''PING'')"

definition Ping_class :: "('n, 'x) plugin_class" where
  "Ping_class = (base_class ''Ping'')\<lparr>onMessage := Ping_onMessage, filter_message := Ping_filter\<rparr>"

section \<open>Init\<close>

record init =
  m_stage :: "32 word"
  m_alt_nicks :: "string list"
  m_alt_nicks_index :: "32 word"

definition Init :: init where
  "Init = \<lparr>m_stage = 0, m_alt_nicks = [], m_alt_nicks_index = 0\<rparr>"

definition sendNickMsg :: "string \<Rightarrow> ('n, init) handler" where
  "sendNickMsg name = send (IRCMessage ''NICK'' [name])"

definition sendUserMsg :: "string \<Rightarrow> string \<Rightarrow> ('n, init) handler" where
  "sendUserMsg usr realname = send (IRCMessage ''USER'' [usr, ''0'', ''*'', realname])"

definition config_entry :: "'n yaml \<Rightarrow> 'n \<Rightarrow> string \<Rightarrow> 'n" where
  "config_entry y cfg key = at_key y (at_key y cfg ''config'') key"

definition Init_onInit :: "'n yaml \<Rightarrow> ('n, init) handler" where
  "Init_onInit y = reading (\<lambda>w. let entry = config_entry y (w_config w) in
     andThen (for_each (elements y (entry ''alternative_nicks'')) (\<lambda>n.
         need (required (as_string y n)) (\<lambda>s. modify (\<lambda>x. x\<lparr>m_alt_nicks := m_alt_nicks x @ [s]\<rparr>))))
     (andThen (need (required (as_string y (entry ''nick''))) sendNickMsg)
       (need (required (as_string y (entry ''user''))) (\<lambda>usr.
         need (required (as_string y (entry ''real_name''))) (sendUserMsg usr)))))"

definition Init_onMessage :: "irc_message \<Rightarrow> ('n, init) handler" where
  "Init_onMessage msg =
     (if command msg = ''433'' then
        reading (\<lambda>w. need (vec_at (m_alt_nicks (object w)) (unat (m_alt_nicks_index (object w)))) (\<lambda>n.
          andThen (sendNickMsg n) (modify (\<lambda>x. x\<lparr>m_alt_nicks_index := m_alt_nicks_index x + 1\<rparr>))))
      else skip)"

definition Init_filter :: "irc_message \<Rightarrow> init \<Rightarrow> bool result" where
  "Init_filter msg x = Inr (command msg \<in> {''431'', ''433'', ''437'', ''432'', ''436'', ''484''})"

definition Init_class :: "'n yaml \<Rightarrow> ('n, init) plugin_class" where
  "Init_class y = (base_class ''Init'')\<lparr>onInit := Init_onInit y, onMessage := Init_onMessage,
     filter_message := Init_filter\<rparr>"

section \<open>Join\<close>

record join =
  m_channels :: "string set"

text \<open>The body of the loop over the configured channels.\<close>

definition Join_channel :: "'n yaml \<Rightarrow> 'n \<Rightarrow> ('n, join) handler" where
  "Join_channel y p = need (required (as_string y p)) (\<lambda>channel. reading (\<lambda>w.
     if channel \<notin> m_channels (object w) then
       andThen (modify (\<lambda>x. x\<lparr>m_channels := insert channel (m_channels x)\<rparr>))
         (send (IRCMessage ''JOIN'' [channel]))
     else skip))"

definition Join_onInit :: "'n yaml \<Rightarrow> ('n, join) handler" where
  "Join_onInit y = reading (\<lambda>w.
     for_each (elements y (config_entry y (w_config w) ''channels'')) (Join_channel y))"

text \<open>Both branches of the \<open>switch\<close> only log, but read the first two parameters.\<close>

definition Join_onMessage :: "irc_message \<Rightarrow> ('n, join) handler" where
  "Join_onMessage msg = need (stoi (command msg)) (\<lambda>responseCode.
     need (vec_at (params msg) 0) (\<lambda>_. need (vec_at (params msg) 1) (\<lambda>_. skip)))"

definition Join_filter :: "irc_message \<Rightarrow> join \<Rightarrow> bool result" where
  "Join_filter msg x = Inr (command msg \<in>
     {''461'', ''473'', ''474'', ''475'', ''471'', ''476'', ''403'', ''405'', ''332''})"

definition Join_class :: "'n yaml \<Rightarrow> ('n, join) plugin_class" where
  "Join_class y = (base_class ''Join'')\<lparr>onInit := Join_onInit y, onMessage := Join_onMessage,
     filter_message := Join_filter\<rparr>"

section \<open>HelloWorld\<close>

definition HelloWorld_onMessage :: "'n yaml \<Rightarrow> irc_message \<Rightarrow> ('n, 'x) handler" where
  "HelloWorld_onMessage y msg = need (vec_at (params msg) 1) (\<lambda>p1.
     if p1 = ''!hello error'' then throw (RuntimeError ''Hello World plugin error caused by user!'')
     else reading (\<lambda>w. send (IRCMessage ''PRIVMSG'' [nick msg,
       with_default ''HelloWorld plugin'' (as_string y (config_entry y (w_config w) ''message''))])))"

definition HelloWorld_filter :: "irc_message \<Rightarrow> 'x \<Rightarrow> bool result" where
  "HelloWorld_filter msg x = Inr (command msg = ''PRIVMSG'')"

definition HelloWorld_class :: "'n yaml \<Rightarrow> ('n, 'x) plugin_class" where
  "HelloWorld_class y = (base_class ''HelloWorld'')\<lparr>onMessage := HelloWorld_onMessage y,
     filter_message := HelloWorld_filter\<rparr>"

section \<open>Uptime\<close>

text \<open>
  \<open>duration_cast\<close> truncates towards zero; the counts are stored in \<open>uint32_t\<close>, and
  \<open>uptime\<close> keeps its nanoseconds.
\<close>

definition uptime_split :: "int \<Rightarrow> 32 word \<times> 32 word \<times> 32 word \<times> 32 word" where
  "uptime_split uptime =
     (let second = 1000000000;
          d = word_of_int (uptime div (86400 * second)); uptime = uptime - uint d * (86400 * second);
          h = word_of_int (uptime div (3600 * second)); uptime = uptime - uint h * (3600 * second);
          m = word_of_int (uptime div (60 * second)); uptime = uptime - uint m * (60 * second);
          s = word_of_int (uptime div second)
      in (d, h, m, s))"

definition uptime_text :: "int \<Rightarrow> string" where
  "uptime_text uptime = (case uptime_split uptime of (d, h, m, s) \<Rightarrow>
     [CHR 0x03] @ ''03,01[Uptime = '' @ to_string (unat d) @ '' days '' @ to_string (unat h) @ ''h '' @
     to_string (unat m) @ ''m '' @ to_string (unat s) @ ''s]'' @ [CHR 0x0F])"

definition Uptime_onMessage :: "irc_message \<Rightarrow> ('n, 'x) handler" where
  "Uptime_onMessage msg = reading (\<lambda>w. need (responseDestination msg False) (\<lambda>dest.
     send (IRCMessage ''PRIVMSG'' [dest, uptime_text (w_uptime w)])))"

definition Uptime_filter :: "irc_message \<Rightarrow> 'x \<Rightarrow> bool result" where
  "Uptime_filter msg x =
     (if command msg = ''PRIVMSG'' then
        bind_result (vec_at (params msg) 1) (\<lambda>p1. Inr (startsWith p1 ''!uptime''))
      else Inr False)"

text \<open>\<open>getName\<close> returns the name of the plugin it was copied from.\<close>

definition Uptime_class :: "('n, 'x) plugin_class" where
  "Uptime_class = (base_class ''HelloWorld'')\<lparr>onMessage := Uptime_onMessage, filter_message := Uptime_filter\<rparr>"

section \<open>SimpleCommands\<close>

definition helpCommand :: "cmd \<Rightarrow> ('n, 'x) handler" where
  "helpCommand c = andThen (send (IRCMessage ''PRIVMSG'' [''KolK'', ''help invoked!'']))
     (if arguments c \<noteq> [] then
        andThen (send (IRCMessage ''PRIVMSG'' [''KolK'', ''with arguments: '']))
        (andThen (for_each (arguments c) (\<lambda>x. send (IRCMessage ''PRIVMSG'' [''KolK'', x])))
          (send (IRCMessage ''PRIVMSG'' [''KolK'', toString (cmd_irc_message c) False])))
      else skip)"

definition SimpleCommands :: "'x \<Rightarrow> 'n plugin_config \<Rightarrow> ('n, 'x) plugin" where
  "SimpleCommands x config = addFunction ''help'' helpCommand
     (installCommandParser \<lparr>prefix = CHR ''!'', parseOneCommand = True\<rparr>
       (Plugin (base_class ''SimpleCommands'') x config))"

section \<open>Clipboard\<close>

record clipboard =
  m_clipboard :: "string \<rightharpoonup> string list"
  m_size :: nat
  m_message_size :: nat

definition Clipboard :: clipboard where
  "Clipboard = \<lparr>m_clipboard = Map.empty, m_size = 10, m_message_size = 512\<rparr>"

text \<open>\<open>m_clipboard[name]\<close> inserts an empty vector for a name it does not have.\<close>

definition slots :: "string \<Rightarrow> clipboard \<Rightarrow> string list" where
  "slots name x = (case m_clipboard x name of Some c \<Rightarrow> c | None \<Rightarrow> [])"

definition set_slots :: "string \<Rightarrow> string list \<Rightarrow> clipboard \<Rightarrow> clipboard" where
  "set_slots name c x = x\<lparr>m_clipboard := (m_clipboard x)(name \<mapsto> c)\<rparr>"

definition touch :: "string \<Rightarrow> clipboard \<Rightarrow> clipboard" where
  "touch name x = set_slots name (slots name x) x"

definition privmsg :: "string \<Rightarrow> string \<Rightarrow> ('n, 'x) handler" where
  "privmsg name content = send (IRCMessage ''PRIVMSG'' [name, content])"

definition clip_save :: "string \<Rightarrow> string \<Rightarrow> ('n, clipboard) handler" where
  "clip_save name data = reading (\<lambda>w. let content = drop 6 data in
     if length content > m_message_size (object w) then
       privmsg name (''Your message is too big. Limit is '' @ to_string (m_message_size (object w)) @ '' bytes.'')
     else andThen (modify (touch name)) (reading (\<lambda>w.
       if length (slots name (object w)) < m_size (object w) then
         modify (\<lambda>x. set_slots name (slots name x @ [drop 6 data]) x)
       else privmsg name ''You have no free slots in clipboard! Remove something!'')))"

definition clip_list :: "string \<Rightarrow> ('n, clipboard) handler" where
  "clip_list name = andThen (privmsg name ''This is your clipboard:'')
     (andThen (modify (touch name)) (reading (\<lambda>w.
       for_each [0 ..< length (slots name (object w))] (\<lambda>i.
         privmsg name (to_string i @ '' $ '' @ slots name (object w) ! i)))))"

definition clip_help :: "string \<Rightarrow> ('n, clipboard) handler" where
  "clip_help name = privmsg name (''Commands: !clip - save to clipboard,'' @
     ''!clip-help - this message, '' @ ''!clip-ls - list clipboard content, '' @
     ''!clip-rm $index - remove paste with number $index'')"

text \<open>
  An index below the size is not below zero for certain: \<open>begin() + index\<close> with a negative index is
  undefined.
\<close>

definition clip_remove :: "string \<Rightarrow> string \<Rightarrow> ('n, clipboard) handler" where
  "clip_remove name data = need (substr_from data 9) (\<lambda>number. need (stoi number) (\<lambda>index.
     andThen (modify (touch name)) (reading (\<lambda>w. let c = slots name (object w) in
       if index < int (length c) then
         (if index < 0 then throw UndefinedBehaviour
          else modify (set_slots name (take (nat index) c @ drop (Suc (nat index)) c)))
       else privmsg name ''Index is too large!''))))"

definition clip_name :: "irc_message \<Rightarrow> string \<Rightarrow> string" where
  "clip_name msg p0 = (if \<not> isIn (first_char p0) ''+&#!'' then nick msg else p0)"

definition Clipboard_onMessage :: "irc_message \<Rightarrow> ('n, clipboard) handler" where
  "Clipboard_onMessage msg = need (vec_at (params msg) 0) (\<lambda>p0. need (vec_at (params msg) 1) (\<lambda>data.
     let name = clip_name msg p0 in
     if take 5 data = ''!clip'' then
       need (str_at data 5) (\<lambda>c.
         if c = SPC then clip_save name data
         else if startsWith data ''!clip-ls'' then clip_list name
         else if startsWith data ''!clip-help'' then clip_help name
         else if startsWith data ''!clip-rm'' then clip_remove name data
         else skip)
     else skip))"

definition Clipboard_filter :: "irc_message \<Rightarrow> clipboard \<Rightarrow> bool result" where
  "Clipboard_filter msg x = Inr (command msg = ''PRIVMSG'')"

definition Clipboard_onNewConfiguration :: "'n yaml \<Rightarrow> ('n, clipboard) handler" where
  "Clipboard_onNewConfiguration y = reading (\<lambda>w.
     need (required (as_size y (config_entry y (w_config w) ''size''))) (\<lambda>n.
       andThen (modify (\<lambda>x. x\<lparr>m_size := n\<rparr>))
         (need (required (as_size y (config_entry y (w_config w) ''message_size''))) (\<lambda>k.
           modify (\<lambda>x. x\<lparr>m_message_size := k\<rparr>)))))"

definition Clipboard_class :: "'n yaml \<Rightarrow> ('n, clipboard) plugin_class" where
  "Clipboard_class y = (base_class ''Clipboard'')\<lparr>onMessage := Clipboard_onMessage,
     onNewConfiguration := Clipboard_onNewConfiguration y, filter_message := Clipboard_filter\<rparr>"


section \<open>Lemmas\<close>

lemma world_update_order [simp]:
  "w\<lparr>effects := es, object := x\<rparr> = w\<lparr>object := x, effects := es\<rparr>"
  by (cases w) simp

lemma for_each_send:
  "for_each xs (\<lambda>x. send (g x)) w = (None, w\<lparr>effects := effects w @ map (\<lambda>x. Send (g x)) xs\<rparr>)"
  by (induction xs arbitrary: w) (simp_all add: handler_simps)

lemma privmsg_exec [handler_simps]:
  "privmsg name t w = (None, w\<lparr>effects := effects w @ [Send (IRCMessage ''PRIVMSG'' [name, t])]\<rparr>)"
  by (simp add: privmsg_def handler_simps)

lemma line_safe_last: "message_ok m \<Longrightarrow> params m \<noteq> [] \<Longrightarrow> line_safe (last (params m))"
  by (auto simp: message_ok_def)

lemma canonical_pong: "line_safe s \<Longrightarrow> canonical (IRCMessage ''PONG'' [s])"
  by (simp add: canonical_def canonical_prefix_def canonical_command_def canonical_params_def
      has_prefix_def is_alpha_def is_digit_def less_eq_char_def)

subsection \<open>Init and Join\<close>

lemma Init_onMessage_433:
  assumes "command msg = ''433''"
  shows "Init_onMessage msg w =
    (let x = object w; i = unat (m_alt_nicks_index x) in
     if i < length (m_alt_nicks x) then
       (None, w\<lparr>object := x\<lparr>m_alt_nicks_index := m_alt_nicks_index x + 1\<rparr>,
          effects := effects w @ [Send (IRCMessage ''NICK'' [m_alt_nicks x ! i])]\<rparr>)
     else (Some UndefinedBehaviour, w))"
  using assms by (simp add: Init_onMessage_def vec_at_def sendNickMsg_def handler_simps Let_def)

lemma Init_nicks_loop:
  assumes "\<forall>msg \<in> set ms. command msg = ''433''" and "length (m_alt_nicks (object w)) < 2 ^ 32"
    and "unat (m_alt_nicks_index (object w)) \<le> length (m_alt_nicks (object w))"
  defines "left \<equiv> drop (unat (m_alt_nicks_index (object w))) (m_alt_nicks (object w))"
  shows "\<exists>w'. for_each ms Init_onMessage w =
     (if length ms \<le> length left then None else Some UndefinedBehaviour, w') \<and>
     effects w' = effects w @ map (\<lambda>n. Send (IRCMessage ''NICK'' [n])) (take (length ms) left)"
  using assms(1-3) unfolding left_def
proof (induction ms arbitrary: w)
  case Nil
  show ?case by (simp add: handler_simps)
next
  case (Cons m ms)
  let ?x = "object w" and ?ns = "m_alt_nicks (object w)"
  let ?i = "unat (m_alt_nicks_index ?x)"
  have m: "command m = ''433''" using Cons.prems(1) by simp
  show ?case
  proof (cases "?i < length ?ns")
    case False
    then show ?thesis
      using Cons.prems(3) m by (simp add: Init_onMessage_433 andThen_def Let_def)
  next
    case True
    let ?w = "w\<lparr>object := ?x\<lparr>m_alt_nicks_index := m_alt_nicks_index ?x + 1\<rparr>,
       effects := effects w @ [Send (IRCMessage ''NICK'' [?ns ! ?i])]\<rparr>"
    have "unat (m_alt_nicks_index ?x + 1) = Suc ?i"
      using True Cons.prems(2) by (subst unat_word_ariths) simp
    with True have i: "unat (m_alt_nicks_index (object ?w)) = Suc ?i" by simp
    have d: "drop ?i ?ns = ?ns ! ?i # drop (Suc ?i) ?ns" using True by (simp add: Cons_nth_drop_Suc)
    have "Init_onMessage m w = (None, ?w)" using True m by (simp add: Init_onMessage_433 Let_def)
    then have "for_each (m # ms) Init_onMessage w = for_each ms Init_onMessage ?w"
      by (simp add: andThen_def)
    with Cons.IH [of ?w] Cons.prems i True d show ?thesis by auto
  qed
qed

lemma Join_channel_exec:
  "as_string y p = Some c \<Longrightarrow> Join_channel y p w =
     (None, if c \<in> m_channels (object w) then w
       else w\<lparr>object := (object w)\<lparr>m_channels := insert c (m_channels (object w))\<rparr>,
              effects := effects w @ [Send (IRCMessage ''JOIN'' [c])]\<rparr>)"
  by (simp add: Join_channel_def handler_simps)

lemma Join_loop:
  assumes "list_all2 (\<lambda>p c. as_string y p = Some c) ps cs"
  shows "\<exists>w' js. for_each ps (Join_channel y) w = (None, w') \<and>
     m_channels (object w') = m_channels (object w) \<union> set cs \<and>
     effects w' = effects w @ map (\<lambda>c. Send (IRCMessage ''JOIN'' [c])) js \<and>
     distinct js \<and> set js = set cs - m_channels (object w)"
  using assms
proof (induction ps cs arbitrary: w rule: list_all2_induct)
  case Nil
  show ?case by (simp add: handler_simps)
next
  case (Cons p ps c cs)
  define v where "v = (if c \<in> m_channels (object w) then w
       else w\<lparr>object := (object w)\<lparr>m_channels := insert c (m_channels (object w))\<rparr>,
              effects := effects w @ [Send (IRCMessage ''JOIN'' [c])]\<rparr>)"
  obtain w' js where IH: "for_each ps (Join_channel y) v = (None, w')"
    "m_channels (object w') = m_channels (object v) \<union> set cs"
    "effects w' = effects v @ map (\<lambda>c. Send (IRCMessage ''JOIN'' [c])) js"
    "distinct js" "set js = set cs - m_channels (object v)"
    using Cons.IH [of v] by blast
  from IH(1) have "for_each (p # ps) (Join_channel y) w = (None, w')"
    using Join_channel_exec [of y p c w] Cons.hyps(1) by (simp add: andThen_def v_def)
  then show ?case
    using IH(2-) by (intro exI [of _ w'] exI [of _ "if c \<in> m_channels (object w) then js else c # js"])
      (auto simp: v_def)
qed

subsection \<open>Uptime\<close>

lemma uint_word_of_int_small: "0 \<le> v \<Longrightarrow> v < 2 ^ 32 \<Longrightarrow> uint (word_of_int v :: 32 word) = v"
  by (simp add: uint_word_of_int)

lemma div_split: "0 < (b::int) \<Longrightarrow> a - a div b * b = a mod b"
  by (metis minus_div_mult_eq_mod)


text \<open>Successive remainders by \<open>a\<close>, \<open>b\<close>, \<open>c\<close> in units of \<open>e\<close>.\<close>

lemma split_units:
  fixes u :: int
  assumes "0 \<le> u" and "(0::int) < e"
  defines "d \<equiv> u div (86400 * e)" and "r1 \<equiv> u mod (86400 * e)"
  defines "h \<equiv> r1 div (3600 * e)" and "r2 \<equiv> r1 mod (3600 * e)"
  defines "m \<equiv> r2 div (60 * e)" and "r3 \<equiv> r2 mod (60 * e)"
  defines "s \<equiv> r3 div e"
  shows "0 \<le> d" "0 \<le> h" "h < 24" "0 \<le> m" "m < 60" "0 \<le> s" "s < 60"
    "d * 86400 + h * 3600 + m * 60 + s = u div e"
proof -
  have u: "u = d * (86400 * e) + r1" and r1: "0 \<le> r1" "r1 < 24 * (3600 * e)"
    using assms(2) unfolding d_def r1_def by simp_all (metis mod_div_decomp)
  have r1': "r1 = h * (3600 * e) + r2" and r2: "0 \<le> r2" "r2 < 60 * (60 * e)"
    using assms(2) unfolding h_def r2_def by simp_all (metis mod_div_decomp)
  have r2': "r2 = m * (60 * e) + r3" and r3: "0 \<le> r3" "r3 < 60 * e"
    using assms(2) unfolding m_def r3_def by simp_all (metis mod_div_decomp)
  have r3': "r3 = s * e + r3 mod e" by (simp add: s_def)
  show "0 \<le> d" "0 \<le> h" "0 \<le> m" "0 \<le> s"
    using assms(1,2) r1(1) r2(1) r3(1) by (simp_all add: d_def h_def m_def s_def pos_imp_zdiv_nonneg_iff)
  have lt: "q div k < n" if "0 < k" "q < n * k" for q k n :: int
  proof (rule ccontr)
    assume "\<not> q div k < n"
    with that(1) have "n * k \<le> q div k * k" by (intro mult_right_mono) simp_all
    also have "\<dots> \<le> q" using div_mult_mod_eq [of q k] pos_mod_sign [OF that(1), of q] by linarith
    finally show False using that(2) by simp
  qed
  show "h < 24" using lt [of "3600 * e" r1 24] r1(2) assms(2) by (simp add: h_def)
  show "m < 60" using lt [of "60 * e" r2 60] r2(2) assms(2) by (simp add: m_def)
  show "s < 60" using lt [of e r3 60] r3(2) assms(2) by (simp add: s_def)
  have "u = (d * 86400 + h * 3600 + m * 60 + s) * e + r3 mod e"
    using u r1' r2' r3' by (simp add: algebra_simps)
  then have "u div e = d * 86400 + h * 3600 + m * 60 + s + (r3 mod e) div e"
    using assms(2) by (metis add.commute div_mult_self3 less_irrefl)
  then show "d * 86400 + h * 3600 + m * 60 + s = u div e"
    using assms(2) by (simp add: div_pos_pos_trivial)
qed

subsection \<open>Clipboard\<close>

lemma slots_set_slots [simp]: "slots n (set_slots m c x) = (if n = m then c else slots n x)"
  by (simp add: slots_def set_slots_def)

lemma set_slots_simps [simp]:
  "set_slots n c (set_slots n d x) = set_slots n c x"
  "m_size (set_slots n c x) = m_size x" "m_message_size (set_slots n c x) = m_message_size x"
  by (simp_all add: set_slots_def)

lemma touch_simps [simp]:
  "slots n (touch m x) = slots n x" "set_slots m c (touch m x) = set_slots m c x"
  "m_size (touch m x) = m_size x" "m_message_size (touch m x) = m_message_size x"
  by (simp_all add: touch_def)

lemma clip_save_exec:
  "clip_save name data w = (None,
     if length (drop 6 data) > m_message_size (object w) then
       w\<lparr>effects := effects w @ [Send (IRCMessage ''PRIVMSG'' [name,
         ''Your message is too big. Limit is '' @ to_string (m_message_size (object w)) @ '' bytes.''])]\<rparr>
     else if length (slots name (object w)) < m_size (object w) then
       w\<lparr>object := set_slots name (slots name (object w) @ [drop 6 data]) (object w)\<rparr>
     else w\<lparr>object := touch name (object w), effects := effects w @ [Send (IRCMessage ''PRIVMSG''
       [name, ''You have no free slots in clipboard! Remove something!''])]\<rparr>)"
  by (simp add: clip_save_def Let_def andThen_def handler_simps)

lemma clip_list_exec:
  "clip_list name w = (None, w\<lparr>object := touch name (object w), effects := effects w @
     Send (IRCMessage ''PRIVMSG'' [name, ''This is your clipboard:'']) #
     map (\<lambda>i. Send (IRCMessage ''PRIVMSG'' [name, to_string i @ '' $ '' @ slots name (object w) ! i]))
       [0 ..< length (slots name (object w))]\<rparr>)"
  by (simp add: clip_list_def andThen_def handler_simps privmsg_def for_each_send)

lemma clip_remove_exec:
  "clip_remove name data w =
     (if length data < 9 then (Some OutOfRange, w)
      else (case stoi (drop 9 data) of Inl e \<Rightarrow> (Some e, w)
        | Inr index \<Rightarrow> let c = slots name (object w) in
          if int (length c) \<le> index then
            (None, w\<lparr>object := touch name (object w), effects := effects w @ [Send (IRCMessage ''PRIVMSG''
              [name, ''Index is too large!''])]\<rparr>)
          else if index < 0 then (Some UndefinedBehaviour, w\<lparr>object := touch name (object w)\<rparr>)
          else (None, w\<lparr>object := set_slots name (take (nat index) c @ drop (Suc (nat index)) c) (object w)\<rparr>)))"
  by (auto simp: clip_remove_def substr_from_def andThen_def handler_simps Let_def split: sum.split)

lemma Clipboard_onMessage_two:
  "params msg = p0 # data # ps \<Longrightarrow> take 5 data = ''!clip'' \<Longrightarrow> Clipboard_onMessage msg w =
     (let name = clip_name msg p0 in
      if length data > 5 \<and> data ! 5 = SPC then clip_save name data w
      else if startsWith data ''!clip-ls'' then clip_list name w
      else if startsWith data ''!clip-help'' then clip_help name w
      else if startsWith data ''!clip-rm'' then clip_remove name data w
      else (None, w))"
proof -
  assume m: "params msg = p0 # data # ps" and t: "take 5 data = ''!clip''"
  from t have "length (take 5 data) = 5" by simp
  then have "5 \<le> length data" by (simp only: length_take)
  then show ?thesis
    using m t by (auto simp: Clipboard_onMessage_def fault_simps handler_simps str_at_def Let_def)
qed

lemma Clipboard_onMessage_other:
  "params msg = p0 # data # ps \<Longrightarrow> take 5 data \<noteq> ''!clip'' \<Longrightarrow> Clipboard_onMessage msg w = (None, w)"
  by (simp add: Clipboard_onMessage_def fault_simps handler_simps Let_def numeral_eq_Suc)

lemma Clipboard_onMessage_short:
  "length (params msg) < 2 \<Longrightarrow> Clipboard_onMessage msg w = (Some UndefinedBehaviour, w)"
  by (cases "params msg"; cases "tl (params msg)")
    (auto simp: Clipboard_onMessage_def fault_simps handler_simps vec_at_def)

lemma startsWith_clip_save: "startsWith data ''!clip '' \<longleftrightarrow> take 5 data = ''!clip'' \<and> length data > 5 \<and> data ! 5 = SPC"
  by (auto simp: startsWith_append nth_append) (metis append_Cons append_take_drop_id Cons_nth_drop_Suc append_self_conv2 append.assoc append_Nil)+

definition clipboard_ok :: "clipboard \<Rightarrow> bool" where
  "clipboard_ok x \<longleftrightarrow> (\<forall>name. length (slots name x) \<le> m_size x \<and>
     (\<forall>c \<in> set (slots name x). length c \<le> m_message_size x))"

definition same_sizes :: "clipboard \<Rightarrow> clipboard \<Rightarrow> bool" where
  "same_sizes x y \<longleftrightarrow> m_size x = m_size y \<and> m_message_size x = m_message_size y"

lemma clipboard_ok_set_slots:
  "clipboard_ok x \<Longrightarrow> length c \<le> m_size x \<Longrightarrow> \<forall>q \<in> set c. length q \<le> m_message_size x \<Longrightarrow>
   clipboard_ok (set_slots name c x)"
  by (auto simp: clipboard_ok_def)

lemma clipboard_ok_touch: "clipboard_ok x \<Longrightarrow> clipboard_ok (touch name x)"
  by (simp add: clipboard_ok_def)

lemma clip_save_ok:
  "clipboard_ok (object w) \<Longrightarrow> clipboard_ok (object (snd (clip_save name data w))) \<and>
     same_sizes (object (snd (clip_save name data w))) (object w)"
  by (auto simp: clip_save_exec same_sizes_def clipboard_ok_touch clipboard_ok_def)

lemma clip_remove_ok:
  assumes "clipboard_ok (object w)"
  shows "clipboard_ok (object (snd (clip_remove name data w))) \<and>
     same_sizes (object (snd (clip_remove name data w))) (object w)"
proof -
  have "clipboard_ok (set_slots name (take n c @ drop (Suc n) c) (object w))"
    if c: "c = slots name (object w)" for n c
  proof (rule clipboard_ok_set_slots [OF assms])
    have "length (take n c @ drop (Suc n) c) \<le> length c" by simp
    also have "\<dots> \<le> m_size (object w)" using assms c by (simp add: clipboard_ok_def)
    finally show "length (take n c @ drop (Suc n) c) \<le> m_size (object w)" .
    have "set (take n c @ drop (Suc n) c) \<subseteq> set c" by (auto dest: in_set_takeD in_set_dropD)
    with assms c show "\<forall>q \<in> set (take n c @ drop (Suc n) c). length q \<le> m_message_size (object w)"
      unfolding clipboard_ok_def by blast
  qed
  then show ?thesis
    using assms by (auto simp: clip_remove_exec same_sizes_def clipboard_ok_touch Let_def split: sum.split)
qed

lemma clip_other_ok:
  "clipboard_ok (object w) \<Longrightarrow> clipboard_ok (object (snd (clip_list name w))) \<and>
     same_sizes (object (snd (clip_list name w))) (object w)"
  "clipboard_ok (object w) \<Longrightarrow> clipboard_ok (object (snd (clip_help name w))) \<and>
     same_sizes (object (snd (clip_help name w))) (object w)"
  by (simp_all add: clip_list_exec clip_help_def privmsg_exec same_sizes_def clipboard_ok_touch)

lemma Clipboard_onMessage_ok:
  assumes "clipboard_ok (object w)"
  shows "clipboard_ok (object (snd (Clipboard_onMessage msg w))) \<and>
     same_sizes (object (snd (Clipboard_onMessage msg w))) (object w)"
proof (cases "length (params msg) < 2")
  case True
  with assms show ?thesis by (simp add: Clipboard_onMessage_short same_sizes_def)
next
  case False
  then obtain p0 data ps where m: "params msg = p0 # data # ps"
    by (cases "params msg"; cases "tl (params msg)") auto
  show ?thesis
  proof (cases "take 5 data = ''!clip''")
    case True
    then show ?thesis
      using clip_save_ok [OF assms] clip_remove_ok [OF assms] clip_other_ok [OF assms] assms
      unfolding Clipboard_onMessage_two [OF m True] Let_def by (auto simp: same_sizes_def)
  next
    case False
    with m assms show ?thesis by (simp add: Clipboard_onMessage_other same_sizes_def)
  qed
qed


section \<open>Properties\<close>

text \<open>
  Remark: whatever the server sends, in whatever pieces, a ping that the parser delivers with a
  parameter is answered with one \<open>PONG\<close> that carries the last parameter, and the text of that
  answer is exactly one message for a reader of the protocol: no content of a ping can inject a
  second line.
\<close>

theorem ping_replies_one_line:
  assumes "parser_reach p" and "getMessage p = Inr (msg, q)" and "params msg \<noteq> []" and "idle r"
  defines "pong \<equiv> IRCMessage ''PONG'' [last (params msg)]"
  shows "Ping_onMessage msg w = (None, w\<lparr>effects := effects w @ [Send pong]\<rparr>) \<and>
    parse r (toString pong False) = push_message pong r"
proof -
  have "line_safe (last (params msg))"
    using parser_ok_getMessage [OF parser_reach_ok [OF assms(1)] assms(2)] assms(3) line_safe_last
    by blast
  then have "parse r (toString pong False) = push_message pong r"
    using assms(4) canonical_pong by (simp add: pong_def parse_def lexer_def lex_line)
  moreover have "Ping_onMessage msg w = (None, w\<lparr>effects := effects w @ [Send pong]\<rparr>)"
    using assms(3) by (simp add: Ping_onMessage_def vec_back_Inr handler_simps pong_def)
  ultimately show ?thesis by blast
qed

text \<open>
  Remark: the parser delivers a \<open>PING\<close> with a space and no parameter, the plugin's filter accepts
  it, and its handler reads \<open>back()\<close> of the empty vector.
\<close>

theorem ping_without_parameter_undefined:
  "getMessage (parse new_IRCParser (''PING '' @ [CR, LF])) = Inr (IRCMessage ''PING'' [], new_IRCParser) \<and>
   Ping_filter (IRCMessage ''PING'' []) x = Inr True \<and>
   Ping_onMessage (IRCMessage ''PING'' []) w = (Some UndefinedBehaviour, w)"
proof -
  have "getMessage (parse new_IRCParser (''PING '' @ [CR, LF])) = Inr (IRCMessage ''PING'' [], new_IRCParser)"
    by code_simp
  then show ?thesis by (simp add: Ping_filter_def Ping_onMessage_def fault_simps handler_simps)
qed

text \<open>
  Remark: the \<open>Init\<close> plugin answers the first \<open>n\<close> rejected nicks with the first \<open>n\<close> alternatives
  in order; the rejection after the last alternative reads past the end of the list.
\<close>

theorem init_tries_alternative_nicks:
  assumes "\<forall>msg \<in> set ms. command msg = ''433''" and "m_alt_nicks (object w) = nicks"
    and "m_alt_nicks_index (object w) = 0" and "length nicks < 2 ^ 32"
  shows "\<exists>w'. for_each ms Init_onMessage w =
      (if length ms \<le> length nicks then None else Some UndefinedBehaviour, w') \<and>
    effects w' = effects w @ map (\<lambda>n. Send (IRCMessage ''NICK'' [n])) (take (length ms) nicks)"
  using Init_nicks_loop [OF assms(1), of w] assms(2-4) by simp

text \<open>
  Remark: on start, \<open>Join\<close> sends one \<open>JOIN\<close> for each configured channel it has not joined before,
  however often the channel is listed, and a restart of the plugin joins none of them again.
\<close>

theorem join_each_channel_once:
  assumes "list_all2 (\<lambda>p c. as_string y p = Some c)
      (elements y (config_entry y (w_config w) ''channels'')) cs"
  shows "\<exists>w' js. Join_onInit y w = (None, w') \<and>
     effects w' = effects w @ map (\<lambda>c. Send (IRCMessage ''JOIN'' [c])) js \<and>
     distinct js \<and> set js = set cs - m_channels (object w) \<and>
     m_channels (object w') = m_channels (object w) \<union> set cs"
  using Join_loop [OF assms, of w] by (auto simp: Join_onInit_def handler_simps)

text \<open>
  Remark: the days, hours, minutes and seconds the \<open>Uptime\<close> plugin prints add up to the uptime in
  whole seconds, with hours, minutes and seconds in range, until the days leave 32 bits.
\<close>

theorem uptime_split_correct:
  assumes "0 \<le> uptime" and "uptime div (86400 * 1000000000) < 2 ^ 32"
    and "uptime_split uptime = (d, h, m, s)"
  shows "uint d * 86400 + uint h * 3600 + uint m * 60 + uint s = uptime div 1000000000 \<and>
    uint h < 24 \<and> uint m < 60 \<and> uint s < 60"
proof -
  have eq: "a - a div b * b = a mod b" for a b :: int by (metis minus_div_mult_eq_mod)
  define r1 where "r1 = uptime mod (86400 * 1000000000)"
  define r2 where "r2 = r1 mod (3600 * 1000000000)"
  define r3 where "r3 = r2 mod (60 * 1000000000)"
  have "0 < (1000000000::int)" by simp
  note units = split_units [OF assms(1) this, folded r1_def, folded r2_def, folded r3_def]
  have small: "(24::int) < 2 ^ 32" "(60::int) < 2 ^ 32" by simp_all
  note ud = uint_word_of_int_small [OF units(1) assms(2)]
    and uh = uint_word_of_int_small [OF units(2) less_trans [OF units(3) small(1)]]
    and um = uint_word_of_int_small [OF units(4) less_trans [OF units(5) small(2)]]
    and us = uint_word_of_int_small [OF units(6) less_trans [OF units(7) small(2)]]

  have "uptime_split uptime = (word_of_int (uptime div (86400 * 1000000000)),
      word_of_int (r1 div (3600 * 1000000000)), word_of_int (r2 div (60 * 1000000000)),
      word_of_int (r3 div 1000000000))"
    unfolding uptime_split_def Let_def ud eq r1_def [symmetric] uh r2_def [symmetric] um r3_def [symmetric] ..
  then have "d = word_of_int (uptime div (86400 * 1000000000))" "h = word_of_int (r1 div (3600 * 1000000000))"
    "m = word_of_int (r2 div (60 * 1000000000))" "s = word_of_int (r3 div 1000000000)"
    unfolding assms(3) prod.inject by blast+
  then have parts: "uint d = uptime div (86400 * 1000000000)" "uint h = r1 div (3600 * 1000000000)"
    "uint m = r2 div (60 * 1000000000)" "uint s = r3 div 1000000000"
    by (simp_all only: ud uh um us)
  show ?thesis unfolding parts using units(3,5,7,8) by (intro conjI)
qed

text \<open>
  Remark: a \<open>PRIVMSG\<close> with a single parameter is enough for the filter of \<open>Uptime\<close>, which the
  core calls on its own thread, to read past the parameters.
\<close>

theorem uptime_filter_undefined:
  "getMessage (parse new_IRCParser (''PRIVMSG bot'' @ [CR, LF])) =
     Inr (IRCMessage ''PRIVMSG'' [''bot''], new_IRCParser) \<and>
   Uptime_filter (IRCMessage ''PRIVMSG'' [''bot'']) x = Inl UndefinedBehaviour"
proof -
  have "getMessage (parse new_IRCParser (''PRIVMSG bot'' @ [CR, LF])) =
      Inr (IRCMessage ''PRIVMSG'' [''bot''], new_IRCParser)"
    by code_simp
  then show ?thesis by (simp add: Uptime_filter_def vec_at_def)
qed

text \<open>
  C39: no message makes a clipboard longer than the configured size or stores a text longer than
  the configured message size, on every branch and also when the handler throws.
\<close>

theorem clipboard_bounded:
  assumes "clipboard_ok (object w)" and "Clipboard_onMessage msg w = (f, w')"
  shows "clipboard_ok (object w') \<and> m_size (object w') = m_size (object w) \<and>
    m_message_size (object w') = m_message_size (object w)"
  using Clipboard_onMessage_ok [OF assms(1), of msg] assms(2) by (simp add: same_sizes_def)

text \<open>
  Remark: for a message with two parameters, the handler fails exactly on a removal whose index is
  missing, is not a number, does not fit an \<open>int\<close>, or is negative; a negative index is undefined
  behaviour, triggered by any user of the channel.
\<close>

theorem clipboard_fault_iff:
  assumes "params msg = p0 # data # ps"
  shows "fst (Clipboard_onMessage msg w) = Some e \<longleftrightarrow>
    startsWith data ''!clip-rm'' \<and>
    (if data = ''!clip-rm'' then e = OutOfRange
     else stoi (drop 9 data) = Inl e \<or> (\<exists>i<0. stoi (drop 9 data) = Inr i \<and> e = UndefinedBehaviour))"
proof (cases "take 5 data = ''!clip''")
  case False
  then have "\<not> startsWith data ''!clip-rm''" by (auto simp: startsWith_append)
  with False assms show ?thesis by (simp add: Clipboard_onMessage_other)
next
  case True
  have none: "fst (clip_save n d w) = None" "fst (clip_list n w) = None" "fst (clip_help n w) = None" for n d
    by (simp_all add: clip_save_exec clip_list_exec clip_help_def privmsg_exec)
  show ?thesis
  proof (cases "startsWith data ''!clip-rm''")
    case False
    with none show ?thesis
      unfolding Clipboard_onMessage_two [OF assms True] Let_def by auto
  next
    case rm: True
    then obtain rest where rest: "data = ''!clip-rm'' @ rest" by (auto simp: startsWith_append)
    have "Clipboard_onMessage msg w = clip_remove (clip_name msg p0) data w"
      using rm unfolding Clipboard_onMessage_two [OF assms True] Let_def rest
      by (simp add: startsWith_append)
    then show ?thesis
      using rm rest by (cases rest) (auto simp: clip_remove_exec Let_def split: sum.split)
  qed
qed

text \<open>
  Remark: what is saved in a channel with a free slot is stored after the entries already there,
  and a later listing prints all of them with their indices in that order; no other clipboard changes.
\<close>

theorem clipboard_save_then_list:
  assumes "isIn (first_char chan) ''+&#!''" and "params m1 = [chan, ''!clip '' @ content]"
    and "params m2 = [chan, ''!clip-ls'']"
    and "length content \<le> m_message_size (object w)" and "length (slots chan (object w)) < m_size (object w)"
  defines "items \<equiv> slots chan (object w) @ [content]"
  shows "\<exists>w1 w2. Clipboard_onMessage m1 w = (None, w1) \<and> effects w1 = effects w \<and>
    (\<forall>n. slots n (object w1) = (if n = chan then items else slots n (object w))) \<and>
    Clipboard_onMessage m2 w1 = (None, w2) \<and>
    effects w2 = effects w @ Send (IRCMessage ''PRIVMSG'' [chan, ''This is your clipboard:'']) #
      map (\<lambda>i. Send (IRCMessage ''PRIVMSG'' [chan, to_string i @ '' $ '' @ items ! i])) [0 ..< length items]"
proof -
  have n: "clip_name m chan = chan" for m using assms(1) by (simp add: clip_name_def)
  let ?w1 = "w\<lparr>object := set_slots chan items (object w)\<rparr>"
  have 1: "Clipboard_onMessage m1 w = (None, ?w1)"
    using assms(4,5) Clipboard_onMessage_two [OF assms(2), of w]
    by (simp add: n clip_save_exec items_def)
  have 2: "Clipboard_onMessage m2 ?w1 = clip_list chan ?w1"
    using Clipboard_onMessage_two [OF assms(3), of ?w1] by (simp add: n startsWith_append)
  show ?thesis
    by (intro exI [of _ ?w1] exI [of _ "snd (clip_list chan ?w1)"] conjI)
      (simp_all add: 1 2 clip_list_exec del: upt_Suc)
qed


section \<open>Concrete messages\<close>

definition fresh_world :: "'n \<Rightarrow> 'x \<Rightarrow> ('n, 'x) world" where
  "fresh_world cfg x = \<lparr>w_config = cfg, w_uptime = 0, object = x, effects = []\<rparr>"

lemma fresh_world_simps [simp]:
  "w_config (fresh_world cfg x) = cfg" "object (fresh_world cfg x) = x" "effects (fresh_world cfg x) = []"
  by (simp_all add: fresh_world_def)

theorem ping_replies_one_line_witness:
  "Ping_onMessage example_ping (fresh_world () ()) =
     (None, (fresh_world () ())\<lparr>effects := [Send (IRCMessage ''PONG'' [''irc.example.com''])]\<rparr>) \<and>
   parse new_IRCParser (toString (IRCMessage ''PONG'' [''irc.example.com'']) False) =
     push_message (IRCMessage ''PONG'' [''irc.example.com'']) new_IRCParser"
proof -
  have "getMessage (parse new_IRCParser (toString example_ping False)) = Inr (example_ping, new_IRCParser)"
    unfolding parse_def lexer_def lex_line [OF idle_new canonical_examples(2)]
    by (simp add: getMessage_def push_message_def new_IRCParser_def)
  from ping_replies_one_line [OF reach_parse [OF reach_new] this _ idle_new, of "fresh_world () ()"]
  show ?thesis by (simp add: example_ping_def)
qed

theorem init_tries_alternative_nicks_witness:
  "\<exists>w'. for_each [IRCMessage ''433'' [], IRCMessage ''433'' []] Init_onMessage
      (fresh_world () (Init\<lparr>m_alt_nicks := [''a'']\<rparr>)) = (Some UndefinedBehaviour, w') \<and>
    effects w' = [Send (IRCMessage ''NICK'' [''a''])]"
  using init_tries_alternative_nicks [of "[IRCMessage ''433'' [], IRCMessage ''433'' []]"
      "fresh_world () (Init\<lparr>m_alt_nicks := [''a'']\<rparr>)" "[''a'']"]
  by (simp add: Init_def)

theorem join_each_channel_once_witness:
  "\<exists>w' js. Join_onInit yaml_tree (fresh_world example_channels \<lparr>m_channels = {}\<rparr>) = (None, w') \<and>
     effects w' = map (\<lambda>c. Send (IRCMessage ''JOIN'' [c])) js \<and> distinct js \<and> set js = {''#a'', ''#b''}"
proof -
  let ?w = "fresh_world example_channels \<lparr>m_channels = {}\<rparr>"
  have "list_all2 (\<lambda>p c. as_string yaml_tree p = Some c)
      (elements yaml_tree (config_entry yaml_tree (w_config ?w) ''channels'')) [''#a'', ''#b'', ''#a'']"
    by (simp add: yaml_tree_def config_entry_def example_channels_def)
  from join_each_channel_once [OF this] show ?thesis
    by (auto simp: insert_commute)
qed

theorem uptime_split_correct_witness:
  "uptime_split 93784000000000 = (1, 2, 3, 4) \<and>
   uint (1 :: 32 word) * 86400 + uint (2 :: 32 word) * 3600 + uint (3 :: 32 word) * 60 + uint (4 :: 32 word) =
     93784000000000 div 1000000000"
proof -
  have split: "uptime_split 93784000000000 = (1, 2, 3, 4)" by (simp add: uptime_split_def Let_def)
  from uptime_split_correct [OF _ _ this] split show ?thesis by simp
qed

theorem clipboard_bounded_witness:
  "clipboard_ok (object (snd (Clipboard_onMessage (IRCMessage ''PRIVMSG'' [''#c'', ''!clip text'']) (fresh_world () Clipboard))))"
proof -
  let ?r = "Clipboard_onMessage (IRCMessage ''PRIVMSG'' [''#c'', ''!clip text'']) (fresh_world () Clipboard)"
  have "clipboard_ok (object (fresh_world () Clipboard))"
    by (simp add: clipboard_ok_def slots_def Clipboard_def)
  from clipboard_bounded [OF this, of _ "fst ?r" "snd ?r"] show ?thesis by simp
qed

theorem clipboard_fault_iff_witness:
  "fst (Clipboard_onMessage (IRCMessage ''PRIVMSG'' [''#c'', ''!clip-rm -1'']) (fresh_world () Clipboard)) =
     Some UndefinedBehaviour"
proof -
  have "stoi (drop 9 ''!clip-rm -1'') = Inr (-1)" by code_simp
  then show ?thesis
    using clipboard_fault_iff [of "IRCMessage ''PRIVMSG'' [''#c'', ''!clip-rm -1'']" "''#c''" "''!clip-rm -1''" "[]"
        "fresh_world () Clipboard" UndefinedBehaviour]
    by (auto simp: startsWith_append)
qed

theorem clipboard_save_then_list_witness:
  "\<exists>w1 w2. Clipboard_onMessage (IRCMessage ''PRIVMSG'' [''#c'', ''!clip '' @ ''text'']) (fresh_world () Clipboard) = (None, w1) \<and>
    Clipboard_onMessage (IRCMessage ''PRIVMSG'' [''#c'', ''!clip-ls'']) w1 = (None, w2) \<and>
    effects w2 = [Send (IRCMessage ''PRIVMSG'' [''#c'', ''This is your clipboard:'']),
      Send (IRCMessage ''PRIVMSG'' [''#c'', ''0 $ text''])]"
proof -
  have n: "slots ''#c'' Clipboard = []" "m_size Clipboard = 10" "m_message_size Clipboard = 512"
    by (simp_all add: slots_def Clipboard_def)
  have t: "to_string 0 = ''0''" by code_simp
  show ?thesis
    using clipboard_save_then_list [of "''#c''" "IRCMessage ''PRIVMSG'' [''#c'', ''!clip '' @ ''text'']" "''text''"
        "IRCMessage ''PRIVMSG'' [''#c'', ''!clip-ls'']" "fresh_world () Clipboard"]
    by (auto simp: n t isIn_def first_char_def)
qed

end
