(* ===== verification/Handler_Logic.thy ===== *)
theory Handler_Logic
  imports Plugin_Base
begin

text \<open>
  A program logic for the handlers of plugins: \<open>ok_at\<close> says that a handler, run in a state whose
  object satisfies an invariant, keeps the invariant and asks the core only for admitted effects,
  whether it returns or ends in a fault. The rules follow the constructors of handlers. The locale
  \<open>plugin_contract\<close> is the interface between a plugin's class and the thread that runs it: what the
  class promises of its virtual functions, and what then holds of every run of the thread.
\<close>

section \<open>Handlers\<close>

definition ok_at ::
  "('n \<Rightarrow> 'x \<Rightarrow> bool) \<Rightarrow> (plugin_effect \<Rightarrow> bool) \<Rightarrow> ('n, 'x) handler \<Rightarrow> ('n, 'x) world \<Rightarrow> bool" where
  "ok_at J E h w \<longleftrightarrow> (J (w_config w) (object w) \<longrightarrow> (case h w of (f, w') \<Rightarrow>
     J (w_config w') (object w') \<and> w_config w' = w_config w \<and>
     (\<exists>es. effects w' = effects w @ es \<and> (\<forall>e \<in> set es. E e))))"

named_theorems ok_rules \<open>the rules of the handler logic\<close>

lemma ok_skip [ok_rules]: "ok_at J E skip w"
  by (simp add: ok_at_def skip_def)

lemma ok_throw [ok_rules]: "ok_at J E (throw f) w"
  by (simp add: ok_at_def throw_def)

lemma ok_emit [ok_rules]: "E e \<Longrightarrow> ok_at J E (emit e) w"
  by (simp add: ok_at_def emit_def)

lemma ok_send [ok_rules]: "E (Send m) \<Longrightarrow> ok_at J E (send m) w"
  by (simp add: send_def ok_emit)

lemma ok_modify [ok_rules]:
  "(J (w_config w) (object w) \<Longrightarrow> J (w_config w) (g (object w))) \<Longrightarrow> ok_at J E (modify g) w"
  by (simp add: ok_at_def modify_def)

lemma ok_reading [ok_rules]:
  "(J (w_config w) (object w) \<Longrightarrow> ok_at J E (k w) w) \<Longrightarrow> ok_at J E (reading k) w"
  by (auto simp: ok_at_def reading_def)

lemma ok_need [ok_rules]: "(\<And>x. r = Inr x \<Longrightarrow> ok_at J E (k x) w) \<Longrightarrow> ok_at J E (need r k) w"
  by (cases r) (simp_all add: ok_at_def need_def)

lemma ok_andThen [ok_rules]:
  assumes "ok_at J E h w"
    and "\<And>v. w_config v = w_config w \<Longrightarrow> ok_at J E k v"
  shows "ok_at J E (andThen h k) w"
proof -
  obtain f v where v: "h w = (f, v)" by fastforce
  show ?thesis
  proof (cases f)
    case None
    obtain g u where u: "k v = (g, u)" by fastforce
    show ?thesis
      using assms(1) assms(2) [of v] v u None by (fastforce simp: ok_at_def andThen_def)
  next
    case (Some e)
    with assms(1) v show ?thesis by (auto simp: ok_at_def andThen_def)
  qed
qed

lemma ok_for_each [ok_rules]:
  assumes "\<And>x v. x \<in> set xs \<Longrightarrow> w_config v = w_config w \<Longrightarrow> ok_at J E (body x) v"
  shows "ok_at J E (for_each xs body) w"
  using assms
proof (induction xs arbitrary: w)
  case (Cons x xs)
  have "ok_at J E (for_each xs body) v" if "w_config v = w_config w" for v
    using that Cons.prems by (intro Cons.IH) auto
  with Cons.prems show ?case by (simp add: ok_andThen)
qed (simp add: ok_skip)

lemma ok_catch [ok_rules]: "ok_at J E h w \<Longrightarrow> ok_at J E (catch_exceptions h) w"
  by (cases "h w") (auto simp: ok_at_def catch_exceptions_def split: option.splits)

lemma ok_if [ok_rules]:
  "(b \<Longrightarrow> ok_at J E h w) \<Longrightarrow> (\<not> b \<Longrightarrow> ok_at J E k w) \<Longrightarrow> ok_at J E (if b then h else k) w"
  by simp

lemma ok_run_handler:
  assumes "run_handler u h p = (q, es, f)" and "J (m_cfg p) (m_object p)" and "\<And>w. ok_at J E h w"
  shows "J (m_cfg q) (m_object q) \<and> (\<forall>e \<in> set es. E e)"
proof -
  let ?w = "\<lparr>w_config = m_cfg p, w_uptime = u, object = m_object p, effects = []\<rparr>"
  obtain g v where "h ?w = (g, v)" by fastforce
  with assms(1,2) assms(3) [of ?w] show ?thesis by (auto simp: ok_at_def run_handler_def)
qed

section \<open>The contract of a class\<close>

text \<open>
  \<open>J\<close>: an invariant of configuration and object; \<open>I\<close>: the messages the class may be given; \<open>E\<close>: the
  effects it may have. The functions a plugin registers for its commands are under the same contract.
\<close>

locale plugin_contract =
  fixes J :: "'n \<Rightarrow> 'x \<Rightarrow> bool"
    and I :: "irc_message \<Rightarrow> bool"
    and E :: "plugin_effect \<Rightarrow> bool"
    and cls :: "('n, 'x) plugin_class"
    and funs :: "string \<rightharpoonup> (cmd \<Rightarrow> ('n, 'x) handler)"
  assumes onInit_ok: "ok_at J E (onInit cls) w"
    and onMessage_ok: "I m \<Longrightarrow> ok_at J E (onMessage cls m) w"
    and onShutdown_ok: "ok_at J E (onShutdown cls) w"
    and function_ok: "funs n = Some f \<Longrightarrow> I (cmd_irc_message c) \<Longrightarrow> ok_at J E (f c) w"
begin

lemma process_message_ok:
  assumes "m_class p = cls" and "m_functions p = funs" and "I m"
  shows "ok_at J E (process_message m p) w"
proof -
  have "ok_at J E (onCommand (c\<lparr>cmd_irc_message := m\<rparr>) p) v" for c v
    using function_ok [of "cmd_command c" _ "c\<lparr>cmd_irc_message := m\<rparr>"] assms(2,3)
    by (auto simp: onCommand_def callFunction_def ok_skip split: option.splits)
  moreover have "ok_at J E (onMessage (m_class p) m) w" using onMessage_ok [OF assms(3)] assms(1) by simp
  ultimately show ?thesis
    by (cases "m_command_parser p") (auto simp: process_message_def intro!: ok_rules)
qed

text \<open>The plugins of the class in a state that satisfies the invariant.\<close>

definition obeys :: "('n, 'x) plugin \<Rightarrow> bool" where
  "obeys p \<longleftrightarrow> m_class p = cls \<and> m_functions p = funs \<and> J (m_cfg p) (m_object p) \<and>
     (\<forall>m \<in> set (m_incoming p). I m) \<and> (\<forall>m. m_thread p = Handling m \<longrightarrow> I m)"

lemma obeys_handler:
  assumes "run_handler u h p = (q, es, f)" and "obeys p" and "\<And>w. ok_at J E h w"
  shows "obeys (set_thread (after_handler f) q) \<and> obeys q \<and> (\<forall>e \<in> set es. E e)"
  using ok_run_handler [OF assms(1) _ assms(3)] assms(2) run_handler_frame [OF assms(1)]
  by (auto simp: obeys_def set_thread_def after_handler_def split: option.splits)

lemma obeys_step:
  assumes "plugin_step s t" and "obeys (plug s)" and "\<forall>m \<in> set (delivered t). I m"
    and "\<forall>e \<in> set (emitted s). E e"
  shows "obeys (plug t) \<and> (\<forall>e \<in> set (emitted t). E e)"
  using assms(1)
proof cases
  case (ps_run u p es f)
  have "obeys (plug s\<lparr>m_running := True\<rparr>)" using assms(2) by (auto simp: obeys_def)
  from obeys_handler [OF ps_run(3) this] ps_run assms(2,4) onInit_ok show ?thesis
    by (auto simp: obeys_def)
next
  case (ps_handle msg u p es f)
  have "ok_at J E (process_message msg (plug s)) w" for w
    using assms(2) ps_handle(2) by (intro process_message_ok) (auto simp: obeys_def)
  from obeys_handler [OF ps_handle(3) assms(2) this] ps_handle assms(4) show ?thesis by auto
next
  case (ps_joined u p es f)
  have "obeys (set_thread NoThread (plug s))" using assms(2) by (auto simp: obeys_def set_thread_def)
  from obeys_handler [OF ps_joined(4) this] ps_joined assms(2,4) onShutdown_ok show ?thesis
    by (auto simp: obeys_def set_thread_def)
qed (use assms in \<open>auto simp: obeys_def set_thread_def receive_def spawn_def getCommand_def
       split: if_split_asm list.splits\<close>)

lemma delivered_step: "plugin_step s t \<Longrightarrow> set (delivered s) \<subseteq> set (delivered t)"
  by (induction rule: plugin_step.induct) auto

text \<open>In every run of the thread the class keeps its promise.\<close>

lemma obeys_reach:
  "plugin_reach p s \<Longrightarrow> obeys p \<Longrightarrow> \<forall>m \<in> set (delivered s). I m \<Longrightarrow>
   obeys (plug s) \<and> (\<forall>e \<in> set (emitted s). E e)"
proof (induction rule: plugin_reach.induct)
  case (pr_step s t)
  then have "obeys (plug s) \<and> (\<forall>e \<in> set (emitted s). E e)" using delivered_step by blast
  with obeys_step [OF pr_step.hyps(2)] pr_step.prems show ?case by blast
qed (simp add: started_def)

end

end
