(* ===== verification/Bot_System.thy ===== *)
theory Bot_System
  imports Bot_Core Handler_Logic "HOL-Library.Sublist"
begin

text \<open>
  The running bot: the I/O thread, which reads from the server and offers every message to one
  plugin after another, and the threads of all plugins, in every interleaving. \<open>Bot_Core\<close> has the
  same code as functions that nothing interrupts; here the receive handler is cut into its steps,
  and between any two of them the plugins go on. The section \<open>A log with cursors\<close> states what the
  whole machinery promises, and the system is proved to refine it.

  A session is what happens between \<open>run\<close> and the next \<open>stop\<close>, restart or reload; the handler of a
  message is one step of its thread.
\<close>

section \<open>The parser does not look at its queue\<close>

definition earlier :: "irc_message list \<Rightarrow> irc_parser \<Rightarrow> irc_parser" where
  "earlier ms p = p\<lparr>m_messages := ms @ m_messages p\<rparr>"

lemma earlier_simps [simp]:
  "m_state (earlier ms p) = m_state p" "m_tokens (earlier ms p) = m_tokens p"
  "m_messages (earlier ms p) = ms @ m_messages p" "m_message (earlier ms p) = m_message p"
  "m_last_token (earlier ms p) = m_last_token p"
  by (simp_all add: earlier_def)

lemma earlier_updates:
  "(earlier ms p)\<lparr>m_state := st\<rparr> = earlier ms (p\<lparr>m_state := st\<rparr>)"
  "(earlier ms p)\<lparr>m_tokens := ts\<rparr> = earlier ms (p\<lparr>m_tokens := ts\<rparr>)"
  "putToken ty w (earlier ms p) = earlier ms (putToken ty w p)"
  "putTokenType ty (earlier ms p) = earlier ms (putTokenType ty p)"
  "putParam w (earlier ms p) = (case putParam w p of (q, w') \<Rightarrow> (earlier ms q, w'))"
  by (simp_all add: earlier_def putToken_def putTokenType_def putParam_def)

lemma earlier_parser_token: "parser_token t (earlier ms p) = earlier ms (parser_token t p)"
  by (simp add: parser_token_def Let_def push_message_def earlier_def split: token_type.splits)

lemma earlier_parser: "parser (earlier ms p) = earlier ms (parser p)"
proof -
  have "fold parser_token ts (earlier ms q) = earlier ms (fold parser_token ts q)" for ts q
    by (induction ts arbitrary: q) (simp_all add: earlier_parser_token)
  then show ?thesis by (simp add: parser_fold earlier_updates)
qed

lemma earlier_lexer_step:
  "lexer_step x (earlier ms p, w) = (case lexer_step x (p, w) of (q, v) \<Rightarrow> (earlier ms q, v))"
proof -
  have "lexer_char x (earlier ms p, w) = (case lexer_char x (p, w) of (q, v) \<Rightarrow> (earlier ms q, v))"
    by (cases "m_state p") (simp_all add: lexer_char_def earlier_updates split: prod.split)
  then show ?thesis
    by (cases "lexer_char x (p, w)") (simp add: lexer_step_def earlier_parser earlier_updates)
qed

lemma earlier_parse: "parse (earlier ms p) b = earlier ms (parse p b)"
proof -
  have "fold lexer_step b (earlier ms q, w) = (case fold lexer_step b (q, w) of (r, v) \<Rightarrow> (earlier ms r, v))" for q w
  proof (induction b arbitrary: q w)
    case (Cons x b)
    then show ?case by (cases "lexer_step x (q, w)") (simp add: earlier_lexer_step)
  qed simp
  then show ?thesis by (simp add: parse_def lexer_def split: prod.split)
qed

lemma earlier_taken: "getMessage p = Inr (m, q) \<Longrightarrow> earlier (ms @ [m]) q = earlier ms p"
  by (auto simp: getMessage_def earlier_def split: list.splits)

section \<open>The system\<close>

text \<open>
  The I/O thread: waiting for the completion of the receive; at the test of the loop over the parsed
  messages; about to offer a message to the plugin with an index.
\<close>

datatype io_state = IO_Idle | IO_Messages | IO_Offer irc_message nat

text \<open>
  Histories: the received buffers, the messages taken from the parser, and for each plugin the
  messages its loop has taken.
\<close>

record ('n, 'x) system =
  s_core :: "('n, 'x) core"
  s_io :: io_state
  s_chunks :: "string list"
  s_dispatched :: "irc_message list"
  s_taken :: "nat \<Rightarrow> irc_message list"

definition session :: "('n, 'x) core \<Rightarrow> ('n, 'x) system" where
  "session c = \<lparr>s_core = c, s_io = IO_Idle, s_chunks = [], s_dispatched = [], s_taken = (\<lambda>_. [])\<rparr>"

text \<open>A step of a plugin's own thread: the messages it takes and the effects it has.\<close>

definition thread_step ::
  "('n, 'x) plugin \<Rightarrow> ('n, 'x) plugin \<Rightarrow> irc_message list \<Rightarrow> plugin_effect list \<Rightarrow> bool" where
  "thread_step p q ms es \<longleftrightarrow> (\<exists>t. plugin_step (started p) t \<and> plug t = q \<and> taken t = ms \<and>
     emitted t = es \<and> delivered t = [] \<and> stopper t = NoStop)"

text \<open>\<open>receive\<close> waits for the mutex, which the loop of the plugin holds while it handles a message.\<close>

definition busy :: "('n, 'x) plugin \<Rightarrow> bool" where
  "busy p \<longleftrightarrow> (\<exists>m. m_thread p = Handling m)"

definition plugin_at :: "('n, 'x) system \<Rightarrow> nat \<Rightarrow> ('n, 'x) plugin" where
  "plugin_at s i = m_plugins (s_core s) ! i"

definition count_plugins :: "('n, 'x) system \<Rightarrow> nat" where
  "count_plugins s = length (m_plugins (s_core s))"

inductive io_step :: "('n, 'x) system \<Rightarrow> ('n, 'x) system \<Rightarrow> bool" where
  io_receive: "s_io s = IO_Idle \<Longrightarrow> receiving (s_core s) \<Longrightarrow> fits_buffer bytes \<Longrightarrow>
    io_step s (s\<lparr>s_core := (s_core s)\<lparr>receiving := False, m_parser := parse (m_parser (s_core s)) bytes\<rparr>,
      s_io := IO_Messages, s_chunks := s_chunks s @ [bytes]\<rparr>)"
| io_next: "s_io s = IO_Messages \<Longrightarrow> getMessage (m_parser (s_core s)) = Inr (m, q) \<Longrightarrow>
    io_step s (s\<lparr>s_core := (s_core s)\<lparr>m_parser := q\<rparr>, s_io := IO_Offer m 0,
      s_dispatched := s_dispatched s @ [m]\<rparr>)"
| io_done: "s_io s = IO_Messages \<Longrightarrow> messagesCount (m_parser (s_core s)) = 0 \<Longrightarrow>
    io_step s (s\<lparr>s_core := startAsyncReceive (s_core s), s_io := IO_Idle\<rparr>)"
| io_offer: "s_io s = IO_Offer m i \<Longrightarrow> i < count_plugins s \<Longrightarrow> offer m i (s_core s) = Inr c \<Longrightarrow>
    (accepts m (plugin_at s i) \<longrightarrow> \<not> busy (plugin_at s i)) \<Longrightarrow>
    io_step s (s\<lparr>s_core := c, s_io := IO_Offer m (Suc i)\<rparr>)"
| io_end: "s_io s = IO_Offer m (count_plugins s) \<Longrightarrow> io_step s (s\<lparr>s_io := IO_Messages\<rparr>)"

inductive thread_turn :: "nat \<Rightarrow> ('n, 'x) system \<Rightarrow> ('n, 'x) system \<Rightarrow> bool" for i where
  tt_step: "i < count_plugins s \<Longrightarrow> thread_step (plugin_at s i) q ms es \<Longrightarrow>
    fold_result perform es ((s_core s)\<lparr>m_plugins := (m_plugins (s_core s))[i := q]\<rparr>) = Inr c \<Longrightarrow>
    thread_turn i s (s\<lparr>s_core := c, s_taken := (s_taken s)(i := s_taken s i @ ms)\<rparr>)"

definition system_step :: "('n, 'x) system \<Rightarrow> ('n, 'x) system \<Rightarrow> bool" where
  "system_step s t \<longleftrightarrow> io_step s t \<or> (\<exists>i. thread_turn i s t)"

inductive system_reach :: "('n, 'x) core \<Rightarrow> ('n, 'x) system \<Rightarrow> bool" for c where
  sr_init: "system_reach c (session c)"
| sr_step: "system_reach c s \<Longrightarrow> system_step s t \<Longrightarrow> system_reach c t"

inductive_cases io_stepE: "io_step s t"
inductive_cases thread_turnE: "thread_turn i s t"

lemma system_reach_steps: "system_step\<^sup>*\<^sup>* s t \<Longrightarrow> system_reach c s \<Longrightarrow> system_reach c t"
  by (induction rule: rtranclp_induct) (auto intro: sr_step)

section \<open>A log with cursors\<close>

text \<open>
  What a session promises: there is one log of messages, which only grows, and each plugin reads
  those of its messages that it accepts, one after another, at its own pace.
\<close>

record bus =
  bus_log :: "irc_message list"
  bus_read :: "nat \<Rightarrow> irc_message list"

inductive bus_step :: "(nat \<Rightarrow> irc_message \<Rightarrow> bool) \<Rightarrow> bus \<Rightarrow> bus \<Rightarrow> bool" for acc where
  bus_append: "bus_step acc b (b\<lparr>bus_log := bus_log b @ ms\<rparr>)"
| bus_take: "prefix (bus_read b i @ [m]) (filter (acc i) (bus_log b)) \<Longrightarrow>
    bus_step acc b (b\<lparr>bus_read := (bus_read b)(i := bus_read b i @ [m])\<rparr>)"

definition empty_bus :: bus where
  "empty_bus = \<lparr>bus_log = [], bus_read = (\<lambda>_. [])\<rparr>"

definition bus_of :: "('n, 'x) system \<Rightarrow> bus" where
  "bus_of s = \<lparr>bus_log = s_dispatched s @ m_messages (m_parser (s_core s)), bus_read = s_taken s\<rparr>"

lemma bus_read_prefix:
  "(bus_step acc)\<^sup>*\<^sup>* empty_bus b \<Longrightarrow> prefix (bus_read b i) (filter (acc i) (bus_log b))"
proof (induction rule: rtranclp_induct)
  case base
  show ?case by (simp add: empty_bus_def)
next
  case (step b c)
  from step(2,3) show ?case
    by (cases rule: bus_step.cases) (auto intro: prefix_order.trans)
qed


section \<open>Lemmas: a step of a thread\<close>

definition same_kind :: "('n, 'x) plugin \<Rightarrow> ('n, 'x) plugin \<Rightarrow> bool" where
  "same_kind p q \<longleftrightarrow> m_class q = m_class p \<and> m_functions q = m_functions p \<and>
     m_command_parser q = m_command_parser p \<and> m_id q = m_id p \<and> m_cfg q = m_cfg p"

lemma same_kind_refl [simp]: "same_kind p p"
  by (simp add: same_kind_def)

lemma same_kind_trans [trans]: "same_kind p q \<Longrightarrow> same_kind q r \<Longrightarrow> same_kind p r"
  by (simp add: same_kind_def)

lemma same_kind_simps [simp]:
  "same_kind p (receive m q) = same_kind p q" "same_kind p (set_thread st q) = same_kind p q"
  "same_kind p (deliver m q) = same_kind p q" "same_kind p (q\<lparr>m_running := b\<rparr>) = same_kind p q"
  by (simp_all add: same_kind_def receive_def set_thread_def deliver_def)

lemma same_kind_running: "same_kind (p\<lparr>m_running := b\<rparr>) q = same_kind p q"
  by (simp add: same_kind_def)

lemma same_kind_set_thread: "same_kind (set_thread st p) q = same_kind p q"
  by (simp add: same_kind_def set_thread_def)

lemma same_kind_handler: "run_handler u h p = (q, es, f) \<Longrightarrow> same_kind p q"
  by (simp add: same_kind_def run_handler_frame)

lemma same_kind_getCommand: "getCommand p = Inr (m, q) \<Longrightarrow> same_kind p q"
  by (auto simp: getCommand_def same_kind_def split: list.splits)

lemma same_kind_spawn: "spawn p = Inr q \<Longrightarrow> same_kind p q"
  by (auto simp: spawn_def same_kind_def split: if_split_asm)

definition is_send :: "plugin_effect \<Rightarrow> bool" where
  "is_send e \<longleftrightarrow> (\<exists>m. e = Send m)"

text \<open>
  A plugin whose handlers ask for nothing but sending, and whose filter depends on the message only:
  all bundled plugins, and \<open>TcpPlugin\<close> until it is stopped.
\<close>

definition self_contained :: "('n, 'x) plugin \<Rightarrow> bool" where
  "self_contained p \<longleftrightarrow>
     plugin_contract (\<lambda>_ _. True) (\<lambda>_. True) is_send (m_class p) (m_functions p) \<and>
     (\<forall>m x y. filter_message (m_class p) m x = filter_message (m_class p) m y)"

lemma self_contained_same_kind: "same_kind p q \<Longrightarrow> self_contained p \<Longrightarrow> self_contained q"
  by (simp add: same_kind_def self_contained_def)

lemma accepts_same_kind: "same_kind p q \<Longrightarrow> self_contained p \<Longrightarrow> accepts m q = accepts m p"
  unfolding same_kind_def self_contained_def accepts_def preFilter_def isCommand_def by metis

lemma same_kind_step: "plugin_step s t \<Longrightarrow> same_kind (plug s) (plug t)"
  by (induction rule: plugin_step.induct)
    (auto dest!: same_kind_getCommand same_kind_spawn same_kind_handler simp: same_kind_running same_kind_set_thread)

lemma takes_one: "plugin_step s t \<Longrightarrow> length (taken t) \<le> Suc (length (taken s))"
  by (induction rule: plugin_step.induct) simp_all

lemma thread_step_frame:
  assumes "thread_step p q ms es"
  shows "same_kind p q" "m_incoming p = ms @ m_incoming q" "length ms \<le> 1"
proof -
  from assms obtain t where t: "plugin_step (started p) t" "plug t = q" "taken t = ms" "delivered t = []"
    "stopper t = NoStop" by (auto simp: thread_step_def)
  show "same_kind p q" using same_kind_step [OF t(1)] t(2) by (simp add: started_def)
  show "length ms \<le> 1" using takes_one [OF t(1)] t(3) by (simp add: started_def)
  show "m_incoming p = ms @ m_incoming q"
    using fifo_history_step [OF t(1), of "m_incoming p"] t(2-4) by (simp add: fifo_history_def started_def)
qed


text \<open>What a thread does under a contract of its class.\<close>

lemma thread_step_obeys:
  assumes "thread_step p q ms es" and "plugin_contract J I E cls funs"
    and "plugin_contract.obeys J I cls funs p"
  shows "plugin_contract.obeys J I cls funs q \<and> (\<forall>e \<in> set es. E e)"
proof -
  from assms(1) obtain t where t: "plugin_step (started p) t" "plug t = q" "emitted t = es" "delivered t = []"
    by (auto simp: thread_step_def)
  from plugin_contract.obeys_step [OF assms(2) t(1)] assms(3) t show ?thesis by (simp add: started_def)
qed

definition line_of :: "plugin_effect \<Rightarrow> string" where
  "line_of e = (case e of Send m \<Rightarrow> toString m False | RemovePlugin _ \<Rightarrow> '''')"

lemma perform_sends:
  "\<forall>e \<in> set es. is_send e \<Longrightarrow> fold_result perform es c = Inr (c\<lparr>outgoing := outgoing c @ map line_of es\<rparr>)"
  by (induction es arbitrary: c) (auto simp: is_send_def line_of_def send_message_def send_text_def)

lemma thread_step_sends:
  assumes "thread_step p q ms es" and "self_contained p"
  shows "\<forall>e \<in> set es. is_send e"
proof -
  from assms(2) have c: "plugin_contract (\<lambda>_ _. True) (\<lambda>_. True) is_send (m_class p) (m_functions p)"
    by (simp add: self_contained_def)
  from thread_step_obeys [OF assms(1) c] show ?thesis by (simp add: plugin_contract.obeys_def [OF c])
qed

lemma thread_turn_effect:
  assumes "thread_turn i s t" and "self_contained (plugin_at s i)"
  obtains q ms es where "i < count_plugins s" "thread_step (plugin_at s i) q ms es"
    "t = s\<lparr>s_core := (s_core s)\<lparr>m_plugins := (m_plugins (s_core s))[i := q],
       outgoing := outgoing (s_core s) @ map line_of es\<rparr>, s_taken := (s_taken s)(i := s_taken s i @ ms)\<rparr>"
  using assms(1)
proof cases
  case (tt_step q ms es c)
  have "c = (s_core s)\<lparr>m_plugins := (m_plugins (s_core s))[i := q],
       outgoing := outgoing (s_core s) @ map line_of es\<rparr>"
    using perform_sends [OF thread_step_sends [OF tt_step(3) assms(2)],
        of "(s_core s)\<lparr>m_plugins := (m_plugins (s_core s))[i := q]\<rparr>"] tt_step(4) by simp
  with tt_step(1) have "t = s\<lparr>s_core := (s_core s)\<lparr>m_plugins := (m_plugins (s_core s))[i := q],
       outgoing := outgoing (s_core s) @ map line_of es\<rparr>, s_taken := (s_taken s)(i := s_taken s i @ ms)\<rparr>"
    by simp
  with tt_step(2,3) that show thesis by blast
qed


section \<open>The invariant of a session\<close>

text \<open>The messages that have been offered to the plugin at an index.\<close>

definition offered :: "('n, 'x) system \<Rightarrow> nat \<Rightarrow> irc_message list" where
  "offered s i = (case s_io s of
     IO_Offer _ j \<Rightarrow> if i < j then s_dispatched s else butlast (s_dispatched s)
   | _ \<Rightarrow> s_dispatched s)"

definition fresh_core :: "('n, 'x) core \<Rightarrow> bool" where
  "fresh_core c \<longleftrightarrow> (\<forall>p \<in> set (m_plugins c). self_contained p \<and> m_incoming p = [])"

text \<open>The messages a core accepts for the plugin at an index.\<close>

definition accepted_by :: "('n, 'x) core \<Rightarrow> nat \<Rightarrow> irc_message \<Rightarrow> bool" where
  "accepted_by c i m \<longleftrightarrow> i < length (m_plugins c) \<and> accepts m (m_plugins c ! i)"

definition plugin_inv :: "('n, 'x) core \<Rightarrow> ('n, 'x) system \<Rightarrow> nat \<Rightarrow> bool" where
  "plugin_inv c s i \<longleftrightarrow> same_kind (m_plugins c ! i) (plugin_at s i) \<and>
     s_taken s i @ m_incoming (plugin_at s i) = filter (accepted_by c i) (offered s i)"

definition system_inv :: "('n, 'x) core \<Rightarrow> ('n, 'x) system \<Rightarrow> bool" where
  "system_inv c s \<longleftrightarrow> count_plugins s = length (m_plugins c) \<and>
     (\<forall>i < length (m_plugins c). plugin_inv c s i) \<and>
     (\<forall>i \<ge> length (m_plugins c). s_taken s i = []) \<and>
     fold (\<lambda>b p. parse p b) (s_chunks s) (m_parser c) = earlier (s_dispatched s) (m_parser (s_core s)) \<and>
     (\<forall>m j. s_io s = IO_Offer m j \<longrightarrow> j \<le> length (m_plugins c) \<and> s_dispatched s \<noteq> [] \<and> last (s_dispatched s) = m)"

lemma fresh_coreD: "fresh_core c \<Longrightarrow> i < length (m_plugins c) \<Longrightarrow> self_contained (m_plugins c ! i)"
  by (simp add: fresh_core_def)

lemma system_inv_plugin:
  assumes "fresh_core c" and "system_inv c s" and "i < count_plugins s"
  shows "i < length (m_plugins c)" "self_contained (plugin_at s i)"
    "accepts m (plugin_at s i) = accepted_by c i m"
proof -
  show i: "i < length (m_plugins c)" using assms(2,3) by (simp add: system_inv_def)
  then have k: "same_kind (m_plugins c ! i) (plugin_at s i)"
    using assms(2) by (simp add: system_inv_def plugin_inv_def)
  note c = fresh_coreD [OF assms(1) i]
  show "self_contained (plugin_at s i)" using k c by (rule self_contained_same_kind)
  show "accepts m (plugin_at s i) = accepted_by c i m"
    using accepts_same_kind [OF k c, of m] i by (simp add: accepted_by_def)
qed

lemma system_inv_session: "fresh_core c \<Longrightarrow> system_inv c (session c)"
  by (simp add: system_inv_def session_def count_plugins_def plugin_inv_def plugin_at_def offered_def
      fresh_core_def earlier_def)

lemma offered_cong: "s_io t = s_io s \<Longrightarrow> s_dispatched t = s_dispatched s \<Longrightarrow> offered t i = offered s i"
  by (simp add: offered_def split: io_state.split)

text \<open>The plugins keep their state under the steps that only move the I/O thread.\<close>

lemma plugin_inv_frame:
  "plugin_inv c s i \<Longrightarrow> plugin_at t i = plugin_at s i \<Longrightarrow> s_taken t i = s_taken s i \<Longrightarrow>
   offered t i = offered s i \<Longrightarrow> plugin_inv c t i"
  by (simp add: plugin_inv_def)

lemma offer_effect:
  assumes "offer m i (s_core s) = Inr c" and "i < count_plugins s"
  shows "c = (s_core s)\<lparr>m_plugins := (m_plugins (s_core s))[i := deliver m (plugin_at s i)]\<rparr>"
  using offer_Inr [OF assms(1)] assms(2) by (simp add: count_plugins_def plugin_at_def)

lemma system_inv_io_step:
  assumes "io_step s t" and "fresh_core c" and "system_inv c s"
  shows "system_inv c t"
  using assms(1)
proof cases
  case (io_receive bytes)
  then show ?thesis
    using assms(3)
    by (simp add: system_inv_def count_plugins_def plugin_inv_def plugin_at_def offered_def earlier_parse)
next
  case (io_next m q)
  then show ?thesis
    using assms(3)
    by (simp add: system_inv_def count_plugins_def plugin_inv_def plugin_at_def offered_def earlier_taken)
next
  case io_done
  then show ?thesis
    using assms(3)
    by (simp add: system_inv_def count_plugins_def plugin_inv_def plugin_at_def offered_def startAsyncReceive_def)
next
  case (io_offer m i d)
  have d: "d = (s_core s)\<lparr>m_plugins := (m_plugins (s_core s))[i := deliver m (plugin_at s i)]\<rparr>"
    using io_offer(3,4) by (intro offer_effect)
  have last: "s_dispatched s \<noteq> []" "last (s_dispatched s) = m" "count_plugins s = length (m_plugins c)"
    using assms(3) io_offer(2) by (auto simp: system_inv_def)
  have acc: "accepts m (plugin_at s i) = accepted_by c i m"
    using system_inv_plugin(3) [OF assms(2,3) io_offer(3)] .
  have k: "plugin_inv c t k" if "k < length (m_plugins c)" for k
  proof (cases "k = i")
    case False
    have "plugin_inv c s k" using that assms(3) by (simp add: system_inv_def)
    then show ?thesis
      using False io_offer d by (elim plugin_inv_frame) (auto simp: plugin_at_def offered_def)
  next
    case True
    obtain b where b: "s_dispatched s = b @ [m]"
      using last by (metis append_butlast_last_id)
    have t: "plugin_at t i = deliver m (plugin_at s i)" "s_taken t = s_taken s" "offered t i = b @ [m]"
      "offered s i = b"
      using io_offer d b by (simp_all add: plugin_at_def offered_def count_plugins_def)
    have "plugin_inv c s i" using that True assms(3) by (simp add: system_inv_def)
    then have "same_kind (m_plugins c ! i) (plugin_at s i)"
      "s_taken s i @ m_incoming (plugin_at s i) = filter (accepted_by c i) b"
      using t(4) by (simp_all add: plugin_inv_def)
    moreover have "m_incoming (deliver m (plugin_at s i)) =
        m_incoming (plugin_at s i) @ filter (accepted_by c i) [m]"
      using acc by (simp add: deliver_def receive_def)
    ultimately show ?thesis
      using True t(1-3) by (simp add: plugin_inv_def)
  qed
  then show ?thesis
    using assms(3) io_offer d last by (simp add: system_inv_def count_plugins_def)
next
  case (io_end m)
  then show ?thesis
    using assms(3)
    by (simp add: system_inv_def count_plugins_def plugin_inv_def plugin_at_def offered_def)
qed

lemma system_inv_thread_turn:
  assumes "thread_turn i s t" and "fresh_core c" and "system_inv c s"
  shows "system_inv c t"
proof -
  have "i < count_plugins s" using assms(1) by (cases rule: thread_turn.cases)
  note i = system_inv_plugin [OF assms(2,3) this]
  from assms(1) i(2) obtain q ms es where q: "thread_step (plugin_at s i) q ms es" and
    t: "t = s\<lparr>s_core := (s_core s)\<lparr>m_plugins := (m_plugins (s_core s))[i := q],
       outgoing := outgoing (s_core s) @ map line_of es\<rparr>, s_taken := (s_taken s)(i := s_taken s i @ ms)\<rparr>"
    by (rule thread_turn_effect)
  have n: "count_plugins s = length (m_plugins c)" using assms(3) by (simp add: system_inv_def)
  have "plugin_inv c t k" if "k < length (m_plugins c)" for k
  proof (cases "k = i")
    case False
    have "plugin_inv c s k" using that assms(3) by (simp add: system_inv_def)
    then show ?thesis
      by (rule plugin_inv_frame, goal_cases)
        (use False t in \<open>simp_all add: plugin_at_def\<close>, rule offered_cong, simp_all)
  next
    case True
    have "plugin_inv c s i" using that True assms(3) by (simp add: system_inv_def)
    moreover have "plugin_at t i = q" "s_taken t i = s_taken s i @ ms"
      using t i(1) n by (simp_all add: plugin_at_def count_plugins_def)
    moreover have "offered t i = offered s i" by (rule offered_cong) (simp_all add: t)
    ultimately show ?thesis
      using True thread_step_frame [OF q] by (auto simp: plugin_inv_def intro: same_kind_trans)
  qed
  then show ?thesis
    using assms(3) t i(1) by (simp add: system_inv_def count_plugins_def)
qed

lemma system_inv_step: "system_step s t \<Longrightarrow> fresh_core c \<Longrightarrow> system_inv c s \<Longrightarrow> system_inv c t"
  by (auto simp: system_step_def intro: system_inv_io_step system_inv_thread_turn)

lemma system_inv_reach: "system_reach c s \<Longrightarrow> fresh_core c \<Longrightarrow> system_inv c s"
  by (induction rule: system_reach.induct) (auto intro: system_inv_session system_inv_step)


section \<open>The system refines the log\<close>

lemma parse_appends: "prefix (m_messages p) (m_messages (parse p b))"
proof -
  have "earlier (m_messages p) (p\<lparr>m_messages := []\<rparr>) = p" by (simp add: earlier_def)
  then have "m_messages (parse p b) = m_messages p @ m_messages (parse (p\<lparr>m_messages := []\<rparr>) b)"
    using earlier_parse [of "m_messages p" "p\<lparr>m_messages := []\<rparr>" b] by (metis earlier_simps(3))
  then show ?thesis by (metis prefixI)
qed

lemma offered_prefix: "prefix (offered s i) (s_dispatched s)"
proof (cases "s_io s")
  case (IO_Offer m j)
  then show ?thesis by (simp add: offered_def prefixeq_butlast)
qed (simp_all add: offered_def)

lemma filter_prefix: "prefix xs ys \<Longrightarrow> prefix (filter P xs) (filter P ys)"
  by (auto simp: prefix_def)

text \<open>What a plugin has taken is the beginning of what the log has for it.\<close>

lemma taken_prefix:
  assumes "system_inv c s" and "i < length (m_plugins c)"
  shows "prefix (s_taken s i) (filter (accepted_by c i) (bus_log (bus_of s)))"
proof -
  have "prefix (s_taken s i) (filter (accepted_by c i) (offered s i))"
    using assms by (simp add: system_inv_def plugin_inv_def prefix_def) metis
  also have "prefix \<dots> (filter (accepted_by c i) (s_dispatched s))"
    using offered_prefix by (rule filter_prefix)
  also have "prefix \<dots> (filter (accepted_by c i) (bus_log (bus_of s)))"
    by (rule filter_prefix) (simp add: bus_of_def)
  finally show ?thesis .
qed

lemma io_step_refines: "io_step s t \<Longrightarrow> fresh_core c \<Longrightarrow> system_inv c s \<Longrightarrow>
  (bus_step acc)\<^sup>*\<^sup>* (bus_of s) (bus_of t)"
proof (induction rule: io_step.induct)
  case (io_receive s bytes)
  obtain ms where ms: "m_messages (parse (m_parser (s_core s)) bytes) = m_messages (m_parser (s_core s)) @ ms"
    using parse_appends by (rule prefixE)
  have "bus_step acc (bus_of s) ((bus_of s)\<lparr>bus_log := bus_log (bus_of s) @ ms\<rparr>)" by (rule bus_append)
  then show ?case by (intro r_into_rtranclp) (simp add: bus_of_def ms)
next
  case (io_next s m q)
  then have "s_dispatched s @ m_messages (m_parser (s_core s)) = (s_dispatched s @ [m]) @ m_messages q"
    by (auto simp: getMessage_def split: list.splits)
  then show ?case by (simp add: bus_of_def)
next
  case (io_offer s m i d)
  then have "d = (s_core s)\<lparr>m_plugins := (m_plugins (s_core s))[i := deliver m (plugin_at s i)]\<rparr>"
    by (intro offer_effect)
  then show ?case by (simp add: bus_of_def)
qed (simp_all add: bus_of_def startAsyncReceive_def)

lemma thread_turn_refines:
  assumes "thread_turn i s t" and "fresh_core c" and "system_inv c s"
  shows "(bus_step (accepted_by c))\<^sup>*\<^sup>* (bus_of s) (bus_of t)"
proof -
  have "i < count_plugins s" using assms(1) by (cases rule: thread_turn.cases)
  note i = system_inv_plugin [OF assms(2,3) this]
  from assms(1) i(2) obtain q ms es where q: "thread_step (plugin_at s i) q ms es" and
    t: "t = s\<lparr>s_core := (s_core s)\<lparr>m_plugins := (m_plugins (s_core s))[i := q],
       outgoing := outgoing (s_core s) @ map line_of es\<rparr>, s_taken := (s_taken s)(i := s_taken s i @ ms)\<rparr>"
    by (rule thread_turn_effect)
  have b: "bus_of t = (bus_of s)\<lparr>bus_read := (bus_read (bus_of s))(i := bus_read (bus_of s) i @ ms)\<rparr>"
    by (simp add: bus_of_def t)
  have p: "prefix (s_taken t i) (filter (accepted_by c i) (bus_log (bus_of t)))"
    using system_inv_thread_turn [OF assms] i(1) by (rule taken_prefix)
  show ?thesis
  proof (cases ms)
    case Nil
    then show ?thesis by (simp add: b)
  next
    case (Cons m ms')
    with thread_step_frame(3) [OF q] have ms: "ms = [m]" by (cases ms') auto
    have "prefix (bus_read (bus_of s) i @ [m]) (filter (accepted_by c i) (bus_log (bus_of s)))"
      using p by (simp add: bus_of_def t ms)
    from bus_take [where acc = "accepted_by c", OF this] show ?thesis by (simp add: b ms r_into_rtranclp)
  qed
qed

lemma system_step_refines:
  assumes "system_step s t" and "fresh_core c" and "system_inv c s"
  shows "(bus_step (accepted_by c))\<^sup>*\<^sup>* (bus_of s) (bus_of t)"
  using assms by (auto simp: system_step_def intro: io_step_refines thread_turn_refines)

section \<open>Catching up\<close>

text \<open>
  A plugin whose thread is in its loop, whose handlers end without a fault and whose filter answers
  every message.
\<close>

definition responsive :: "('n, 'x) plugin \<Rightarrow> bool" where
  "responsive p \<longleftrightarrow> m_running p \<and> (m_thread p \<in> {Looping, Waiting} \<or> busy p) \<and> quiet_class (m_class p) \<and>
     m_command_parser p = None \<and> self_contained p \<and> (\<forall>m x. \<exists>b. filter_message (m_class p) m x = Inr b)"

definition own_step :: "('n, 'x) plugin \<Rightarrow> ('n, 'x) plugin \<Rightarrow> bool" where
  "own_step p q \<longleftrightarrow> (\<exists>ms es. thread_step p q ms es)"

lemma responsive_same_kind:
  assumes "responsive p" and "same_kind p q" and "m_running q" and "m_thread q \<in> {Looping, Waiting} \<or> busy q"
  shows "responsive q"
  using assms self_contained_same_kind [OF assms(2)] by (simp add: responsive_def same_kind_def)

lemma responsive_looping: "responsive p \<Longrightarrow> m_thread p = Looping \<Longrightarrow> own_step p (set_thread Waiting p)"
  using plugin_step.ps_test [of "started p"]
  by (force simp: own_step_def thread_step_def started_def responsive_def)

lemma thread_take:
  "m_thread p = Waiting \<Longrightarrow> m_incoming p = m # ms \<Longrightarrow>
   thread_step p (set_thread (Handling m) (p\<lparr>m_incoming := ms\<rparr>)) [m] []"
  using plugin_step.ps_take [of "started p" m "p\<lparr>m_incoming := ms\<rparr>"]
  by (force simp: thread_step_def started_def getCommand_def)

lemma thread_handle:
  "m_thread p = Handling m \<Longrightarrow> run_handler u (process_message m p) p = (q, es, None) \<Longrightarrow>
   thread_step p (set_thread Looping q) [] es"
  using plugin_step.ps_handle [of "started p" m u q es None]
  by (force simp: thread_step_def started_def after_handler_def)

lemma system_turn:
  assumes "i < count_plugins s" and "thread_step (plugin_at s i) q ms es" and "\<forall>e \<in> set es. is_send e"
  shows "system_step s (s\<lparr>s_core := (s_core s)\<lparr>m_plugins := (m_plugins (s_core s))[i := q],
    outgoing := outgoing (s_core s) @ map line_of es\<rparr>, s_taken := (s_taken s)(i := s_taken s i @ ms)\<rparr>)"
  using tt_step [OF assms(1,2) perform_sends [OF assms(3)]] by (auto simp: system_step_def)

lemma responsive_waiting:
  assumes "m_thread p = Waiting" and "m_incoming p = m # ms"
  shows "own_step p (set_thread (Handling m) (p\<lparr>m_incoming := ms\<rparr>))"
  using thread_take [OF assms] by (auto simp: own_step_def)

lemma responsive_handling:
  assumes "responsive p" and "m_thread p = Handling m"
  shows "\<exists>q. own_step p q \<and> responsive q \<and> m_thread q = Looping \<and> m_incoming q = m_incoming p"
proof -
  obtain q es f where run: "run_handler 0 (process_message m p) p = (q, es, f)"
    by (cases "run_handler 0 (process_message m p) p") auto
  moreover have "f = None"
  proof -
    let ?w = "\<lparr>w_config = m_cfg p, w_uptime = 0, object = m_object p, effects = []\<rparr>"
    have "process_message m p = onMessage (m_class p) m" and "fst (onMessage (m_class p) m ?w) = None"
      using assms(1) by (simp_all add: process_message_def responsive_def quiet_class_def)
    with run show ?thesis by (auto simp: run_handler_def split: prod.splits)
  qed
  ultimately have "own_step p (set_thread Looping q)"
    using thread_handle [OF assms(2)] unfolding own_step_def by blast
  moreover have "responsive (set_thread Looping q)"
    by (rule responsive_same_kind [OF assms(1)])
      (use assms(1) run_handler_frame(2) [OF run] same_kind_handler [OF run] in \<open>simp_all add: responsive_def\<close>)
  ultimately show ?thesis using run_handler_frame(1) [OF run] by (intro exI [of _ "set_thread Looping q"]) simp
qed

lemma responsive_free:
  assumes "responsive p"
  shows "\<exists>q. own_step\<^sup>*\<^sup>* p q \<and> responsive q \<and> \<not> busy q \<and> m_incoming q = m_incoming p"
proof (cases "busy p")
  case True
  then obtain m where "m_thread p = Handling m" by (auto simp: busy_def)
  from responsive_handling [OF assms this] show ?thesis by (auto simp: busy_def)
next
  case False
  with assms show ?thesis by blast
qed

text \<open>One round of the loop takes one message.\<close>

lemma responsive_round:
  assumes "responsive p" and "\<not> busy p" and "m_incoming p = m # ms"
  shows "\<exists>q. own_step\<^sup>*\<^sup>* p q \<and> responsive q \<and> \<not> busy q \<and> m_incoming q = ms"
proof -
  obtain w where w: "own_step\<^sup>*\<^sup>* p w" "responsive w" "m_thread w = Waiting" "m_incoming w = m # ms"
  proof (cases "m_thread p = Waiting")
    case True
    with assms that [of p] show thesis by simp
  next
    case False
    with assms(1,2) have l: "m_thread p = Looping" by (auto simp: responsive_def)
    have "responsive (set_thread Waiting p)"
      by (rule responsive_same_kind [OF assms(1)]) (use assms(1) in \<open>simp_all add: responsive_def\<close>)
    with r_into_rtranclp [where r = own_step, OF responsive_looping [OF assms(1) l]]
      that [of "set_thread Waiting p"] assms(3)
    show thesis by simp
  qed
  let ?h = "set_thread (Handling m) (w\<lparr>m_incoming := ms\<rparr>)"
  have h: "own_step w ?h" using w(3,4) by (rule responsive_waiting)
  have "same_kind w ?h" by (simp add: same_kind_def set_thread_def)
  with w(2) have "responsive ?h" by (rule responsive_same_kind) (use w(2) in \<open>simp_all add: responsive_def busy_def\<close>)
  from responsive_handling [OF this, of m] obtain q where
    q: "own_step ?h q" "responsive q" "m_thread q = Looping" "m_incoming q = ms" by auto
  from w(1) h q(1) have "own_step\<^sup>*\<^sup>* p q" by (meson rtranclp.rtrancl_into_rtrancl)
  with q show ?thesis by (auto simp: busy_def)
qed

lemma responsive_drain:
  "responsive p \<Longrightarrow> \<exists>q. own_step\<^sup>*\<^sup>* p q \<and> responsive q \<and> \<not> busy q \<and> m_incoming q = []"
proof (induction "m_incoming p" arbitrary: p)
  case Nil
  from responsive_free [OF Nil.prems] Nil.hyps show ?case by auto
next
  case (Cons m ms)
  from responsive_free [OF Cons.prems] Cons.hyps(2) obtain q where
    q: "own_step\<^sup>*\<^sup>* p q" "responsive q" "\<not> busy q" "m_incoming q = m # ms" by auto
  from responsive_round [OF q(2-4)] obtain r where
    r: "own_step\<^sup>*\<^sup>* q r" "responsive r" "m_incoming r = ms" by blast
  from Cons.hyps(1) [OF r(3) [symmetric] r(2)] q(1) r(1) show ?case by (meson rtranclp_trans)
qed

text \<open>What a thread can do alone, it can do in the system; everything else stays as it is.\<close>

definition same_io :: "('n, 'x) system \<Rightarrow> ('n, 'x) system \<Rightarrow> bool" where
  "same_io s t \<longleftrightarrow> s_io t = s_io s \<and> s_chunks t = s_chunks s \<and> m_parser (s_core t) = m_parser (s_core s) \<and>
     count_plugins t = count_plugins s"

lemma own_step_lift:
  assumes "own_step (plugin_at s i) q" and "i < count_plugins s" and "self_contained (plugin_at s i)"
  shows "\<exists>t. system_step s t \<and> same_io s t \<and> plugin_at t i = q \<and> (\<forall>k. k \<noteq> i \<longrightarrow> plugin_at t k = plugin_at s k)"
proof -
  from assms(1) obtain ms es where p: "thread_step (plugin_at s i) q ms es" by (auto simp: own_step_def)
  from system_turn [OF assms(2) p thread_step_sends [OF p assms(3)]] show ?thesis
    using assms(2) by (intro exI conjI) (assumption, simp_all add: same_io_def count_plugins_def plugin_at_def)
qed

lemma own_steps_lift:
  "own_step\<^sup>*\<^sup>* p q \<Longrightarrow> plugin_at s i = p \<Longrightarrow> i < count_plugins s \<Longrightarrow> self_contained p \<Longrightarrow>
   \<exists>t. system_step\<^sup>*\<^sup>* s t \<and> same_io s t \<and> plugin_at t i = q \<and> (\<forall>k. k \<noteq> i \<longrightarrow> plugin_at t k = plugin_at s k)"
proof (induction arbitrary: s rule: converse_rtranclp_induct)
  case base
  then show ?case by (auto simp: same_io_def)
next
  case (step p p')
  from own_step_lift [of s i p'] step.hyps(1) step.prems obtain u where
    u: "system_step s u" "same_io s u" "plugin_at u i = p'" "\<forall>k. k \<noteq> i \<longrightarrow> plugin_at u k = plugin_at s k" by auto
  have "self_contained p'"
    using step.hyps(1) step.prems(3) by (auto simp: own_step_def dest!: thread_step_frame(1) self_contained_same_kind)
  moreover have "i < count_plugins u" using u(2) step.prems(2) by (simp add: same_io_def)
  ultimately obtain t where "system_step\<^sup>*\<^sup>* u t" "same_io u t" "plugin_at t i = q"
    "\<forall>k. k \<noteq> i \<longrightarrow> plugin_at t k = plugin_at u k" using step.IH [OF u(3)] by blast
  with u show ?case
    by (intro exI [of _ t]) (auto simp: same_io_def intro: converse_rtranclp_into_rtranclp)
qed

text \<open>
  Sessions in which every plugin is responsive; \<open>catching_up s t\<close>: from \<open>s\<close> to \<open>t\<close> without reading
  from the server.
\<close>

definition all_responsive :: "('n, 'x) system \<Rightarrow> bool" where
  "all_responsive s \<longleftrightarrow> (\<forall>i < count_plugins s. responsive (plugin_at s i))"

definition catching_up :: "('n, 'x) system \<Rightarrow> ('n, 'x) system \<Rightarrow> bool" where
  "catching_up s t \<longleftrightarrow> system_step\<^sup>*\<^sup>* s t \<and> s_chunks t = s_chunks s \<and> all_responsive t \<and>
     count_plugins t = count_plugins s"

lemma catching_up_refl: "all_responsive s \<Longrightarrow> catching_up s s"
  by (simp add: catching_up_def)

lemma catching_up_trans: "catching_up s t \<Longrightarrow> catching_up t u \<Longrightarrow> catching_up s u"
  by (auto simp: catching_up_def)

lemma catching_up_plugin:
  assumes "all_responsive s" and "i < count_plugins s"
    and "own_step\<^sup>*\<^sup>* (plugin_at s i) q" and "responsive q"
  shows "\<exists>t. catching_up s t \<and> same_io s t \<and> plugin_at t i = q \<and> (\<forall>k. k \<noteq> i \<longrightarrow> plugin_at t k = plugin_at s k)"
proof -
  have "self_contained (plugin_at s i)" using assms(1,2) by (simp add: all_responsive_def responsive_def)
  from own_steps_lift [OF assms(3) refl assms(2) this] obtain t where
    t: "system_step\<^sup>*\<^sup>* s t" "same_io s t" "plugin_at t i = q" "\<forall>k. k \<noteq> i \<longrightarrow> plugin_at t k = plugin_at s k" by blast
  have "responsive (plugin_at t k)" if "k < count_plugins t" for k
    using that t(2-4) assms(1,4) by (cases "k = i") (simp_all add: all_responsive_def same_io_def)
  with t show ?thesis by (auto simp: catching_up_def same_io_def all_responsive_def)
qed

text \<open>The I/O thread offers its message to all plugins, waiting for the mutex of each.\<close>

lemma offer_now:
  assumes "all_responsive s" and "s_io s = IO_Offer m i" and "i < count_plugins s" and "\<not> busy (plugin_at s i)"
  shows "\<exists>t. catching_up s t \<and> s_io t = IO_Offer m (Suc i) \<and> m_parser (s_core t) = m_parser (s_core s)"
proof -
  let ?p = "plugin_at s i"
  have p: "responsive ?p" using assms(1,3) by (simp add: all_responsive_def)
  then obtain b where b: "filter_message (m_class ?p) m (m_object ?p) = Inr b" by (auto simp: responsive_def)
  have "\<exists>c. offer m i (s_core s) = Inr c"
    using assms(3) b by (simp add: offer_def vec_at_def plugin_at_def count_plugins_def)
  then obtain c where c: "offer m i (s_core s) = Inr c" by blast
  let ?t = "s\<lparr>s_core := c, s_io := IO_Offer m (Suc i)\<rparr>"
  have d: "c = (s_core s)\<lparr>m_plugins := (m_plugins (s_core s))[i := deliver m ?p]\<rparr>"
    using c assms(3) by (rule offer_effect)
  have "system_step s ?t" using io_offer [OF assms(2,3) c] assms(4) by (simp add: system_step_def)
  moreover have "responsive (deliver m ?p)"
    by (rule responsive_same_kind [OF p])
      (use p in \<open>simp_all add: responsive_def deliver_def busy_def split: if_split\<close>)
  then have "all_responsive ?t"
    using assms(1,3) by (auto simp: all_responsive_def d plugin_at_def count_plugins_def nth_list_update)
  ultimately show ?thesis
    by (intro exI [of _ ?t]) (auto simp: catching_up_def d count_plugins_def)
qed

lemma offer_all:
  "all_responsive s \<Longrightarrow> s_io s = IO_Offer m i \<Longrightarrow> i \<le> count_plugins s \<Longrightarrow>
   \<exists>t. catching_up s t \<and> s_io t = IO_Messages \<and> m_parser (s_core t) = m_parser (s_core s)"
proof (induction "count_plugins s - i" arbitrary: s i)
  case 0
  then have "s_io s = IO_Offer m (count_plugins s)" by simp
  then have "system_step s (s\<lparr>s_io := IO_Messages\<rparr>)" by (auto simp: system_step_def intro: io_end)
  with 0 show ?case
    by (intro exI [of _ "s\<lparr>s_io := IO_Messages\<rparr>"])
      (auto simp: catching_up_def all_responsive_def count_plugins_def plugin_at_def)
next
  case (Suc n)
  then have i: "i < count_plugins s" by simp
  then have "responsive (plugin_at s i)" using Suc.prems(1) by (simp add: all_responsive_def)
  from responsive_free [OF this] obtain q where
    q: "own_step\<^sup>*\<^sup>* (plugin_at s i) q" "responsive q" "\<not> busy q" by blast
  from catching_up_plugin [OF Suc.prems(1) i q(1,2)] obtain u where
    u: "catching_up s u" "same_io s u" "plugin_at u i = q" by blast
  have "all_responsive u" using u(1) by (simp add: catching_up_def)
  moreover have "s_io u = IO_Offer m i" "i < count_plugins u" "\<not> busy (plugin_at u i)"
    using u q(3) Suc.prems(2) i by (simp_all add: same_io_def)
  ultimately obtain v where
    v: "catching_up u v" "s_io v = IO_Offer m (Suc i)" "m_parser (s_core v) = m_parser (s_core u)"
    using offer_now by blast
  have n: "count_plugins v = count_plugins s" using u(1) v(1) by (simp add: catching_up_def)
  have "n = count_plugins v - Suc i" using Suc.hyps(2) n by linarith
  moreover have "all_responsive v" using v(1) by (simp add: catching_up_def)
  ultimately obtain t where
    "catching_up v t" "s_io t = IO_Messages" "m_parser (s_core t) = m_parser (s_core v)"
    using Suc.hyps(1) [of v "Suc i"] i n v(2) by auto
  with u v show ?case by (metis catching_up_trans same_io_def)
qed

text \<open>The loop over the parsed messages ends.\<close>

lemma dispatch_all:
  "all_responsive s \<Longrightarrow> s_io s = IO_Messages \<Longrightarrow>
   \<exists>t. catching_up s t \<and> s_io t = IO_Idle \<and> m_messages (m_parser (s_core t)) = []"
proof (induction "messagesCount (m_parser (s_core s))" arbitrary: s)
  case 0
  let ?t = "s\<lparr>s_core := startAsyncReceive (s_core s), s_io := IO_Idle\<rparr>"
  have "system_step s ?t" using io_done [OF 0(3)] 0(1) by (simp add: system_step_def)
  with 0 show ?case
    by (intro exI [of _ ?t]) (auto simp: catching_up_def all_responsive_def count_plugins_def plugin_at_def
        startAsyncReceive_def messagesCount_def)
next
  case (Suc n)
  then obtain m ms where ms: "m_messages (m_parser (s_core s)) = m # ms" "length ms = n"
    by (cases "m_messages (m_parser (s_core s))") (auto simp: messagesCount_def)
  let ?q = "(m_parser (s_core s))\<lparr>m_messages := ms\<rparr>"
  let ?u = "s\<lparr>s_core := (s_core s)\<lparr>m_parser := ?q\<rparr>, s_io := IO_Offer m 0, s_dispatched := s_dispatched s @ [m]\<rparr>"
  have "getMessage (m_parser (s_core s)) = Inr (m, ?q)" using ms by (simp add: getMessage_def)
  from io_next [OF Suc.prems(2) this] have "system_step s ?u" by (simp add: system_step_def)
  then have u: "catching_up s ?u" "all_responsive ?u"
    using Suc.prems(1) by (auto simp: catching_up_def all_responsive_def count_plugins_def plugin_at_def)
  from offer_all [OF u(2)] obtain v where
    v: "catching_up ?u v" "s_io v = IO_Messages" "m_parser (s_core v) = ?q" by auto
  have "all_responsive v" using v(1) by (simp add: catching_up_def)
  with Suc.hyps(1) [of v] v ms obtain t where
    "catching_up v t" "s_io t = IO_Idle" "m_messages (m_parser (s_core t)) = []" by (auto simp: messagesCount_def)
  with u(1) v(1) show ?case by (meson catching_up_trans)
qed

text \<open>Then the plugins empty their mailboxes, one after the other.\<close>

lemma drain_plugins:
  "all_responsive s \<Longrightarrow> n \<le> count_plugins s \<Longrightarrow>
   \<exists>t. catching_up s t \<and> same_io s t \<and> (\<forall>i < n. m_incoming (plugin_at t i) = [])"
proof (induction n)
  case 0
  then show ?case by (intro exI [of _ s]) (simp add: catching_up_refl same_io_def)
next
  case (Suc n)
  then obtain t where t: "catching_up s t" "same_io s t" "\<forall>i < n. m_incoming (plugin_at t i) = []" by auto
  have r: "all_responsive t" and n: "n < count_plugins t" using t(1) Suc.prems(2) by (auto simp: catching_up_def)
  then have "responsive (plugin_at t n)" by (simp add: all_responsive_def)
  from responsive_drain [OF this] obtain q where
    q: "own_step\<^sup>*\<^sup>* (plugin_at t n) q" "responsive q" "m_incoming q = []" by blast
  from catching_up_plugin [OF r n q(1,2)] obtain u where
    u: "catching_up t u" "same_io t u" "plugin_at u n = q" "\<forall>k. k \<noteq> n \<longrightarrow> plugin_at u k = plugin_at t k" by blast
  have "m_incoming (plugin_at u i) = []" if "i < Suc n" for i
    using that t(3) u(3,4) q(3) by (cases "i = n") auto
  with t u show ?case by (intro exI [of _ u]) (auto simp: same_io_def intro: catching_up_trans)
qed

text \<open>While the I/O thread waits for the server, the parser has no message left.\<close>

lemma idle_parser_empty:
  "system_reach c s \<Longrightarrow> fresh_core c \<Longrightarrow> m_messages (m_parser c) = [] \<Longrightarrow> s_io s = IO_Idle \<Longrightarrow>
   m_messages (m_parser (s_core s)) = []"
proof (induction rule: system_reach.induct)
  case sr_init
  then show ?case by (simp add: session_def)
next
  case (sr_step s t)
  have inv: "system_inv c s" using sr_step.hyps(1) sr_step.prems(1) by (rule system_inv_reach)
  show ?case
  proof (cases "io_step s t")
    case True
    then show ?thesis using sr_step.prems(3)
      by cases (auto simp: startAsyncReceive_def messagesCount_def)
  next
    case False
    then obtain i where i: "thread_turn i s t" using sr_step.hyps(2) by (auto simp: system_step_def)
    then have "self_contained (plugin_at s i)"
      using system_inv_plugin(2) [OF sr_step.prems(1) inv] by (auto elim: thread_turnE)
    with i have "s_io t = s_io s" "m_parser (s_core t) = m_parser (s_core s)" by (auto elim!: thread_turn_effect)
    with sr_step.IH sr_step.prems show ?thesis by simp
  qed
qed

lemma io_thread_finishes:
  assumes "fresh_core c" and "m_messages (m_parser c) = []" and "system_reach c s" and "all_responsive s"
  shows "\<exists>t. catching_up s t \<and> s_io t = IO_Idle \<and> m_messages (m_parser (s_core t)) = []"
proof (cases "s_io s")
  case IO_Idle
  with idle_parser_empty [OF assms(3,1,2)] assms(4) show ?thesis using catching_up_refl by blast
next
  case IO_Messages
  with dispatch_all [OF assms(4)] show ?thesis by blast
next
  case (IO_Offer m i)
  then have "i \<le> count_plugins s"
    using system_inv_reach [OF assms(3,1)] by (simp add: system_inv_def)
  from offer_all [OF assms(4) IO_Offer this] obtain u where u: "catching_up s u" "s_io u = IO_Messages" by blast
  then have "all_responsive u" by (simp add: catching_up_def)
  from dispatch_all [OF this u(2)] u(1) show ?thesis by (meson catching_up_trans)
qed

section \<open>Contracts of all plugins\<close>

definition under_contract ::
  "('n \<Rightarrow> 'x \<Rightarrow> bool) \<Rightarrow> (irc_message \<Rightarrow> bool) \<Rightarrow> (plugin_effect \<Rightarrow> bool) \<Rightarrow> ('n, 'x) plugin \<Rightarrow> bool" where
  "under_contract J I E p \<longleftrightarrow> plugin_contract J I E (m_class p) (m_functions p) \<and>
     plugin_contract.obeys J I (m_class p) (m_functions p) p"

lemma under_contractI:
  "plugin_contract J I E (m_class p) (m_functions p) \<Longrightarrow> J (m_cfg p) (m_object p) \<Longrightarrow>
   m_incoming p = [] \<Longrightarrow> \<not> busy p \<Longrightarrow> under_contract J I E p"
  by (auto simp: under_contract_def busy_def plugin_contract.obeys_def)

lemma under_contract_object: "under_contract J I E p \<Longrightarrow> J (m_cfg p) (m_object p)"
  by (auto simp: under_contract_def plugin_contract.obeys_def)

lemma under_contract_thread:
  assumes "thread_step p q ms es" and "under_contract J I E p"
  shows "under_contract J I E q \<and> (\<forall>e \<in> set es. E e)"
proof -
  from assms(2) have J: "plugin_contract J I E (m_class p) (m_functions p)"
    "plugin_contract.obeys J I (m_class p) (m_functions p) p" by (simp_all add: under_contract_def)
  moreover have "m_class q = m_class p" "m_functions q = m_functions p"
    using thread_step_frame(1) [OF assms(1)] by (simp_all add: same_kind_def)
  ultimately show ?thesis
    using thread_step_obeys [OF assms(1) J] by (simp add: under_contract_def)
qed

lemma under_contract_deliver:
  assumes "under_contract J I E p" and "I m"
  shows "under_contract J I E (deliver m p)"
proof -
  from assms(1) have J: "plugin_contract J I E (m_class p) (m_functions p)" by (simp add: under_contract_def)
  with assms have "plugin_contract.obeys J I (m_class p) (m_functions p) (deliver m p)"
    by (auto simp: under_contract_def plugin_contract.obeys_def [OF J] deliver_def receive_def)
  with J show ?thesis by (auto simp: under_contract_def deliver_def receive_def)
qed

text \<open>
  The messages that are anywhere in a session satisfy \<open>I\<close>, what was sent satisfies \<open>E\<close>, and the plugin at an
  index has a state within its part of \<open>J\<close>.
\<close>

definition contract_inv ::
  "(nat \<Rightarrow> 'n \<Rightarrow> 'x \<Rightarrow> bool) \<Rightarrow> (irc_message \<Rightarrow> bool) \<Rightarrow> (plugin_effect \<Rightarrow> bool) \<Rightarrow> ('n, 'x) core \<Rightarrow> ('n, 'x) system \<Rightarrow> bool" where
  "contract_inv J I E c s \<longleftrightarrow> parser_ok (m_parser (s_core s)) \<and> (\<forall>m j. s_io s = IO_Offer m j \<longrightarrow> I m) \<and>
     (\<forall>i < count_plugins s. under_contract (J i) I E (plugin_at s i)) \<and>
     (\<exists>es. outgoing (s_core s) = outgoing c @ map line_of es \<and> (\<forall>e \<in> set es. E e))"

lemma contract_inv_frame:
  "contract_inv J I E c s \<Longrightarrow> outgoing (s_core t) = outgoing (s_core s) \<Longrightarrow>
   m_plugins (s_core t) = m_plugins (s_core s) \<Longrightarrow> parser_ok (m_parser (s_core t)) \<Longrightarrow>
   (\<And>m j. s_io t = IO_Offer m j \<Longrightarrow> I m) \<Longrightarrow> contract_inv J I E c t"
  by (simp add: contract_inv_def plugin_at_def count_plugins_def)

lemma contract_inv_io_step:
  assumes "io_step s t" and "\<And>m. message_ok m \<Longrightarrow> I m" and "contract_inv J I E c s"
  shows "contract_inv J I E c t"
  using assms(1)
proof cases
  case (io_receive bytes)
  then show ?thesis
    by (intro contract_inv_frame [OF assms(3)])
      (use assms(3) in \<open>simp_all add: contract_inv_def parser_ok_parse\<close>)
next
  case (io_next m q)
  have "parser_ok (m_parser (s_core s))" using assms(3) by (simp add: contract_inv_def)
  with io_next(3) have "parser_ok q" "message_ok m" using parser_ok_getMessage by blast+
  with io_next(1) assms(2,3) show ?thesis by (elim contract_inv_frame) simp_all
next
  case io_done
  then show ?thesis
    by (intro contract_inv_frame [OF assms(3)])
      (use assms(3) in \<open>simp_all add: contract_inv_def startAsyncReceive_def\<close>)
next
  case (io_offer m i d)
  have d: "d = (s_core s)\<lparr>m_plugins := (m_plugins (s_core s))[i := deliver m (plugin_at s i)]\<rparr>"
    using io_offer(3,4) by (intro offer_effect)
  have "under_contract (J i) I E (deliver m (plugin_at s i))"
    using assms(3) io_offer(2,3) by (intro under_contract_deliver) (auto simp: contract_inv_def)
  then have "\<forall>k < count_plugins t. under_contract (J k) I E (plugin_at t k)"
    using assms(3) io_offer(1,3)
    by (auto simp: contract_inv_def d plugin_at_def count_plugins_def nth_list_update)
  then show ?thesis
    using assms(3) io_offer(1,2) by (simp add: contract_inv_def d)
next
  case (io_end m)
  then show ?thesis
    by (intro contract_inv_frame [OF assms(3)]) (use assms(3) in \<open>simp_all add: contract_inv_def\<close>)
qed

lemma contract_inv_thread_turn:
  assumes "thread_turn i s t" and "self_contained (plugin_at s i)" and "contract_inv J I E c s"
  shows "contract_inv J I E c t"
proof -
  from assms(1,2) obtain q ms es where i: "i < count_plugins s" and q: "thread_step (plugin_at s i) q ms es" and
    t: "t = s\<lparr>s_core := (s_core s)\<lparr>m_plugins := (m_plugins (s_core s))[i := q],
       outgoing := outgoing (s_core s) @ map line_of es\<rparr>, s_taken := (s_taken s)(i := s_taken s i @ ms)\<rparr>"
    by (rule thread_turn_effect)
  have "under_contract (J i) I E (plugin_at s i)" using assms(3) i by (simp add: contract_inv_def)
  note q' = under_contract_thread [OF q this]
  then have "\<forall>k < count_plugins t. under_contract (J k) I E (plugin_at t k)"
    using assms(3) i by (auto simp: contract_inv_def t plugin_at_def count_plugins_def nth_list_update)
  moreover obtain fs where "outgoing (s_core s) = outgoing c @ map line_of fs" "\<forall>e \<in> set fs. E e"
    using assms(3) by (auto simp: contract_inv_def)
  then have "outgoing (s_core t) = outgoing c @ map line_of (fs @ es)" "\<forall>e \<in> set (fs @ es). E e"
    using q' by (auto simp: t)
  then have "\<exists>gs. outgoing (s_core t) = outgoing c @ map line_of gs \<and> (\<forall>e \<in> set gs. E e)" by blast
  moreover have "parser_ok (m_parser (s_core t))" "\<forall>m j. s_io t = IO_Offer m j \<longrightarrow> I m"
    using assms(3) by (simp_all add: contract_inv_def t)
  ultimately show ?thesis unfolding contract_inv_def by blast
qed

lemma contract_inv_reach:
  assumes "system_reach c s" and "fresh_core c" and "parser_ok (m_parser c)"
    and "\<And>m. message_ok m \<Longrightarrow> I m" and "\<forall>i < length (m_plugins c). under_contract (J i) I E (m_plugins c ! i)"
  shows "contract_inv J I E c s"
  using assms(1)
proof (induction rule: system_reach.induct)
  case sr_init
  show ?case using assms(3,5) by (simp add: contract_inv_def session_def plugin_at_def count_plugins_def)
next
  case (sr_step s t)
  show ?case
  proof (cases "io_step s t")
    case True
    then show ?thesis using assms(4) sr_step.IH by (rule contract_inv_io_step)
  next
    case False
    then obtain i where i: "thread_turn i s t" using sr_step.hyps(2) by (auto simp: system_step_def)
    then have "self_contained (plugin_at s i)"
      using system_inv_plugin(2) [OF assms(2) system_inv_reach [OF sr_step.hyps(1) assms(2)]]
      by (auto elim: thread_turnE)
    with i show ?thesis using sr_step.IH by (rule contract_inv_thread_turn)
  qed
qed

lemma dispatched_ok:
  assumes "system_inv c s" and "parser_ok (m_parser c)"
  shows "\<forall>m \<in> set (s_dispatched s). message_ok m"
proof -
  have "parser_ok (fold (\<lambda>b p. parse p b) bs (m_parser c))" for bs
    by (induction bs rule: rev_induct) (simp_all add: assms(2) parser_ok_parse)
  then have "parser_ok (earlier (s_dispatched s) (m_parser (s_core s)))"
    using assms(1) by (simp add: system_inv_def) metis
  then show ?thesis by (simp add: parser_ok_def)
qed

section \<open>Properties\<close>

text \<open>
  Remark: every session refines the log with cursors: whatever the interleaving of the I/O thread and
  the threads of the plugins, each step appends to the log, lets one plugin read its next accepted
  message, or changes nothing that the log shows.
\<close>

theorem session_refines_log:
  assumes "fresh_core c" and "m_messages (m_parser c) = []" and "system_reach c s"
  shows "(bus_step (accepted_by c))\<^sup>*\<^sup>* empty_bus (bus_of s)"
  using assms(3)
proof (induction rule: system_reach.induct)
  case sr_init
  show ?case using assms(2) by (simp add: session_def bus_of_def empty_bus_def)
next
  case (sr_step s t)
  from system_step_refines [OF sr_step.hyps(2) assms(1) system_inv_reach [OF sr_step.hyps(1) assms(1)]] sr_step.IH
  show ?case by (rule rtranclp_trans [rotated])
qed

text \<open>
  C29: while the text of a stream of messages arrives, in reads that may end at any of the points of
  \<open>line_pieces\<close>, then at every moment of a session what each plugin has handled and what waits in its mailbox is
  the beginning of the messages that it accepts, in order; and when the whole text has been read, the I/O thread waits for
  the server and the mailbox is empty, the plugin has handled all of them.
\<close>

theorem session_stream_in_order:
  assumes "fresh_core c" and "idle (m_parser c)" and "m_messages (m_parser c) = []"
    and "system_reach c s" and "i < length (m_plugins c)" and "\<forall>m \<in> set ms. canonical m"
    and "s_chunks s = map concat reads" and "concat reads @ rest = concat (map line_pieces ms)"
  shows "prefix (s_taken s i @ m_incoming (plugin_at s i)) (filter (accepted_by c i) ms) \<and>
    (rest = [] \<and> s_io s = IO_Idle \<and> m_incoming (plugin_at s i) = [] \<longrightarrow> s_taken s i = filter (accepted_by c i) ms)"
proof -
  have inv: "system_inv c s" using assms(4,1) by (rule system_inv_reach)
  let ?p = "fold (\<lambda>b p. parse p b) (s_chunks s) (m_parser c)"
  have log: "m_messages ?p = s_dispatched s @ m_messages (m_parser (s_core s))"
    using inv by (simp add: system_inv_def)
  have all: "parse ?p (concat rest) = (m_parser c)\<lparr>m_messages := ms\<rparr>"
    using parse_cut [OF assms(2,6), of "reads @ [rest]"] assms(3,7,8) by (simp add: fold_map comp_def)
  then have pre: "prefix (s_dispatched s @ m_messages (m_parser (s_core s))) ms"
    using parse_appends [of ?p "concat rest"] log by simp
  then have "prefix (s_dispatched s) ms" by (meson append_prefixD)
  with offered_prefix have "prefix (offered s i) ms" by (rule prefix_order.trans)
  moreover have h: "s_taken s i @ m_incoming (plugin_at s i) = filter (accepted_by c i) (offered s i)"
    using inv assms(5) by (simp add: system_inv_def plugin_inv_def)
  ultimately have "prefix (s_taken s i @ m_incoming (plugin_at s i)) (filter (accepted_by c i) ms)"
    by (simp add: filter_prefix)
  moreover have "s_taken s i = filter (accepted_by c i) ms"
    if "rest = []" "s_io s = IO_Idle" "m_incoming (plugin_at s i) = []"
  proof -
    have "m_messages (m_parser (s_core s)) = []" using idle_parser_empty [OF assms(4,1,3) that(2)] .
    moreover have "m_messages ?p = ms" using all that(1) by (simp add: parse_def lexer_def)
    ultimately have "s_dispatched s = ms" using log by simp
    with h that(2,3) show ?thesis by (simp add: offered_def)
  qed
  ultimately show ?thesis by blast
qed

text \<open>
  C30: if every plugin is under the contract of its class at the beginning, for the messages that a parser can deliver, then in every state of a
  session the parser is between two tokens of the grammar, every message that a plugin has handled or has waiting is well
  formed (parameters without CR, LF and NUL, an alphanumeric command, prefix fields without the separators), the object of
  each plugin satisfies its invariant, and all that was sent is what the contracts permit.
\<close>

theorem session_keeps_contracts:
  assumes "fresh_core c" and "parser_ok (m_parser c)" and "system_reach c s"
    and "\<And>m. message_ok m \<Longrightarrow> I m" and "\<forall>i < length (m_plugins c). under_contract (J i) I E (m_plugins c ! i)"
  shows "parser_ok (m_parser (s_core s)) \<and>
    (\<forall>i < length (m_plugins c). J i (m_cfg (m_plugins c ! i)) (m_object (plugin_at s i)) \<and>
       (\<forall>m \<in> set (s_taken s i @ m_incoming (plugin_at s i)). message_ok m)) \<and>
    (\<exists>es. outgoing (s_core s) = outgoing c @ map line_of es \<and> (\<forall>e \<in> set es. E e))"
proof -
  have inv: "system_inv c s" using assms(3,1) by (rule system_inv_reach)
  have con: "contract_inv J I E c s" using assms(3,1,2,4,5) by (rule contract_inv_reach)
  have d: "\<forall>m \<in> set (s_dispatched s). message_ok m" using inv assms(2) by (rule dispatched_ok)
  have "J i (m_cfg (m_plugins c ! i)) (m_object (plugin_at s i)) \<and>
      (\<forall>m \<in> set (s_taken s i @ m_incoming (plugin_at s i)). message_ok m)" if "i < length (m_plugins c)" for i
  proof -
    have i: "s_taken s i @ m_incoming (plugin_at s i) = filter (accepted_by c i) (offered s i)"
      "m_cfg (plugin_at s i) = m_cfg (m_plugins c ! i)" "count_plugins s = length (m_plugins c)"
      using inv that by (simp_all add: system_inv_def plugin_inv_def same_kind_def)
    have "under_contract (J i) I E (plugin_at s i)" using con that i(3) by (simp add: contract_inv_def)
    from under_contract_object [OF this] i(1,2) offered_prefix [of s i] d show ?thesis by (auto dest: set_mono_prefix)
  qed
  with con show ?thesis by (simp add: contract_inv_def)
qed

text \<open>
  C6: a session is never stuck and never loses a message: from every state in which the plugins
  are responsive, without another byte from the server, the threads can reach a state in which the
  I/O thread waits for the server again, all mailboxes are empty and each plugin has handled exactly
  the messages received so far that it accepts.
\<close>

theorem session_can_catch_up:
  assumes "fresh_core c" and "m_messages (m_parser c) = []" and "system_reach c s" and "all_responsive s"
  shows "\<exists>t. system_step\<^sup>*\<^sup>* s t \<and> s_io t = IO_Idle \<and> s_chunks t = s_chunks s \<and>
    (\<forall>i < length (m_plugins c). m_incoming (plugin_at t i) = [] \<and>
      s_taken t i = filter (accepted_by c i) (m_messages (fold (\<lambda>b p. parse p b) (s_chunks s) (m_parser c))))"
proof -
  obtain u where u: "catching_up s u" "s_io u = IO_Idle" "m_messages (m_parser (s_core u)) = []"
    using io_thread_finishes [OF assms] by blast
  then have "all_responsive u" by (simp add: catching_up_def)
  from drain_plugins [OF this order_refl] obtain t where
    t: "catching_up u t" "same_io u t" "\<forall>i < count_plugins u. m_incoming (plugin_at t i) = []" by blast
  have st: "catching_up s t" using u(1) t(1) by (rule catching_up_trans)
  then have "system_reach c t" using assms(3) system_reach_steps by (auto simp: catching_up_def)
  then have inv: "system_inv c t" using assms(1) by (rule system_inv_reach)
  have idle: "s_io t = IO_Idle" "m_messages (m_parser (s_core t)) = []" using t(2) u(2,3) by (simp_all add: same_io_def)
  have "m_messages (fold (\<lambda>b p. parse p b) (s_chunks t) (m_parser c)) = s_dispatched t"
    using inv idle(2) by (simp add: system_inv_def)
  moreover have "s_taken t i = filter (accepted_by c i) (s_dispatched t)" "m_incoming (plugin_at t i) = []"
    if "i < length (m_plugins c)" for i
  proof -
    show m: "m_incoming (plugin_at t i) = []"
      using t(1,3) inv that by (simp add: catching_up_def system_inv_def)
    have "s_taken t i @ m_incoming (plugin_at t i) = filter (accepted_by c i) (offered t i)"
      using inv that by (simp add: system_inv_def plugin_inv_def)
    with m idle(1) show "s_taken t i = filter (accepted_by c i) (s_dispatched t)"
      by (simp add: offered_def)
  qed
  moreover have "s_chunks t = s_chunks s" "system_step\<^sup>*\<^sup>* s t" using st by (simp_all add: catching_up_def)
  ultimately show ?thesis using idle(1) by (intro exI [of _ t]) simp
qed

text \<open>
  C31: one handler that does not return stops the bot: while the plugin the I/O thread is about to
  deliver to is inside a handler, nothing is read from the server, no message is taken from the
  parser and no other plugin gets a message, whatever the other threads do.
\<close>

theorem slow_plugin_blocks_all:
  assumes "fresh_core c" and "system_reach c s" and "s_io s = IO_Offer m i" and "accepted_by c i m"
    and "busy (plugin_at s i)" and "(\<lambda>s t. system_step s t \<and> busy (plugin_at t i))\<^sup>*\<^sup>* s t"
  shows "s_io t = IO_Offer m i \<and> s_chunks t = s_chunks s \<and> m_parser (s_core t) = m_parser (s_core s) \<and>
    (\<forall>k < length (m_plugins c). s_taken t k @ m_incoming (plugin_at t k) =
       s_taken s k @ m_incoming (plugin_at s k))"
proof -
  have "system_reach c t \<and> busy (plugin_at t i) \<and> s_io t = IO_Offer m i \<and> s_chunks t = s_chunks s \<and>
      s_dispatched t = s_dispatched s \<and> m_parser (s_core t) = m_parser (s_core s)"
    using assms(6)
  proof (induction rule: rtranclp_induct)
    case base
    show ?case using assms(2,3,5) by simp
  next
    case (step t u)
    have inv: "system_inv c t" using step.IH assms(1) by (blast intro: system_inv_reach)
    then have n: "count_plugins t = length (m_plugins c)" by (simp add: system_inv_def)
    have "\<not> io_step t u"
    proof
      assume "io_step t u"
      then show False
        using step.IH assms(4) n system_inv_plugin(3) [OF assms(1) inv, of i m]
        by cases (auto simp: accepted_by_def)
    qed
    then obtain k where "thread_turn k t u" using step.hyps(2) by (auto simp: system_step_def)
    moreover from this have "self_contained (plugin_at t k)"
      using system_inv_plugin(2) [OF assms(1) inv] by (auto elim: thread_turnE)
    ultimately have "s_io u = s_io t" "s_chunks u = s_chunks t" "s_dispatched u = s_dispatched t"
      "m_parser (s_core u) = m_parser (s_core t)" by (auto elim!: thread_turn_effect)
    with step show ?case by (auto intro: sr_step)
  qed
  note t = this
  have "system_inv c s" "system_inv c t" using t assms(1,2) by (auto intro: system_inv_reach)
  moreover have "offered t k = offered s k" for k using t assms(3) by (intro offered_cong) auto
  ultimately show ?thesis using t by (simp add: system_inv_def plugin_inv_def)
qed


section \<open>A concrete session\<close>

definition silent_plugin :: "plugin_thread \<Rightarrow> (yaml_node, nat) plugin" where
  "silent_plugin th = set_thread th (Plugin (base_class ''Base'') 0 \<lparr>pc_id = ''base'', pc_config = Undefined\<rparr>)"

definition silent_core :: "plugin_thread list \<Rightarrow> (yaml_node, nat) core" where
  "silent_core ths = (Core Undefined)\<lparr>receiving := True, m_plugins := map silent_plugin ths\<rparr>"

lemma base_class_sends: "plugin_contract (\<lambda>_ _. True) (\<lambda>_. True) is_send (base_class name) Map.empty"
  by unfold_locales (auto simp: base_class_def intro!: ok_rules)

lemma silent_plugin_simps [simp]:
  "m_class (silent_plugin th) = base_class ''Base''" "m_functions (silent_plugin th) = Map.empty"
  "m_incoming (silent_plugin th) = []" "m_thread (silent_plugin th) = th" "m_running (silent_plugin th)"
  "m_command_parser (silent_plugin th) = None"
  by (simp_all add: silent_plugin_def Plugin_def set_thread_def)

lemma silent_self_contained: "self_contained (silent_plugin th)"
  by (simp add: self_contained_def base_class_sends) (simp add: base_class_def)

lemma silent_responsive: "th = Looping \<Longrightarrow> responsive (silent_plugin th)"
  by (simp add: responsive_def quiet_base_class silent_self_contained) (auto simp: base_class_def)

lemma silent_accepts: "accepts m (silent_plugin th)"
  by (simp add: accepts_def preFilter_def) (simp add: base_class_def)

lemma silent_core_simps [simp]:
  "m_plugins (silent_core ths) = map silent_plugin ths" "m_parser (silent_core ths) = new_IRCParser"
  "receiving (silent_core ths)" "outgoing (silent_core ths) = []"
  by (simp_all add: silent_core_def Core_def)

lemma silent_fresh: "fresh_core (silent_core ths)"
  by (auto simp: fresh_core_def silent_self_contained)

lemma new_parser_messages [simp]: "m_messages new_IRCParser = []"
  by (simp add: new_IRCParser_def)

definition after_ping :: "plugin_thread list \<Rightarrow> (yaml_node, nat) system" where
  "after_ping ths = (session (silent_core ths))\<lparr>
     s_core := (silent_core ths)\<lparr>receiving := False, m_parser := parse new_IRCParser (toString example_ping False)\<rparr>,
     s_io := IO_Messages, s_chunks := [toString example_ping False]\<rparr>"

lemma ping_fits: "fits_buffer (toString example_ping False)"
  by code_simp

lemma after_ping_reach: "system_reach (silent_core ths) (after_ping ths)"
proof (rule sr_step [OF sr_init])
  show "system_step (session (silent_core ths)) (after_ping ths)"
    using io_receive [of "session (silent_core ths)" "toString example_ping False"] ping_fits
    by (simp add: system_step_def after_ping_def session_def)
qed

lemma ping_parsed: "m_messages (parse new_IRCParser (toString example_ping False)) = [example_ping]"
  using parse_toString [OF idle_new canonical_examples(2)] by (simp add: push_message_def)

theorem session_refines_log_witness:
  "(bus_step (accepted_by (silent_core [Looping])))\<^sup>*\<^sup>* empty_bus
     \<lparr>bus_log = [example_ping], bus_read = (\<lambda>_. [])\<rparr>"
  using session_refines_log [OF silent_fresh _ after_ping_reach, of "[Looping]"] ping_parsed
  by (simp add: bus_of_def after_ping_def session_def)

lemma base_class_contract: "plugin_contract (\<lambda>_ x. x = (0 :: nat)) message_ok is_send (base_class name) Map.empty"
  by unfold_locales (auto simp: base_class_def intro!: ok_rules)

theorem session_keeps_contracts_witness:
  "parser_ok (m_parser (s_core (after_ping [Looping]))) \<and> m_object (plugin_at (after_ping [Looping]) 0) = 0"
proof -
  have "m_object (silent_plugin Looping) = 0" by (simp add: silent_plugin_def Plugin_def set_thread_def)
  then have "under_contract (\<lambda>_ x. x = (0 :: nat)) message_ok is_send (silent_plugin Looping)"
    using base_class_contract by (intro under_contractI) (simp_all add: busy_def)
  then have "\<forall>i < length (m_plugins (silent_core [Looping])).
      under_contract (\<lambda>_ x. x = (0 :: nat)) message_ok is_send (m_plugins (silent_core [Looping]) ! i)" by simp
  from session_keeps_contracts [OF silent_fresh _ after_ping_reach _ this] parser_ok_new show ?thesis by simp
qed

lemma after_ping_responsive: "all_responsive (after_ping [Looping])"
  by (simp add: all_responsive_def after_ping_def count_plugins_def plugin_at_def silent_responsive)

theorem session_can_catch_up_witness:
  "\<exists>t. system_step\<^sup>*\<^sup>* (after_ping [Looping]) t \<and> s_io t = IO_Idle \<and> s_chunks t = [toString example_ping False] \<and>
     s_taken t 0 = [example_ping]"
proof -
  from session_can_catch_up [OF silent_fresh _ after_ping_reach after_ping_responsive] obtain t where
    t: "system_step\<^sup>*\<^sup>* (after_ping [Looping]) t" "s_io t = IO_Idle" "s_chunks t = s_chunks (after_ping [Looping])"
    "s_taken t 0 = filter (accepted_by (silent_core [Looping]) 0)
       (m_messages (fold (\<lambda>b p. parse p b) (s_chunks (after_ping [Looping])) new_IRCParser))" by auto
  then show ?thesis
    by (intro exI [of _ t]) (simp add: after_ping_def ping_parsed accepted_by_def silent_accepts)
qed


theorem session_stream_in_order_witness:
  "prefix (m_incoming (plugin_at (after_ping [Looping]) 0)) [example_ping]"
proof -
  have "s_chunks (after_ping [Looping]) = map concat [line_pieces example_ping]"
    using canonical_examples(2) by (simp add: after_ping_def concat_line_pieces)
  from session_stream_in_order [OF silent_fresh _ _ after_ping_reach _ _ this, of 0 "[example_ping]" "[]"] canonical_examples idle_new
  show ?thesis by (simp add: accepted_by_def silent_accepts after_ping_def session_def)
qed

definition offering_ping :: "plugin_thread list \<Rightarrow> (yaml_node, nat) system" where
  "offering_ping ths = (after_ping ths)\<lparr>s_core := (s_core (after_ping ths))
       \<lparr>m_parser := (m_parser (s_core (after_ping ths)))\<lparr>m_messages := []\<rparr>\<rparr>,
     s_io := IO_Offer example_ping 0, s_dispatched := [example_ping]\<rparr>"

lemma offering_ping_reach: "system_reach (silent_core ths) (offering_ping ths)"
proof (rule sr_step [OF after_ping_reach])
  have "getMessage (m_parser (s_core (after_ping ths))) =
      Inr (example_ping, (m_parser (s_core (after_ping ths)))\<lparr>m_messages := []\<rparr>)"
    by (simp add: after_ping_def getMessage_def ping_parsed)
  from io_next [OF _ this] show "system_step (after_ping ths) (offering_ping ths)"
    by (simp add: system_step_def offering_ping_def after_ping_def session_def)
qed

theorem slow_plugin_blocks_all_witness:
  "\<exists>t. system_step (offering_ping [Handling example_message, Looping]) t \<and>
     m_thread (plugin_at t 1) = Waiting \<and> s_io t = IO_Offer example_ping 0"
proof -
  let ?s = "offering_ping [Handling example_message, Looping]"
  have p: "plugin_at ?s 0 = silent_plugin (Handling example_message)" "plugin_at ?s 1 = silent_plugin Looping"
    "count_plugins ?s = 2" "s_io ?s = IO_Offer example_ping 0"
    by (simp_all add: offering_ping_def after_ping_def plugin_at_def count_plugins_def)
  have "own_step (plugin_at ?s 1) (set_thread Waiting (silent_plugin Looping))"
    using responsive_looping [OF silent_responsive [OF refl]] p(2) by simp
  from own_step_lift [OF this] p(2,3) silent_self_contained obtain t where
    t: "system_step ?s t" "plugin_at t 1 = set_thread Waiting (silent_plugin Looping)" "plugin_at t 0 = plugin_at ?s 0"
    by auto
  have "busy (plugin_at ?s 0)" using p(1) by (simp add: busy_def)
  moreover from this t have "(\<lambda>s t. system_step s t \<and> busy (plugin_at t 0))\<^sup>*\<^sup>* ?s t" by (intro r_into_rtranclp) simp
  moreover have "accepted_by (silent_core [Handling example_message, Looping]) 0 example_ping"
    by (simp add: accepted_by_def silent_accepts)
  ultimately have "s_io t = IO_Offer example_ping 0"
    using slow_plugin_blocks_all [OF silent_fresh offering_ping_reach p(4)] by blast
  with t show ?thesis by auto
qed

end
