(* ===== verification/Bundled_Bot.thy ===== *)
theory Bundled_Bot
  imports Bundled_Plugins Bot_System
begin

text \<open>
  The bundled plugins under contract: which of their answers are single lines of the protocol, given
  what about the messages they are given. Then a core that has them all loaded: the objects of the
  classes are put into one type, and \<open>getPlugin\<close> of a library (the macro \<open>IRCBOT_PLUGIN\<close> of
  include/ircbot/so_plugin.hpp) makes a plugin of its class.
\<close>

section \<open>Lines\<close>

definition single_line :: "string \<Rightarrow> bool" where
  "single_line s \<longleftrightarrow> (\<exists>r. s = r @ [CR, LF] \<and> line_safe r)"

definition sends_line :: "plugin_effect \<Rightarrow> bool" where
  "sends_line e \<longleftrightarrow> (\<exists>m. e = Send m \<and> single_line (toString m False))"

text \<open>
  \<open>params_safe\<close> holds of every message that the parser delivers; \<open>source_safe\<close> does not, because the
  parser takes line breaks in the prefix for a part of the nick.
\<close>

definition params_safe :: "irc_message \<Rightarrow> bool" where
  "params_safe m \<longleftrightarrow> (\<forall>q \<in> set (params m). line_safe q)"

definition source_safe :: "irc_message \<Rightarrow> bool" where
  "source_safe m \<longleftrightarrow> params_safe m \<and> line_safe (nick m)"

named_theorems line_safe_intros \<open>texts without line breaks\<close>

lemma line_safe_append [simp]: "line_safe (s @ t) \<longleftrightarrow> line_safe s \<and> line_safe t"
  by (auto simp: line_safe_def)

lemma line_safe_Cons [simp]: "line_safe (x # s) \<longleftrightarrow> x \<notin> {NUL, CR, LF} \<and> line_safe s"
  by (auto simp: line_safe_def)

lemma line_safe_Nil [simp]: "line_safe ''''"
  by (simp add: line_safe_def)

lemma line_safe_drop: "line_safe s \<Longrightarrow> line_safe (drop n s)"
  by (auto simp: line_safe_def dest: in_set_dropD)

lemma line_safe_to_string [simp]: "line_safe (to_string n)"
proof -
  have "x \<notin> {NUL, CR, LF}" if "is_digit x" for x
    using that by (auto simp: is_digit_def less_eq_char_def)
  then show ?thesis using to_string_digits [of n] by (auto simp: line_safe_def)
qed

lemma line_safe_params: "\<forall>q \<in> set ps. line_safe q \<Longrightarrow> line_safe (params_string ps)"
  using set_params_string [of ps] by (fastforce simp: line_safe_def)

lemma sends_line_IRCMessage:
  "line_safe c \<Longrightarrow> \<forall>q \<in> set ps. line_safe q \<Longrightarrow> sends_line (Send (IRCMessage c ps))"
  by (auto simp: sends_line_def single_line_def IRCMessage_toString line_safe_params)

lemma message_ok_params_safe: "message_ok m \<Longrightarrow> params_safe m"
  by (simp add: message_ok_def params_safe_def)

lemma params_safe_at: "params_safe m \<Longrightarrow> vec_at (params m) i = Inr q \<Longrightarrow> line_safe q"
  by (auto simp: params_safe_def vec_at_def split: if_split_asm)

lemma params_safe_back: "params_safe m \<Longrightarrow> vec_back (params m) = Inr q \<Longrightarrow> line_safe q"
  by (auto simp: params_safe_def vec_back_def split: if_split_asm)

section \<open>The classes under contract\<close>

text \<open>The texts of a plugin's configuration are without line breaks.\<close>

definition config_safe :: "'n yaml \<Rightarrow> 'n \<Rightarrow> bool" where
  "config_safe y cfg \<longleftrightarrow> (\<forall>key s. as_string y (config_entry y cfg key) = Some s \<longrightarrow> line_safe s) \<and>
     (\<forall>key n s. n \<in> set (elements y (config_entry y cfg key)) \<longrightarrow> as_string y n = Some s \<longrightarrow> line_safe s)"

lemma required_Inr: "required x = Inr s \<longleftrightarrow> x = Some s"
  by (auto simp: required_def split: option.splits)

lemma config_safe_entry: "config_safe y cfg \<Longrightarrow> required (as_string y (config_entry y cfg key)) = Inr s \<Longrightarrow> line_safe s"
  by (auto simp: config_safe_def required_Inr)

lemma config_safe_element:
  "config_safe y cfg \<Longrightarrow> n \<in> set (elements y (config_entry y cfg key)) \<Longrightarrow>
   required (as_string y n) = Inr s \<Longrightarrow> line_safe s"
  by (auto simp: config_safe_def required_Inr)

interpretation ping: plugin_contract "\<lambda>_ _. True" params_safe sends_line Ping_class Map.empty
  by unfold_locales
    (auto simp: Ping_class_def base_class_def Ping_onMessage_def sends_line_IRCMessage params_safe_back
      intro!: ok_rules)

definition init_ok :: "'n yaml \<Rightarrow> 'n \<Rightarrow> init \<Rightarrow> bool" where
  "init_ok y cfg x \<longleftrightarrow> config_safe y cfg \<and> (\<forall>n \<in> set (m_alt_nicks x). line_safe n)"

lemma init_ok_simps [simp]:
  "init_ok y cfg x \<Longrightarrow> init_ok y cfg (x\<lparr>m_alt_nicks := m_alt_nicks x @ [s]\<rparr>) \<longleftrightarrow> line_safe s"
  "init_ok y cfg (x\<lparr>m_alt_nicks_index := i\<rparr>) \<longleftrightarrow> init_ok y cfg x"
  by (auto simp: init_ok_def)

lemma Init_onInit_ok: "ok_at (init_ok y) sends_line (Init_onInit y) w"
  unfolding Init_onInit_def Let_def sendNickMsg_def sendUserMsg_def
proof (rule ok_reading, goal_cases)
  case 1
  then have safe: "config_safe y (w_config w)" by (simp add: init_ok_def)
  show ?case
    using config_safe_entry [OF safe] config_safe_element [OF safe]
    by (intro ok_rules sends_line_IRCMessage) auto
qed

lemma Init_onMessage_ok: "ok_at (init_ok y) sends_line (Init_onMessage msg) w"
proof -
  have "line_safe n" if "init_ok y (w_config w) (object w)" "vec_at (m_alt_nicks (object w)) i = Inr n" for i n
    using that by (auto simp: init_ok_def vec_at_def split: if_split_asm)
  then show ?thesis
    unfolding Init_onMessage_def sendNickMsg_def
    by (intro ok_rules sends_line_IRCMessage) auto
qed

interpretation initial: plugin_contract "init_ok y" "\<lambda>_. True" sends_line "Init_class y" Map.empty for y
  by unfold_locales (simp_all add: Init_class_def base_class_def ok_skip Init_onInit_ok Init_onMessage_ok)

lemma Join_onInit_ok: "ok_at (\<lambda>cfg _. config_safe y cfg) sends_line (Join_onInit y) w"
  unfolding Join_onInit_def
proof (rule ok_reading, rule ok_for_each, goal_cases)
  case (1 p v)
  then show ?case
    using config_safe_element [of y "w_config w" p "''channels''"]
    by (auto simp: Join_channel_def intro!: ok_rules sends_line_IRCMessage)
qed

interpretation joining: plugin_contract "\<lambda>cfg _. config_safe y cfg" "\<lambda>_. True" sends_line "Join_class y" Map.empty for y
  by unfold_locales (auto simp: Join_class_def base_class_def Join_onInit_ok Join_onMessage_def intro!: ok_rules)

interpretation hello: plugin_contract "\<lambda>cfg _. config_safe y cfg" source_safe sends_line "HelloWorld_class y" Map.empty for y
  by unfold_locales
    (auto simp: HelloWorld_class_def base_class_def HelloWorld_onMessage_def source_safe_def with_default_def
      config_safe_def intro!: ok_rules sends_line_IRCMessage split: option.splits)

lemma responseDestination_safe: "source_safe m \<Longrightarrow> responseDestination m priv = Inr d \<Longrightarrow> line_safe d"
  by (auto simp: responseDestination_def source_safe_def bind_result_Inr_iff params_safe_at split: if_split_asm)

interpretation up: plugin_contract "\<lambda>_ _. True" source_safe sends_line Uptime_class Map.empty
  by unfold_locales
    (auto simp: Uptime_class_def base_class_def Uptime_onMessage_def uptime_text_def responseDestination_safe
      intro!: ok_rules sends_line_IRCMessage split: prod.splits)


subsection \<open>Clipboard\<close>

definition clipboard_safe :: "clipboard \<Rightarrow> bool" where
  "clipboard_safe x \<longleftrightarrow> (\<forall>name. \<forall>c \<in> set (slots name x). line_safe c)"

lemma clipboard_safe_set_slots:
  "clipboard_safe x \<Longrightarrow> \<forall>q \<in> set c. line_safe q \<Longrightarrow> clipboard_safe (set_slots name c x)"
  by (auto simp: clipboard_safe_def)

lemma clipboard_safe_slots: "clipboard_safe x \<Longrightarrow> q \<in> set (slots name x) \<Longrightarrow> line_safe q"
  by (auto simp: clipboard_safe_def)

lemma clipboard_safe_touch: "clipboard_safe x \<Longrightarrow> clipboard_safe (touch name x)"
  by (simp add: clipboard_safe_def)

lemma privmsg_ok: "line_safe name \<Longrightarrow> line_safe t \<Longrightarrow> ok_at J sends_line (privmsg name t) w"
  unfolding privmsg_def by (intro ok_rules sends_line_IRCMessage) auto

lemma clip_commands_ok:
  assumes "line_safe name" and "line_safe data"
  shows "ok_at (\<lambda>_. clipboard_safe) sends_line (clip_save name data) w"
    and "ok_at (\<lambda>_. clipboard_safe) sends_line (clip_list name) w"
    and "ok_at (\<lambda>_. clipboard_safe) sends_line (clip_help name) w"
    and "ok_at (\<lambda>_. clipboard_safe) sends_line (clip_remove name data) w"
proof -
  show "ok_at (\<lambda>_. clipboard_safe) sends_line (clip_save name data) w"
    unfolding clip_save_def Let_def
    by (intro ok_rules privmsg_ok)
      (use assms in \<open>auto simp: clipboard_safe_touch line_safe_drop clipboard_safe_slots intro!: clipboard_safe_set_slots\<close>)
  show "ok_at (\<lambda>_. clipboard_safe) sends_line (clip_list name) w"
    unfolding clip_list_def
    by (intro ok_rules privmsg_ok)
      (use assms in \<open>auto simp: clipboard_safe_touch clipboard_safe_slots [OF _ nth_mem]\<close>)
  show "ok_at (\<lambda>_. clipboard_safe) sends_line (clip_help name) w"
    unfolding clip_help_def by (intro privmsg_ok) (use assms in simp_all)
  show "ok_at (\<lambda>_. clipboard_safe) sends_line (clip_remove name data) w"
    unfolding clip_remove_def Let_def
    by (intro ok_rules privmsg_ok)
      (use assms in \<open>auto simp: clipboard_safe_touch intro!: clipboard_safe_set_slots
         intro: clipboard_safe_slots [OF _ in_set_takeD] clipboard_safe_slots [OF _ in_set_dropD]\<close>)
qed

lemma Clipboard_onMessage_safe:
  assumes "source_safe m"
  shows "ok_at (\<lambda>_. clipboard_safe) sends_line (Clipboard_onMessage m) w"
proof -
  have safe: "params_safe m" "line_safe (nick m)" using assms by (simp_all add: source_safe_def)
  have "line_safe (clip_name m p0)" if "vec_at (params m) 0 = Inr p0" for p0
    using params_safe_at [OF safe(1) that] safe(2) by (simp add: clip_name_def)
  then show ?thesis
    unfolding Clipboard_onMessage_def Let_def
    by (intro ok_rules clip_commands_ok) (auto simp: params_safe_at [OF safe(1)])
qed

interpretation clip: plugin_contract "\<lambda>_. clipboard_safe" source_safe sends_line "Clipboard_class y" Map.empty for y
  by unfold_locales (simp_all add: Clipboard_class_def base_class_def ok_skip Clipboard_onMessage_safe)

section \<open>All bundled plugins keep to themselves\<close>

lemma is_send_Send [simp]: "is_send (Send m)"
  by (simp add: is_send_def)

lemma bundled_sends:
  "plugin_contract (\<lambda>_ _. True) (\<lambda>_. True) is_send Ping_class Map.empty"
  "plugin_contract (\<lambda>_ _. True) (\<lambda>_. True) is_send (Init_class y) Map.empty"
  "plugin_contract (\<lambda>_ _. True) (\<lambda>_. True) is_send (Join_class y) Map.empty"
  "plugin_contract (\<lambda>_ _. True) (\<lambda>_. True) is_send (HelloWorld_class y) Map.empty"
  "plugin_contract (\<lambda>_ _. True) (\<lambda>_. True) is_send Uptime_class Map.empty"
  "plugin_contract (\<lambda>_ _. True) (\<lambda>_. True) is_send (Clipboard_class y) Map.empty"
  by (unfold_locales;
      auto simp: base_class_def Ping_class_def Ping_onMessage_def Init_class_def Init_onInit_def Init_onMessage_def
        sendNickMsg_def sendUserMsg_def Join_class_def Join_onInit_def Join_channel_def Join_onMessage_def
        HelloWorld_class_def HelloWorld_onMessage_def Uptime_class_def Uptime_onMessage_def Clipboard_class_def
        Clipboard_onMessage_def clip_save_def clip_list_def clip_help_def clip_remove_def privmsg_def Let_def
        intro!: ok_rules; fail)+

section \<open>One type of objects\<close>

text \<open>A handler on a part of a larger object.\<close>

definition lift_handler :: "('y \<Rightarrow> 'x) \<Rightarrow> ('x \<Rightarrow> 'y) \<Rightarrow> ('n, 'x) handler \<Rightarrow> ('n, 'y) handler" where
  "lift_handler get put h w = (case h \<lparr>w_config = w_config w, w_uptime = w_uptime w, object = get (object w),
       effects = effects w\<rparr> of
     (f, v) \<Rightarrow> (f, w\<lparr>object := put (object v), effects := effects v\<rparr>))"

definition lift_class :: "('y \<Rightarrow> 'x) \<Rightarrow> ('x \<Rightarrow> 'y) \<Rightarrow> ('n, 'x) plugin_class \<Rightarrow> ('n, 'y) plugin_class" where
  "lift_class get put c = \<lparr>getName = (\<lambda>x. getName c (get x)), onInit = lift_handler get put (onInit c),
     onMessage = (\<lambda>m. lift_handler get put (onMessage c m)),
     onNewConfiguration = lift_handler get put (onNewConfiguration c),
     onShutdown = lift_handler get put (onShutdown c),
     filter_message = (\<lambda>m x. filter_message c m (get x))\<rparr>"

lemma ok_lift:
  assumes "\<And>v. ok_at J E h v" and "\<And>x. get (put x) = x"
  shows "ok_at (\<lambda>cfg y. J cfg (get y)) E (lift_handler get put h) w"
proof -
  let ?v = "\<lparr>w_config = w_config w, w_uptime = w_uptime w, object = get (object w), effects = effects w\<rparr>"
  obtain f u where "h ?v = (f, u)" by fastforce
  with assms(1) [of ?v] assms(2) show ?thesis by (auto simp: ok_at_def lift_handler_def)
qed

lemma plugin_contract_lift:
  assumes "plugin_contract J I E c Map.empty" and "\<And>x. get (put x) = x"
  shows "plugin_contract (\<lambda>cfg y. J cfg (get y)) I E (lift_class get put c) Map.empty"
  using assms(2) plugin_contract.onInit_ok [OF assms(1)] plugin_contract.onMessage_ok [OF assms(1)]
    plugin_contract.onShutdown_ok [OF assms(1)]
  by unfold_locales (auto simp: lift_class_def intro!: ok_lift)


section \<open>Loading a bundled plugin\<close>

datatype bundled_object =
    No_Object
  | Init_Object init
  | Join_Object join
  | Clipboard_Object clipboard

fun init_object :: "bundled_object \<Rightarrow> init" where
  "init_object (Init_Object x) = x"
| "init_object _ = Init"

fun join_object :: "bundled_object \<Rightarrow> join" where
  "join_object (Join_Object x) = x"
| "join_object _ = \<lparr>m_channels = {}\<rparr>"

fun clipboard_object :: "bundled_object \<Rightarrow> clipboard" where
  "clipboard_object (Clipboard_Object x) = x"
| "clipboard_object _ = Clipboard"

text \<open>
  The base class of the plugins of a library adds a handle, which starts as the null pointer and
  which nothing sets: the core keeps the handles in a table of its own. What the core holds is the
  \<open>Plugin\<close> of such an object.
\<close>

record ('n, 'x) so_plugin = "('n, 'x) plugin" +
  m_so_library :: "nat option"

definition SoPlugin :: "('n, 'x) plugin_class \<Rightarrow> 'x \<Rightarrow> 'n plugin_config \<Rightarrow> ('n, 'x) so_plugin" where
  "SoPlugin cls obj config = plugin.extend (Plugin cls obj config) (so_plugin.fields None)"

definition setSoLibrary :: "nat option \<Rightarrow> ('n, 'x) so_plugin \<Rightarrow> ('n, 'x) so_plugin" where
  "setSoLibrary l p = p\<lparr>m_so_library := l\<rparr>"

definition getSoLibrary :: "('n, 'x) so_plugin \<Rightarrow> nat option" where
  "getSoLibrary p = m_so_library p"

lemma SoPlugin_parts:
  "plugin.truncate (SoPlugin cls obj config) = Plugin cls obj config"
  "plugin.truncate (setSoLibrary l p) = plugin.truncate p"
  "getSoLibrary (setSoLibrary l (SoPlugin cls obj config)) = l"
  by (simp_all add: SoPlugin_def setSoLibrary_def getSoLibrary_def plugin.defs so_plugin.defs Plugin_def)

text \<open>\<open>getPlugin\<close> of each library: \<open>std::make_unique<PluginName>(config)\<close>.\<close>

definition bundled_plugin ::
  "'n yaml \<Rightarrow> string \<Rightarrow> 'n plugin_config \<Rightarrow> ('n, bundled_object) plugin option" where
  "bundled_plugin y lib config =
     (if lib = ''ping'' then Some (Plugin Ping_class No_Object config)
      else if lib = ''init'' then
        Some (Plugin (lift_class init_object Init_Object (Init_class y)) (Init_Object Init) config)
      else if lib = ''join'' then
        Some (Plugin (lift_class join_object Join_Object (Join_class y)) (Join_Object \<lparr>m_channels = {}\<rparr>) config)
      else if lib = ''helloworld'' then Some (Plugin (HelloWorld_class y) No_Object config)
      else if lib = ''uptime'' then Some (Plugin Uptime_class No_Object config)
      else if lib = ''clipboard'' then
        Some (Plugin (lift_class clipboard_object Clipboard_Object (Clipboard_class y)) (Clipboard_Object Clipboard) config)
      else if lib = ''simple_commands'' then Some (SimpleCommands No_Object config)
      else None)"

text \<open>A plugin of one of the libraries that has been loaded, and started or not, but given no message.\<close>

definition loaded_from :: "'n yaml \<Rightarrow> string set \<Rightarrow> ('n, bundled_object) plugin \<Rightarrow> bool" where
  "loaded_from y libs p \<longleftrightarrow> (\<exists>lib \<in> libs. \<exists>config q th. bundled_plugin y lib config = Some q \<and>
     config_safe y (pc_config config) \<and> th \<in> {NoThread, Starting, Looping, Waiting} \<and> p = set_thread th q)"

abbreviation (input) quiet_libraries :: "string set" where
  "quiet_libraries \<equiv> {''ping'', ''init'', ''join''}"

lemma bundled_contracts:
  "plugin_contract (\<lambda>_ _. True) params_safe sends_line Ping_class Map.empty"
  "plugin_contract (\<lambda>cfg x. init_ok y cfg (init_object x)) params_safe sends_line
     (lift_class init_object Init_Object (Init_class y)) Map.empty"
  "plugin_contract (\<lambda>cfg _. config_safe y cfg) params_safe sends_line
     (lift_class join_object Join_Object (Join_class y)) Map.empty"
proof -
  show "plugin_contract (\<lambda>_ _. True) params_safe sends_line Ping_class Map.empty" by unfold_locales
  have "plugin_contract (init_ok y) params_safe sends_line (Init_class y) Map.empty"
    by unfold_locales (simp_all add: initial.onInit_ok initial.onMessage_ok initial.onShutdown_ok)
  from plugin_contract_lift [OF this, of init_object Init_Object]
  show "plugin_contract (\<lambda>cfg x. init_ok y cfg (init_object x)) params_safe sends_line
     (lift_class init_object Init_Object (Init_class y)) Map.empty" by simp
  have "plugin_contract (\<lambda>cfg _. config_safe y cfg) params_safe sends_line (Join_class y) Map.empty"
    by unfold_locales (simp_all add: joining.onInit_ok joining.onMessage_ok joining.onShutdown_ok)
  from plugin_contract_lift [OF this, of join_object Join_Object]
  show "plugin_contract (\<lambda>cfg _. config_safe y cfg) params_safe sends_line
     (lift_class join_object Join_Object (Join_class y)) Map.empty" by simp
qed

lemma bundled_sends_lifted:
  "plugin_contract (\<lambda>_ _. True) (\<lambda>_. True) is_send (lift_class init_object Init_Object (Init_class y)) Map.empty"
  "plugin_contract (\<lambda>_ _. True) (\<lambda>_. True) is_send (lift_class join_object Join_Object (Join_class y)) Map.empty"
  "plugin_contract (\<lambda>_ _. True) (\<lambda>_. True) is_send
     (lift_class clipboard_object Clipboard_Object (Clipboard_class y)) Map.empty"
  using plugin_contract_lift [OF bundled_sends(2), of init_object Init_Object]
    plugin_contract_lift [OF bundled_sends(3), of join_object Join_Object]
    plugin_contract_lift [OF bundled_sends(6), of clipboard_object Clipboard_Object] by simp_all

lemma loaded_quiet:
  assumes "loaded_from y quiet_libraries p"
  shows "self_contained p" "m_incoming p = []" "\<exists>J. under_contract J params_safe sends_line p"
proof -
  from assms obtain lib config q th where p: "lib \<in> quiet_libraries" "bundled_plugin y lib config = Some q"
    "config_safe y (pc_config config)" "th \<in> {NoThread, Starting, Looping, Waiting}" "p = set_thread th q"
    by (auto simp: loaded_from_def)
  show "self_contained p"
    using p(1,2,5) bundled_sends(1) bundled_sends_lifted
    by (auto simp: bundled_plugin_def self_contained_def set_thread_def Plugin_def Ping_class_def Ping_filter_def
        lift_class_def Init_class_def Init_filter_def Join_class_def Join_filter_def)
  show "m_incoming p = []" using p(1,2,5) by (auto simp: bundled_plugin_def set_thread_def Plugin_def)
  have "\<not> busy p" using p(4,5) by (auto simp: busy_def)
  moreover have "init_ok y (pc_config config) Init" using p(3) by (simp add: init_ok_def Init_def)
  moreover have "(\<exists>J. plugin_contract J params_safe sends_line (m_class q) (m_functions q) \<and> J (m_cfg q) (m_object q))"
    if "init_ok y (pc_config config) Init"
    using p(1)
  proof (elim insertE emptyE)
    assume "lib = ''ping''"
    with p(2) bundled_contracts(1) show ?thesis by (auto simp: bundled_plugin_def Plugin_def)
  next
    assume "lib = ''init''"
    with p(2) bundled_contracts(2) [of y] that show ?thesis by (fastforce simp: bundled_plugin_def Plugin_def)
  next
    assume "lib = ''join''"
    with p(2,3) bundled_contracts(3) [of y] show ?thesis by (fastforce simp: bundled_plugin_def Plugin_def)
  qed
  ultimately show "\<exists>J. under_contract J params_safe sends_line p"
    using \<open>m_incoming p = []\<close> p(5) by (force simp: set_thread_def intro: under_contractI)
qed

section \<open>Properties\<close>

text \<open>
  C7: a bot with the plugins \<open>Ping\<close>, \<open>Init\<close> and \<open>Join\<close> cannot be made to send anything but
  single lines of the protocol: whatever bytes the server sends, in whatever pieces, and however the
  threads interleave, each text passed to the socket ends with its only line break.
\<close>

theorem bundled_bot_sends_lines:
  assumes "\<forall>p \<in> set (m_plugins c). loaded_from y quiet_libraries p" and "m_parser c = new_IRCParser"
    and "system_reach c s"
  shows "\<exists>lines. outgoing (s_core s) = outgoing c @ lines \<and> (\<forall>l \<in> set lines. single_line l)"
proof -
  have "fresh_core c" using assms(1) loaded_quiet(1,2) by (meson fresh_core_def)
  moreover have "\<forall>i < length (m_plugins c). \<exists>J. under_contract J params_safe sends_line (m_plugins c ! i)"
    using assms(1) loaded_quiet(3) by (meson nth_mem)
  then obtain J where "\<forall>i < length (m_plugins c). under_contract (J i) params_safe sends_line (m_plugins c ! i)" by metis
  ultimately have "contract_inv J params_safe sends_line c s"
    using assms(2,3) message_ok_params_safe by (intro contract_inv_reach) (auto simp: parser_ok_new)
  then obtain es where "outgoing (s_core s) = outgoing c @ map line_of es" "\<forall>e \<in> set es. sends_line e"
    by (auto simp: contract_inv_def)
  then show ?thesis
    by (intro exI [of _ "map line_of es"]) (auto simp: sends_line_def line_of_def)
qed


text \<open>
  C32: the guarantee fails for the plugins that answer to a nick. The parser takes a line break
  in the prefix for a part of the nick, so whoever writes the prefix of a line decides on a whole
  line that the bot sends: for a nick \<open>a CR LF b\<close>, \<open>HelloWorld\<close> sends a first line to \<open>a\<close> and a second
  one that begins with \<open>b\<close>.
\<close>

theorem nick_line_break_injected:
  assumes "idle p" and "canonical msg" and "nick msg = a @ [CR, LF] @ b" and "command msg = ''PRIVMSG''"
    and "params msg = [target, content]" and "content \<noteq> ''!hello error''"
  shows "\<exists>reply content'. parse p (toString msg False) = push_message msg p \<and>
    HelloWorld_filter msg x = Inr True \<and>
    HelloWorld_onMessage y msg w = (None, w\<lparr>effects := effects w @ [Send reply]\<rparr>) \<and>
    toString reply False = ''PRIVMSG '' @ a @ [CR, LF] @ b @ '' :'' @ content' @ [CR, LF]"
proof -
  let ?t = "with_default ''HelloWorld plugin'' (as_string y (config_entry y (w_config w) ''message''))"
  let ?r = "IRCMessage ''PRIVMSG'' [nick msg, ?t]"
  have "parse p (toString msg False) = push_message msg p"
    using lex_line [OF assms(1,2)] by (simp add: parse_def lexer_def)
  moreover have "HelloWorld_onMessage y msg w = (None, w\<lparr>effects := effects w @ [Send ?r]\<rparr>)"
    using assms(5,6) by (simp add: HelloWorld_onMessage_def vec_at_def handler_simps)
  moreover have "toString ?r False = ''PRIVMSG '' @ a @ [CR, LF] @ b @ '' :'' @ ?t @ [CR, LF]"
    using assms(3) by (simp add: IRCMessage_toString params_string_def)
  ultimately show ?thesis
    using assms(4) by (intro exI [of _ ?r] exI [of _ ?t]) (simp add: HelloWorld_filter_def)
qed

text \<open>
  \<open>SimpleCommands\<close> sends the text of the command's message back with its line break, so its last
  answer is two lines, the second one empty.
\<close>

lemma help_sends_line_break:
  assumes "arguments c \<noteq> []"
  shows "\<exists>w' reply. helpCommand c w = (None, w') \<and> last (effects w') = Send reply \<and>
    \<not> single_line (toString reply False)"
proof -
  let ?r = "IRCMessage ''PRIVMSG'' [''KolK'', toString (cmd_irc_message c) False]"
  obtain w' where w: "helpCommand c w = (None, w')" "last (effects w') = Send ?r"
    using assms by (simp add: helpCommand_def andThen_def handler_simps for_each_send)
  have "toString ?r False = (''PRIVMSG KolK :'' @ toString (cmd_irc_message c) True @ [CR, LF]) @ [CR, LF]"
    by (simp add: IRCMessage_toString params_string_def toString_def [of "cmd_irc_message c"])
  then have "\<not> single_line (toString ?r False)"
    unfolding single_line_def by (auto simp: line_safe_def)
  with w show ?thesis by blast
qed

section \<open>A concrete bot\<close>

text \<open>The plugin \<open>Ping\<close> waits for a message; the bot receives a ping, and the plugin answers it.\<close>

definition ping_waiting :: "(yaml_node, bundled_object) plugin" where
  "ping_waiting = set_thread Waiting (Plugin Ping_class No_Object \<lparr>pc_id = ''ping'', pc_config = Undefined\<rparr>)"

definition join_looping :: "(yaml_node, bundled_object) plugin" where
  "join_looping = set_thread Looping (Plugin (lift_class join_object Join_Object (Join_class yaml_tree))
     (Join_Object \<lparr>m_channels = {}\<rparr>) \<lparr>pc_id = ''join'', pc_config = Undefined\<rparr>)"

definition bundled_core :: "(yaml_node, bundled_object) core" where
  "bundled_core = (Core Undefined)\<lparr>receiving := True, m_plugins := [ping_waiting, join_looping]\<rparr>"

lemma ping_answered:
  "\<exists>s. system_reach bundled_core s \<and> outgoing (s_core s) = [''PONG :irc.example.com'' @ [CR, LF]]"
proof -
  let ?line = "toString example_ping False" and ?pong = "Send (IRCMessage ''PONG'' [''irc.example.com''])"
  let ?p = "parse new_IRCParser ?line"
  let ?c1 = "bundled_core\<lparr>receiving := False, m_parser := ?p\<rparr>"
  let ?s1 = "(session bundled_core)\<lparr>s_core := ?c1, s_io := IO_Messages, s_chunks := [?line]\<rparr>"
  have "system_step (session bundled_core) ?s1"
    using io_receive [of "session bundled_core" ?line] ping_fits
    by (simp add: system_step_def session_def bundled_core_def Core_def)
  with sr_init have r1: "system_reach bundled_core ?s1" by (rule sr_step)
  let ?q = "?p\<lparr>m_messages := []\<rparr>"
  let ?s2 = "?s1\<lparr>s_core := ?c1\<lparr>m_parser := ?q\<rparr>, s_io := IO_Offer example_ping 0, s_dispatched := [example_ping]\<rparr>"
  have "getMessage ?p = Inr (example_ping, ?q)" by (simp add: getMessage_def ping_parsed)
  then have "system_step ?s1 ?s2"
    using io_next [of ?s1 example_ping ?q] by (simp add: system_step_def session_def)
  with r1 have r2: "system_reach bundled_core ?s2" by (rule sr_step)
  let ?c3 = "?c1\<lparr>m_parser := ?q, m_plugins := [receive example_ping ping_waiting, join_looping]\<rparr>"
  let ?s3 = "?s2\<lparr>s_core := ?c3, s_io := IO_Offer example_ping 1\<rparr>"
  have "offer example_ping 0 (s_core ?s2) = Inr ?c3"
    by (simp add: offer_def fault_simps preFilter_def bundled_core_def ping_waiting_def set_thread_def
        Plugin_def Ping_class_def Ping_filter_def example_ping_def)
  then have "system_step ?s2 ?s3"
    using io_offer [of ?s2 example_ping 0 ?c3]
    by (simp add: system_step_def count_plugins_def plugin_at_def bundled_core_def busy_def ping_waiting_def)
  with r2 have r3: "system_reach bundled_core ?s3" by (rule sr_step)
  have p3: "plugin_at ?s3 0 = receive example_ping ping_waiting" "0 < count_plugins ?s3"
    by (simp_all add: plugin_at_def count_plugins_def)
  have "thread_step (plugin_at ?s3 0) (set_thread (Handling example_ping) ping_waiting) [example_ping] []"
    using thread_take [of "receive example_ping ping_waiting" example_ping "[]"] p3(1)
    by (simp add: ping_waiting_def receive_def set_thread_def Plugin_def)
  from sr_step [OF r3 system_turn [OF p3(2) this]] obtain s4 where r4: "system_reach bundled_core s4"
    "plugin_at s4 0 = set_thread (Handling example_ping) ping_waiting" "0 < count_plugins s4" "outgoing (s_core s4) = []"
    by (simp add: plugin_at_def count_plugins_def bundled_core_def Core_def)
  have "run_handler 0 (process_message example_ping (plugin_at s4 0)) (plugin_at s4 0) = (plugin_at s4 0, [?pong], None)"
    by (simp add: r4(2) run_handler_def process_message_def ping_waiting_def set_thread_def Plugin_def Ping_class_def
        Ping_onMessage_def example_ping_def fault_simps handler_simps)
  then have h: "thread_step (plugin_at s4 0) (set_thread Looping (plugin_at s4 0)) [] [?pong]"
    using r4(2) by (intro thread_handle) simp_all
  have "\<forall>e \<in> set [?pong]. is_send e" by simp
  from sr_step [OF r4(1) system_turn [OF r4(3) h this]] show ?thesis
    using r4(4) by (intro exI conjI) (assumption, simp add: line_of_def IRCMessage_toString params_string_def)
qed

lemma config_safe_Undefined: "config_safe yaml_tree Undefined"
  by (simp add: config_safe_def config_entry_def yaml_tree_def)

lemma bundled_core_loaded: "\<forall>p \<in> set (m_plugins bundled_core). loaded_from yaml_tree quiet_libraries p"
proof -
  have "loaded_from yaml_tree quiet_libraries (set_thread th q)"
    if "lib \<in> quiet_libraries" "bundled_plugin yaml_tree lib \<lparr>pc_id = k, pc_config = Undefined\<rparr> = Some q"
      "th \<in> {NoThread, Starting, Looping, Waiting}" for lib k q th
    unfolding loaded_from_def using that config_safe_Undefined
    by (intro bexI [OF _ that(1)] exI [of _ "\<lparr>pc_id = k, pc_config = Undefined\<rparr>"] exI [of _ q] exI [of _ th]) simp
  from this [of "''ping''" "''ping''" _ Waiting] this [of "''join''" "''join''" _ Looping] show ?thesis
    by (simp add: bundled_core_def bundled_plugin_def ping_waiting_def join_looping_def)
qed



theorem bundled_bot_sends_lines_witness:
  "\<exists>s. system_reach bundled_core s \<and> outgoing (s_core s) \<noteq> [] \<and> (\<forall>l \<in> set (outgoing (s_core s)). single_line l)"
proof -
  obtain s where s: "system_reach bundled_core s" "outgoing (s_core s) \<noteq> []" using ping_answered by auto
  from bundled_bot_sends_lines [OF bundled_core_loaded _ s(1)] s show ?thesis
    by (auto simp: bundled_core_def Core_def)
qed

definition nick_message :: irc_message where
  "nick_message = \<lparr>servername = '''', user = ''u'', nick = ''a'' @ [CR, LF] @ ''QUIT'', host = ''h'',
     command = ''PRIVMSG'', params = [''#c'', ''hi'']\<rparr>"

theorem nick_line_break_injected_witness:
  "\<exists>reply content. HelloWorld_onMessage yaml_tree nick_message
       \<lparr>w_config = Undefined, w_uptime = 0, object = No_Object, effects = []\<rparr> =
     (None, \<lparr>w_config = Undefined, w_uptime = 0, object = No_Object, effects = [Send reply]\<rparr>) \<and>
   toString reply False = ''PRIVMSG a'' @ [CR, LF] @ ''QUIT :'' @ content @ [CR, LF]"
proof -
  have "canonical nick_message" by code_simp
  from nick_line_break_injected [OF idle_new this, of "''a''" "''QUIT''" "''#c''" "''hi''" No_Object yaml_tree
      "\<lparr>w_config = Undefined, w_uptime = 0, object = No_Object, effects = []\<rparr>"]
  show ?thesis by (auto simp: nick_message_def)
qed

end
