(* ===== verification/Bot_Control.thy ===== *)
theory Bot_Control
  imports Bot_System
begin

text \<open>
  Starting, restarting and stopping while the bot runs: the tasks that \<open>Bot_Core\<close> has as sequential
  functions, cut into steps, on the two threads that carry them out. The main thread loads and starts
  the plugins, and a signal makes it stop the core wherever the other threads are; a command of the
  admin port, or the stop after an error of the connection, is carried out by the I/O thread, between two of its handlers. The threads of the plugins
  go on at every step. Reloading, which replaces the object of a plugin, is added in \<open>Bot_Reload\<close>.
\<close>

section \<open>Tasks\<close>

text \<open>
  Loading the plugins of the entries of the configuration; starting them from an index on; restarting plugins by id, in the join of one, about
  to spawn one; stopping the core: before the first plugin, at a plugin, in the join of one, done.
\<close>

datatype 'n task =
    Unoccupied
  | Loading "('n \<times> 'n) list"
  | Spawning nat
  | Restarting "string list"
  | Restart_Join nat "string list"
  | Restart_Spawn nat "string list"
  | Stop_Begin
  | Stopping nat
  | Stop_Join nat
  | Stopped

definition put_plugin :: "nat \<Rightarrow> ('n, 'x) plugin \<Rightarrow> ('n, 'x) system \<Rightarrow> ('n, 'x) system" where
  "put_plugin i p s = s\<lparr>s_core := (s_core s)\<lparr>m_plugins := (m_plugins (s_core s))[i := p]\<rparr>\<rparr>"

text \<open>The first half of \<open>Plugin::stop\<close>, up to the join.\<close>

definition stop_running :: "('n, 'x) plugin \<Rightarrow> ('n, 'x) plugin" where
  "stop_running p = p\<lparr>m_running := False\<rparr>"

text \<open>The second half, after the join: \<open>onShutdown\<close>, whose effects the core performs.\<close>

definition after_join :: "('n, 'x) env \<Rightarrow> nat \<Rightarrow> ('n, 'x) system \<Rightarrow> ('n, 'x) system result" where
  "after_join env i s = (let p = plugin_at s i in
     case run_handler (uptime_now env) (onShutdown (m_class p)) (set_thread NoThread p) of (q, es, f) \<Rightarrow>
       bind_result (fold_result perform es (s_core (put_plugin i q s))) (\<lambda>c.
         case f of Some e \<Rightarrow> Inl e
         | None \<Rightarrow> if length (m_plugins c) \<noteq> count_plugins s then Inl UndefinedBehaviour else Inr (s\<lparr>s_core := c\<rparr>)))"

text \<open>\<open>Core::stop\<close> after the plugins have been stopped.\<close>

definition rest_of_stop :: "('n, 'x) env \<Rightarrow> ('n, 'x) core \<Rightarrow> ('n, 'x) core result" where
  "rest_of_stop env c =
     bind_result (stopTcpPluginServer env c) (\<lambda>c2.
     bind_result (deinitializePlugins c2) (\<lambda>c3.
     bind_result (stopAdminPort env c3) (\<lambda>c4.
       set_value (m_result c4) c4)))"

lemma core_stop_rest:
  "core_stop env c = bind_result (stopPlugins env (disconnect (stopAsyncReceive c))) (rest_of_stop env)"
  by (simp add: core_stop_def rest_of_stop_def [abs_def])

text \<open>
  A step of a task. A task whose next operation throws has no step: the exception leaves the thread,
  and the process ends.
\<close>

inductive task_step ::
  "('n, 'x) env \<Rightarrow> 'n task \<times> ('n, 'x) system \<Rightarrow> 'n task \<times> ('n, 'x) system \<Rightarrow> bool" for env where
  ts_load: "load_entry env e (s_core s) = Inr c \<Longrightarrow> task_step env (Loading (e # es), s) (Loading es, s\<lparr>s_core := c\<rparr>)"
| ts_loaded: "task_step env (Loading [], s) (Spawning 0, s)"
| ts_spawn: "i < count_plugins s \<Longrightarrow> spawn (plugin_at s i) = Inr q \<Longrightarrow>
    task_step env (Spawning i, s) (Spawning (Suc i), put_plugin i q s)"
| ts_spawned: "i = count_plugins s \<Longrightarrow> task_step env (Spawning i, s) (Unoccupied, s)"
| ts_unknown: "findPlugin pid (s_core s) = count_plugins s \<Longrightarrow>
    task_step env (Restarting (pid # ids), s) (Restarting ids, s)"
| ts_restart: "findPlugin pid (s_core s) = i \<Longrightarrow> i < count_plugins s \<Longrightarrow> m_running (plugin_at s i) \<Longrightarrow>
    task_step env (Restarting (pid # ids), s) (Restart_Join i ids, put_plugin i (stop_running (plugin_at s i)) s)"
| ts_restart_idle: "findPlugin pid (s_core s) = i \<Longrightarrow> i < count_plugins s \<Longrightarrow> \<not> m_running (plugin_at s i) \<Longrightarrow>
    task_step env (Restarting (pid # ids), s) (Restart_Spawn i ids, s)"
| ts_restart_joined: "i < count_plugins s \<Longrightarrow> m_thread (plugin_at s i) \<in> {NoThread, Finished} \<Longrightarrow>
    after_join env i s = Inr t \<Longrightarrow> task_step env (Restart_Join i ids, s) (Restart_Spawn i ids, t)"
| ts_respawn: "i < count_plugins s \<Longrightarrow> spawn (plugin_at s i) = Inr q \<Longrightarrow>
    task_step env (Restart_Spawn i ids, s) (Restarting ids, put_plugin i q s)"
| ts_restarted: "task_step env (Restarting [], s) (Unoccupied, s)"
| ts_stop_begin: "task_step env (Stop_Begin, s) (Stopping 0, s\<lparr>s_core := disconnect (stopAsyncReceive (s_core s))\<rparr>)"
| ts_stop: "i < count_plugins s \<Longrightarrow> m_running (plugin_at s i) \<Longrightarrow>
    task_step env (Stopping i, s) (Stop_Join i, put_plugin i (stop_running (plugin_at s i)) s)"
| ts_stop_idle: "i < count_plugins s \<Longrightarrow> \<not> m_running (plugin_at s i) \<Longrightarrow>
    task_step env (Stopping i, s) (Stopping (Suc i), s)"
| ts_stop_joined: "i < count_plugins s \<Longrightarrow> m_thread (plugin_at s i) \<in> {NoThread, Finished} \<Longrightarrow>
    after_join env i s = Inr t \<Longrightarrow> task_step env (Stop_Join i, s) (Stopping (Suc i), t)"
| ts_stop_rest: "i = count_plugins s \<Longrightarrow> rest_of_stop env (s_core s) = Inr c \<Longrightarrow>
    task_step env (Stopping i, s) (Stopped, s\<lparr>s_core := c\<rparr>)"

inductive_cases task_stepE: "task_step env (t, s) u"

section \<open>The threads together\<close>

text \<open>
  \<open>k_undefined\<close>: the behaviour has become undefined, because two threads use the vector of plugins at the
  same time, one of them changing its length, or because two threads join the same thread.
\<close>

record ('n, 'x) controlled =
  k_sys :: "('n, 'x) system"
  k_admin :: "'n task"
  k_main :: "'n task"
  k_undefined :: bool

definition supervised :: "'n task \<Rightarrow> ('n, 'x) system \<Rightarrow> ('n, 'x) controlled" where
  "supervised t s = \<lparr>k_sys = s, k_admin = Unoccupied, k_main = t, k_undefined = False\<rparr>"

definition in_loop :: "io_state \<Rightarrow> bool" where
  "in_loop st \<longleftrightarrow> (\<exists>m i. st = IO_Offer m i)"

fun joining :: "'n task \<Rightarrow> nat option" where
  "joining (Restart_Join i _) = Some i"
| "joining (Stop_Join i) = Some i"
| "joining _ = None"

text \<open>A step of one task to \<open>t\<close>, with the task \<open>other\<close> and the I/O loop on the other threads.\<close>

definition clash :: "'n task \<Rightarrow> 'n task \<Rightarrow> ('n, 'x) system \<Rightarrow> ('n, 'x) system \<Rightarrow> bool" where
  "clash other t s s' \<longleftrightarrow> (count_plugins s' \<noteq> count_plugins s \<and> (in_loop (s_io s) \<or> other \<noteq> Unoccupied)) \<or>
     (joining t \<noteq> None \<and> joining t = joining other)"

definition worker_turn :: "('n, 'x) system \<Rightarrow> ('n, 'x) system \<Rightarrow> bool" where
  "worker_turn s t \<longleftrightarrow> (\<exists>i. thread_turn i s t \<and> m_thread (plugin_at s i) \<noteq> NoThread)"

inductive control_step ::
  "('n, 'x) env \<Rightarrow> ('n, 'x) controlled \<Rightarrow> ('n, 'x) controlled \<Rightarrow> bool" for env where
  ks_io: "\<not> k_undefined k \<Longrightarrow> k_admin k = Unoccupied \<Longrightarrow> io_step (k_sys k) s \<Longrightarrow>
    control_step env k (k\<lparr>k_sys := s\<rparr>)"
| ks_worker: "\<not> k_undefined k \<Longrightarrow> worker_turn (k_sys k) s \<Longrightarrow> control_step env k (k\<lparr>k_sys := s\<rparr>)"
| ks_restart: "\<not> k_undefined k \<Longrightarrow> k_admin k = Unoccupied \<Longrightarrow> s_io (k_sys k) = IO_Idle \<Longrightarrow>
    control_step env k (k\<lparr>k_admin := Restarting ids\<rparr>)"
| ks_shutdown: "\<not> k_undefined k \<Longrightarrow> k_admin k = Unoccupied \<Longrightarrow> s_io (k_sys k) = IO_Idle \<Longrightarrow>
    control_step env k (k\<lparr>k_admin := Stop_Begin\<rparr>)"
| ks_error: "\<not> k_undefined k \<Longrightarrow> k_admin k = Unoccupied \<Longrightarrow> s_io (k_sys k) = IO_Idle \<Longrightarrow> receiving (s_core (k_sys k)) \<Longrightarrow>
    control_step env k (k\<lparr>k_admin := Stop_Begin, k_sys := (k_sys k)\<lparr>s_core := (s_core (k_sys k))
      \<lparr>receiving := False, m_result := RESULT_CONNECTION_ERROR\<rparr>\<rparr>\<rparr>)"
| ks_admin: "\<not> k_undefined k \<Longrightarrow> task_step env (k_admin k, k_sys k) (t, s) \<Longrightarrow>
    control_step env k (k\<lparr>k_admin := t, k_sys := s, k_undefined := clash (k_main k) t (k_sys k) s\<rparr>)"
| ks_signal: "\<not> k_undefined k \<Longrightarrow> k_main k = Unoccupied \<Longrightarrow> control_step env k (k\<lparr>k_main := Stop_Begin\<rparr>)"
| ks_main: "\<not> k_undefined k \<Longrightarrow> task_step env (k_main k, k_sys k) (t, s) \<Longrightarrow>
    control_step env k (k\<lparr>k_main := t, k_sys := s, k_undefined := clash (k_admin k) t (k_sys k) s\<rparr>)"

section \<open>Lemmas: what the steps keep\<close>

lemma put_plugin_simps [simp]:
  "count_plugins (put_plugin i p s) = count_plugins s" "s_io (put_plugin i p s) = s_io s"
  "s_chunks (put_plugin i p s) = s_chunks s" "s_dispatched (put_plugin i p s) = s_dispatched s"
  "s_taken (put_plugin i p s) = s_taken s" "m_parser (s_core (put_plugin i p s)) = m_parser (s_core s)"
  "control (s_core (put_plugin i p s)) = control (s_core s)"
  "outgoing (s_core (put_plugin i p s)) = outgoing (s_core s)"
  by (simp_all add: put_plugin_def count_plugins_def)

lemma plugin_at_put [simp]:
  "i < count_plugins s \<Longrightarrow> plugin_at (put_plugin i p s) k = (if k = i then p else plugin_at s k)"
  by (simp add: put_plugin_def plugin_at_def count_plugins_def)

lemma stop_running_simps [simp]:
  "same_kind p (stop_running q) = same_kind p q" "m_incoming (stop_running p) = m_incoming p"
  "m_thread (stop_running p) = m_thread p" "\<not> m_running (stop_running p)" "m_class (stop_running p) = m_class p"
  "m_id (stop_running p) = m_id p"
  by (simp_all add: stop_running_def)

text \<open>
  \<open>same_plugins s t\<close>: from \<open>s\<close> to \<open>t\<close> the I/O thread stands still and no plugin is exchanged or loses a
  message.
\<close>

definition same_plugins :: "('n, 'x) system \<Rightarrow> ('n, 'x) system \<Rightarrow> bool" where
  "same_plugins s t \<longleftrightarrow> same_io s t \<and> s_dispatched t = s_dispatched s \<and> s_taken t = s_taken s \<and>
     (\<forall>i < count_plugins s. same_kind (plugin_at s i) (plugin_at t i) \<and>
        m_incoming (plugin_at t i) = m_incoming (plugin_at s i))"

lemma same_plugins_refl [simp]: "same_plugins s s"
  by (simp add: same_plugins_def same_io_def)

lemma same_plugins_error [simp]:
  "same_plugins s (s\<lparr>s_core := (s_core s)\<lparr>receiving := False, m_result := r\<rparr>\<rparr>)"
  by (simp add: same_plugins_def same_io_def plugin_at_def count_plugins_def)

lemma same_plugins_put:
  "i < count_plugins s \<Longrightarrow> same_kind (plugin_at s i) p \<Longrightarrow> m_incoming p = m_incoming (plugin_at s i) \<Longrightarrow>
   same_plugins s (put_plugin i p s)"
  by (simp add: same_plugins_def same_io_def)

lemma system_inv_same_plugins:
  assumes "same_plugins s t" and "system_inv c s"
  shows "system_inv c t"
proof -
  have "offered t i = offered s i" for i
    by (rule offered_cong) (use assms(1) in \<open>simp_all add: same_plugins_def same_io_def\<close>)
  with assms show ?thesis
    by (auto simp: system_inv_def plugin_inv_def same_plugins_def same_io_def intro: same_kind_trans)
qed

lemma perform_all_sends:
  "\<forall>e \<in> set es. is_send e \<Longrightarrow> fold_result perform es c = Inr d \<Longrightarrow> d = c\<lparr>outgoing := outgoing c @ map line_of es\<rparr>"
  by (simp add: perform_sends)

text \<open>Joining a self-contained plugin sends something and leaves everything else in place.\<close>

lemma shutdown_sends:
  assumes "self_contained p" and "run_handler u (onShutdown (m_class p)) (set_thread th p) = (q, es, f)"
  shows "\<forall>e \<in> set es. is_send e"
proof -
  from assms(1) have "plugin_contract (\<lambda>_ _. True) (\<lambda>_. True) is_send (m_class p) (m_functions p)"
    by (simp add: self_contained_def)
  then have "ok_at (\<lambda>_ _. True) is_send (onShutdown (m_class p)) w" for w
    by (rule plugin_contract.onShutdown_ok)
  from ok_run_handler [OF assms(2), of "\<lambda>_ _. True", OF _ this] show ?thesis by simp
qed

lemma after_join_effect:
  assumes "after_join env i s = Inr t" and "i < count_plugins s" and "self_contained (plugin_at s i)"
  obtains q es where
    "run_handler (uptime_now env) (onShutdown (m_class (plugin_at s i))) (set_thread NoThread (plugin_at s i)) = (q, es, None)"
    "t = put_plugin i q (s\<lparr>s_core := (s_core s)\<lparr>outgoing := outgoing (s_core s) @ map line_of es\<rparr>\<rparr>)"
    "\<forall>e \<in> set es. is_send e"
proof -
  obtain q es f where
    r: "run_handler (uptime_now env) (onShutdown (m_class (plugin_at s i))) (set_thread NoThread (plugin_at s i)) = (q, es, f)"
    by (rule prod_cases3)
  have e: "\<forall>e \<in> set es. is_send e" using assms(3) r by (rule shutdown_sends)
  from assms(1) r have "f = None" by (auto simp: after_join_def Let_def bind_result_Inr_iff split: option.splits)
  moreover have "t = put_plugin i q (s\<lparr>s_core := (s_core s)\<lparr>outgoing := outgoing (s_core s) @ map line_of es\<rparr>\<rparr>)"
    using assms(1) r by (auto simp: after_join_def Let_def perform_sends [OF e] put_plugin_def
        split: option.splits if_split_asm)
  ultimately show thesis using that r e by blast
qed

text \<open>The same, as a calculation: the join succeeds when \<open>onShutdown\<close> does.\<close>

lemma after_join_sends:
  assumes "run_handler (uptime_now env) (onShutdown (m_class (plugin_at s i))) (set_thread NoThread (plugin_at s i)) = (q, es, None)"
    and "i < count_plugins s" and "self_contained (plugin_at s i)"
  shows "after_join env i s =
    Inr (put_plugin i q (s\<lparr>s_core := (s_core s)\<lparr>outgoing := outgoing (s_core s) @ map line_of es\<rparr>\<rparr>))"
  using assms(1,2)
  by (simp add: after_join_def Let_def put_plugin_def count_plugins_def perform_sends [OF shutdown_sends [OF assms(3,1)]])

lemma same_plugins_after_join:
  assumes "after_join env i s = Inr t" and "i < count_plugins s" and "self_contained (plugin_at s i)"
  shows "same_plugins s t"
proof -
  from assms obtain q es where
    r: "run_handler (uptime_now env) (onShutdown (m_class (plugin_at s i))) (set_thread NoThread (plugin_at s i)) = (q, es, None)"
    and t: "t = put_plugin i q (s\<lparr>s_core := (s_core s)\<lparr>outgoing := outgoing (s_core s) @ map line_of es\<rparr>\<rparr>)"
    by (rule after_join_effect)
  have "same_plugins (s\<lparr>s_core := (s_core s)\<lparr>outgoing := outgoing (s_core s) @ map line_of es\<rparr>\<rparr>) t"
    unfolding t using run_handler_frame [OF r] same_kind_handler [OF r] assms(2)
    by (intro same_plugins_put) (simp_all add: count_plugins_def plugin_at_def same_kind_set_thread)
  then show ?thesis
    by (simp add: same_plugins_def same_io_def plugin_at_def count_plugins_def)
qed

text \<open>The tasks, up to the end of a stop, keep the plugins and their mailboxes.\<close>

fun loading :: "'n task \<Rightarrow> bool" where
  "loading (Loading _) = True"
| "loading _ = False"

lemma task_step_plugins:
  assumes "task_step env (t, s) (t', s')" and "\<not> loading t" and "t' \<noteq> Stopped"
    and "\<forall>i < count_plugins s. self_contained (plugin_at s i)"
  shows "same_plugins s s'"
  using assms(1)
proof cases
  case (ts_spawn i q)
  then have "same_kind (plugin_at s i) q" "m_incoming q = m_incoming (plugin_at s i)"
    using same_kind_spawn spawn_frame by blast+
  with ts_spawn show ?thesis by (simp add: same_plugins_put)
next
  case (ts_respawn i q ids)
  then have "same_kind (plugin_at s i) q" "m_incoming q = m_incoming (plugin_at s i)"
    using same_kind_spawn spawn_frame by blast+
  with ts_respawn show ?thesis by (simp add: same_plugins_put)
next
  case ts_stop_begin
  then show ?thesis
    by (simp add: same_plugins_def same_io_def plugin_at_def count_plugins_def disconnect_def stopAsyncReceive_def)
qed (use assms in \<open>auto intro: same_plugins_put same_plugins_after_join\<close>)


section \<open>The invariants\<close>

text \<open>The tasks a signal or an admin command starts never load plugins.\<close>

fun stop_task :: "'n task \<Rightarrow> bool" where
  "stop_task Stop_Begin = True"
| "stop_task (Stopping _) = True"
| "stop_task (Stop_Join _) = True"
| "stop_task Stopped = True"
| "stop_task _ = False"

lemma stop_task_step: "task_step env (t, s) (t', s') \<Longrightarrow> stop_task t \<Longrightarrow> stop_task t'"
  by (cases rule: task_step.cases) auto

lemma loading_step: "task_step env (t, s) (t', s') \<Longrightarrow> \<not> loading t \<Longrightarrow> \<not> loading t'"
  by (cases rule: task_step.cases) auto

lemma stop_not_loading: "stop_task t \<Longrightarrow> \<not> loading t"
  by (cases t) auto

definition main_ok :: "('n, 'x) controlled \<Rightarrow> bool" where
  "main_ok k \<longleftrightarrow> (k_main k = Unoccupied \<or> stop_task (k_main k)) \<and> \<not> loading (k_admin k) \<and>
     (k_admin k \<noteq> Unoccupied \<longrightarrow> s_io (k_sys k) = IO_Idle)"

definition not_stopped :: "('n, 'x) controlled \<Rightarrow> bool" where
  "not_stopped k \<longleftrightarrow> k_admin k \<noteq> Stopped \<and> k_main k \<noteq> Stopped"

lemma worker_turn_io: "worker_turn s t \<Longrightarrow> s_io t = s_io s"
  by (auto simp: worker_turn_def elim!: thread_turnE)

lemma task_step_io: "task_step env (t, s) (t', s') \<Longrightarrow> s_io s' = s_io s"
  by (cases rule: task_step.cases)
    (auto simp: after_join_def Let_def bind_result_Inr_iff split: prod.splits option.splits if_split_asm)

lemma Unoccupied_no_step: "\<not> task_step env (Unoccupied, s) u"
  by (auto elim: task_step.cases)

lemma main_ok_step: "control_step env k k' \<Longrightarrow> main_ok k \<Longrightarrow> main_ok k'"
proof (induction rule: control_step.induct)
  case (ks_admin k t s)
  from ks_admin(2) have "k_admin k \<noteq> Unoccupied" using Unoccupied_no_step by metis
  with ks_admin task_step_io [OF ks_admin(2)] loading_step [OF ks_admin(2)] show ?case
    by (simp add: main_ok_def)
next
  case (ks_main k t s)
  from ks_main(2) have "k_main k \<noteq> Unoccupied" using Unoccupied_no_step by metis
  with ks_main task_step_io [OF ks_main(2)] stop_task_step [OF ks_main(2)] show ?case
    by (simp add: main_ok_def)
qed (auto simp: main_ok_def worker_turn_io)

lemma main_ok_steps: "(control_step env)\<^sup>*\<^sup>* k k' \<Longrightarrow> main_ok k \<Longrightarrow> main_ok k'"
  by (induction rule: rtranclp_induct) (auto intro: main_ok_step)

lemma main_ok_supervised: "main_ok (supervised Unoccupied s)"
  by (simp add: main_ok_def supervised_def)

lemma Stopped_no_step: "\<not> task_step env (Stopped, s) u"
  by (auto elim: task_step.cases)

lemma not_stopped_step: "control_step env k k' \<Longrightarrow> not_stopped k' \<Longrightarrow> not_stopped k"
  by (induction rule: control_step.induct) (auto simp: not_stopped_def Stopped_no_step)

text \<open>Up to the end of a stop the invariant of a session holds, whatever tasks interleave with it.\<close>

definition kept :: "('n, 'x) core \<Rightarrow> ('n, 'x) controlled \<Rightarrow> bool" where
  "kept c k \<longleftrightarrow> system_inv c (k_sys k)"

lemma system_inv_all_self_contained:
  "fresh_core c \<Longrightarrow> system_inv c s \<Longrightarrow> \<forall>i < count_plugins s. self_contained (plugin_at s i)"
  using system_inv_plugin(2) by blast

lemma kept_step:
  assumes "control_step env k k'" and "fresh_core c" and "main_ok k" and "not_stopped k'" and "kept c k"
  shows "kept c k'"
proof -
  have inv: "system_inv c (k_sys k)" using assms(5) by (simp add: kept_def)
  note sc = system_inv_all_self_contained [OF assms(2) inv]
  show ?thesis
    using assms(1)
  proof cases
    case (ks_io s)
    with system_inv_io_step [OF ks_io(4) assms(2) inv] show ?thesis by (simp add: kept_def)
  next
    case (ks_worker s)
    with system_inv_thread_turn [OF _ assms(2) inv] show ?thesis by (auto simp: kept_def worker_turn_def)
  next
    case (ks_admin t s)
    have "same_plugins (k_sys k) s"
      by (rule task_step_plugins [OF ks_admin(3)]) (use assms(3,4) ks_admin sc in \<open>auto simp: main_ok_def not_stopped_def\<close>)
    from system_inv_same_plugins [OF this inv] ks_admin show ?thesis by (simp add: kept_def)
  next
    case ks_error
    with system_inv_same_plugins [OF same_plugins_error inv] show ?thesis by (simp add: kept_def)
  next
    case (ks_main t s)
    have "same_plugins (k_sys k) s"
      by (rule task_step_plugins [OF ks_main(3)])
        (use assms(3,4) ks_main sc stop_not_loading in \<open>auto simp: main_ok_def not_stopped_def\<close>)
    from system_inv_same_plugins [OF this inv] ks_main show ?thesis by (simp add: kept_def)
  qed (use inv in \<open>simp_all add: kept_def\<close>)
qed

lemma kept_reach:
  "(control_step env)\<^sup>*\<^sup>* k k' \<Longrightarrow> fresh_core c \<Longrightarrow> main_ok k \<Longrightarrow> kept c k \<Longrightarrow> not_stopped k' \<Longrightarrow> kept c k'"
proof (induction rule: rtranclp_induct)
  case (step u v)
  have "main_ok u" using step.hyps(1) step.prems(2) by (rule main_ok_steps)
  moreover have "not_stopped u" using step.hyps(2) step.prems(4) by (rule not_stopped_step)
  ultimately show ?case using step kept_step by blast
qed simp

lemma kept_session: "fresh_core c \<Longrightarrow> kept c (supervised t (session c))"
  by (simp add: kept_def supervised_def system_inv_session)


section \<open>Joining a responsive plugin\<close>

definition own_work :: "('n, 'x) plugin \<Rightarrow> ('n, 'x) plugin \<Rightarrow> bool" where
  "own_work p q \<longleftrightarrow> own_step p q \<and> m_thread p \<noteq> NoThread"

definition quiet_shutdown :: "('n, 'x) plugin \<Rightarrow> bool" where
  "quiet_shutdown p \<longleftrightarrow> (\<forall>w. fst (onShutdown (m_class p) w) = None)"

lemma quiet_shutdown_same_kind: "same_kind p q \<Longrightarrow> quiet_shutdown q = quiet_shutdown p"
  by (simp add: same_kind_def quiet_shutdown_def)

text \<open>A stopped plugin whose thread tests its loop, waits, or handles a message.\<close>

lemma leave_loop: "m_thread p = Looping \<Longrightarrow> \<not> m_running p \<Longrightarrow> own_work p (set_thread Finished p)"
  using plugin_step.ps_leave [of "started p"]
  by (force simp: own_work_def own_step_def thread_step_def started_def)

lemma time_out: "m_thread p = Waiting \<Longrightarrow> m_incoming p = [] \<Longrightarrow> own_work p (set_thread Looping p)"
  using plugin_step.ps_timeout [of "started p"]
  by (force simp: own_work_def own_step_def thread_step_def started_def commandsCount_def)

lemma handle_message:
  assumes "m_thread p = Handling m" and "quiet_class (m_class p)" and "m_command_parser p = None"
  shows "\<exists>q. own_work p q \<and> m_thread q = Looping \<and> m_running q = m_running p \<and> same_kind p q"
proof -
  obtain q es f where run: "run_handler 0 (process_message m p) p = (q, es, f)"
    by (cases "run_handler 0 (process_message m p) p") auto
  have "fst (onMessage (m_class p) m \<lparr>w_config = m_cfg p, w_uptime = 0, object = m_object p, effects = []\<rparr>) = None"
    using assms(2) by (simp add: quiet_class_def)
  with run assms(3) have "f = None" by (auto simp: run_handler_def process_message_def split: prod.splits)
  with run have "own_work p (set_thread Looping q)"
    using thread_handle [OF assms(1), of 0 q es] assms(1) by (auto simp: own_work_def own_step_def)
  then show ?thesis
    using run_handler_frame(2) [OF run] same_kind_handler [OF run] by (intro exI [of _ "set_thread Looping q"]) simp
qed

lemma stopped_finishes:
  assumes "responsive p"
  shows "\<exists>q. own_work\<^sup>*\<^sup>* (stop_running p) q \<and> m_thread q = Finished \<and> same_kind p q"
proof -
  let ?p = "stop_running p"
  have c: "quiet_class (m_class ?p)" "m_command_parser ?p = None" using assms by (simp_all add: responsive_def stop_running_def)
  have leave: "\<exists>q. own_work\<^sup>*\<^sup>* r q \<and> m_thread q = Finished \<and> same_kind r q"
    if "m_thread r = Looping" "\<not> m_running r" for r :: "('a, 'b) plugin"
    using leave_loop [OF that] by (intro exI [of _ "set_thread Finished r"]) auto
  have handle: "\<exists>q. own_work\<^sup>*\<^sup>* r q \<and> m_thread q = Finished \<and> same_kind r q"
    if "m_thread r = Handling m" "\<not> m_running r" "quiet_class (m_class r)" "m_command_parser r = None"
    for r :: "('a, 'b) plugin" and m
  proof -
    from handle_message [OF that(1,3,4)] that(2) obtain u where
      u: "own_work r u" "m_thread u = Looping" "\<not> m_running u" "same_kind r u" by blast
    from leave [OF u(2,3)] u(1,4) show ?thesis by (meson converse_rtranclp_into_rtranclp same_kind_trans)
  qed
  have "\<exists>q. own_work\<^sup>*\<^sup>* ?p q \<and> m_thread q = Finished \<and> same_kind ?p q"
  proof (cases "m_thread ?p")
    case Looping
    then show ?thesis by (rule leave) simp
  next
    case (Handling m)
    then show ?thesis by (rule handle) (use c in simp_all)
  next
    case Waiting
    show ?thesis
    proof (cases "m_incoming ?p")
      case Nil
      from leave [of "set_thread Looping ?p"] obtain q where
        "own_work\<^sup>*\<^sup>* (set_thread Looping ?p) q" "m_thread q = Finished" "same_kind (set_thread Looping ?p) q" by auto
      with time_out [OF Waiting Nil] show ?thesis
        by (metis converse_rtranclp_into_rtranclp same_kind_set_thread)
    next
      case (Cons m ms)
      let ?r = "set_thread (Handling m) (?p\<lparr>m_incoming := ms\<rparr>)"
      have w: "own_work ?p ?r" using responsive_waiting [OF Waiting Cons] Waiting by (simp add: own_work_def)
      have k: "same_kind ?p ?r" by (simp add: same_kind_def set_thread_def)
      from handle [of ?r m] c obtain q where "own_work\<^sup>*\<^sup>* ?r q" "m_thread q = Finished" "same_kind ?r q"
        by (auto simp: set_thread_def)
      with w k show ?thesis by (meson converse_rtranclp_into_rtranclp same_kind_trans)
    qed
  qed (use assms in \<open>auto simp: responsive_def busy_def\<close>)
  then show ?thesis by (simp add: same_kind_def stop_running_def)
qed

text \<open>Only the plugin at an index changes, and something may be sent.\<close>

definition only_plugin :: "nat \<Rightarrow> ('n, 'x) system \<Rightarrow> ('n, 'x) system \<Rightarrow> bool" where
  "only_plugin i s t \<longleftrightarrow> same_io s t \<and> control (s_core t) = control (s_core s) \<and>
     same_kind (plugin_at s i) (plugin_at t i) \<and> (\<forall>k. k \<noteq> i \<longrightarrow> plugin_at t k = plugin_at s k)"

lemma only_plugin_refl [simp]: "only_plugin i s s"
  by (simp add: only_plugin_def same_io_def)

lemma only_plugin_trans [trans]: "only_plugin i s t \<Longrightarrow> only_plugin i t u \<Longrightarrow> only_plugin i s u"
  by (auto simp: only_plugin_def same_io_def intro: same_kind_trans)

lemma only_plugin_put: "i < count_plugins s \<Longrightarrow> same_kind (plugin_at s i) p \<Longrightarrow> only_plugin i s (put_plugin i p s)"
  by (simp add: only_plugin_def same_io_def)

lemma only_plugin_count: "only_plugin i s t \<Longrightarrow> count_plugins t = count_plugins s"
  by (simp add: only_plugin_def same_io_def)

lemma own_work_turn:
  assumes "own_work (plugin_at s i) q" and "i < count_plugins s" and "self_contained (plugin_at s i)"
  shows "\<exists>t. worker_turn s t \<and> only_plugin i s t \<and> plugin_at t i = q"
proof -
  from assms(1) obtain ms es where p: "thread_step (plugin_at s i) q ms es" and n: "m_thread (plugin_at s i) \<noteq> NoThread"
    by (auto simp: own_work_def own_step_def)
  let ?t = "s\<lparr>s_core := (s_core s)\<lparr>m_plugins := (m_plugins (s_core s))[i := q],
    outgoing := outgoing (s_core s) @ map line_of es\<rparr>, s_taken := (s_taken s)(i := s_taken s i @ ms)\<rparr>"
  have "thread_turn i s ?t"
    using tt_step [OF assms(2) p perform_sends [OF thread_step_sends [OF p assms(3)]]] by simp
  with n have "worker_turn s ?t" by (auto simp: worker_turn_def)
  moreover have "only_plugin i s ?t" "plugin_at ?t i = q"
    using assms(2) thread_step_frame(1) [OF p] by (simp_all add: only_plugin_def same_io_def count_plugins_def plugin_at_def)
  ultimately show ?thesis by blast
qed

lemma own_work_turns:
  "own_work\<^sup>*\<^sup>* p q \<Longrightarrow> plugin_at s i = p \<Longrightarrow> i < count_plugins s \<Longrightarrow> self_contained p \<Longrightarrow>
   \<exists>t. (\<lambda>s t. worker_turn s t \<and> count_plugins t = count_plugins s)\<^sup>*\<^sup>* s t \<and> only_plugin i s t \<and> plugin_at t i = q"
proof (induction arbitrary: s rule: converse_rtranclp_induct)
  case base
  then show ?case by (intro exI [of _ s]) simp
next
  case (step p p')
  from own_work_turn [of s i p'] step.hyps(1) step.prems obtain u where
    u: "worker_turn s u" "only_plugin i s u" "plugin_at u i = p'" by auto
  have "self_contained p'"
    using u(2,3) step.prems(1,3) by (auto simp: only_plugin_def intro: self_contained_same_kind)
  moreover have n: "count_plugins u = count_plugins s" using u(2) by (rule only_plugin_count)
  ultimately obtain t where
    "(\<lambda>s t. worker_turn s t \<and> count_plugins t = count_plugins s)\<^sup>*\<^sup>* u t" "only_plugin i u t" "plugin_at t i = q"
    using step.IH [OF u(3)] step.prems(2) by auto
  with u n show ?case
    by (intro exI [of _ t]) (auto intro: converse_rtranclp_into_rtranclp only_plugin_trans)
qed

lemma join_completes:
  assumes "i < count_plugins s" and "responsive (plugin_at s i)" and "quiet_shutdown (plugin_at s i)"
  shows "\<exists>t u. (\<lambda>s t. worker_turn s t \<and> count_plugins t = count_plugins s)\<^sup>*\<^sup>*
      (put_plugin i (stop_running (plugin_at s i)) s) t \<and>
    m_thread (plugin_at t i) = Finished \<and> after_join env i t = Inr u \<and>
    only_plugin i s t \<and> only_plugin i s u \<and> m_thread (plugin_at u i) = NoThread"
proof -
  let ?p = "plugin_at s i"
  have sc: "self_contained ?p" using assms(2) by (simp add: responsive_def)
  from stopped_finishes [OF assms(2)] obtain q where
    q: "own_work\<^sup>*\<^sup>* (stop_running ?p) q" "m_thread q = Finished" by blast
  let ?s = "put_plugin i (stop_running ?p) s"
  have o: "only_plugin i s ?s" using assms(1) by (simp add: only_plugin_put)
  have "self_contained (stop_running ?p)" using sc by (simp add: self_contained_def stop_running_def)
  with own_work_turns [OF q(1), of ?s i] assms(1) obtain t where
    t: "(\<lambda>s t. worker_turn s t \<and> count_plugins t = count_plugins s)\<^sup>*\<^sup>* ?s t" "only_plugin i ?s t" "plugin_at t i = q"
    by auto
  have st: "only_plugin i s t" using o t(2) by (rule only_plugin_trans)
  then have i: "i < count_plugins t" and k: "same_kind ?p q"
    using assms(1) only_plugin_count [OF st] t(3) by (simp_all add: only_plugin_def)
  have scq: "self_contained q" using k sc by (rule self_contained_same_kind)
  obtain r es f where
    r: "run_handler (uptime_now env) (onShutdown (m_class q)) (set_thread NoThread q) = (r, es, f)" by (rule prod_cases3)
  have "quiet_shutdown q" using k assms(3) by (simp add: quiet_shutdown_same_kind)
  then have "f = None"
    using r by (auto simp: run_handler_def quiet_shutdown_def split: prod.splits) (metis fst_conv)
  with r t(3) have r': "run_handler (uptime_now env) (onShutdown (m_class (plugin_at t i)))
      (set_thread NoThread (plugin_at t i)) = (r, es, None)" by simp
  let ?o = "t\<lparr>s_core := (s_core t)\<lparr>outgoing := outgoing (s_core t) @ map line_of es\<rparr>\<rparr>"
  have joined: "after_join env i t = Inr (put_plugin i r ?o)"
    by (rule after_join_sends [OF r' i]) (use scq t(3) in simp)
  have "only_plugin i t ?o" by (simp add: only_plugin_def same_io_def plugin_at_def count_plugins_def)
  also have "only_plugin i ?o (put_plugin i r ?o)"
    using i same_kind_handler [OF r'] t(3)
    by (intro only_plugin_put) (simp_all add: plugin_at_def count_plugins_def same_kind_set_thread)
  finally have "only_plugin i s (put_plugin i r ?o)" by (rule only_plugin_trans [OF st])
  moreover have "m_thread (plugin_at (put_plugin i r ?o) i) = NoThread"
    using i run_handler_frame(3) [OF r'] by (simp add: count_plugins_def)
  moreover have "m_thread (plugin_at t i) = Finished" using t(3) q(2) by simp
  ultimately show ?thesis using t(1) joined st by blast
qed


section \<open>A stop can complete\<close>

text \<open>Steps of a task and of the plugins' threads, on one thread of control.\<close>

definition work ::
  "('n, 'x) env \<Rightarrow> 'n task \<times> ('n, 'x) system \<Rightarrow> 'n task \<times> ('n, 'x) system \<Rightarrow> bool" where
  "work env x y \<longleftrightarrow> (task_step env x y \<or> (fst y = fst x \<and> worker_turn (snd x) (snd y))) \<and>
     count_plugins (snd y) = count_plugins (snd x)"

lemma work_task: "task_step env (t, s) (t', s') \<Longrightarrow> count_plugins s' = count_plugins s \<Longrightarrow> work env (t, s) (t', s')"
  by (simp add: work_def)

lemma work_turns:
  "(\<lambda>s t. worker_turn s t \<and> count_plugins t = count_plugins s)\<^sup>*\<^sup>* s s' \<Longrightarrow> (work env)\<^sup>*\<^sup>* (t, s) (t, s')"
proof (induction rule: rtranclp_induct)
  case (step u v)
  then have "work env (t, u) (t, v)" by (simp add: work_def)
  with step.IH show ?case by (rule rtranclp.rtrancl_into_rtrancl)
qed simp

text \<open>Stopping the plugin at an index, and restarting it: the part that both tasks share.\<close>

lemma work_join:
  assumes "i < count_plugins s" and "responsive (plugin_at s i)" and "quiet_shutdown (plugin_at s i)"
    and "task_step env (t, s) (j, put_plugin i (stop_running (plugin_at s i)) s)"
    and "\<And>u v. m_thread (plugin_at u i) \<in> {NoThread, Finished} \<Longrightarrow> i < count_plugins u \<Longrightarrow>
      after_join env i u = Inr v \<Longrightarrow> task_step env (j, u) (t', v)"
  shows "\<exists>u. (work env)\<^sup>*\<^sup>* (t, s) (t', u) \<and> only_plugin i s u \<and> m_thread (plugin_at u i) = NoThread"
proof -
  from join_completes [OF assms(1-3)] obtain u v where
    u: "(\<lambda>s t. worker_turn s t \<and> count_plugins t = count_plugins s)\<^sup>*\<^sup>* (put_plugin i (stop_running (plugin_at s i)) s) u"
      "m_thread (plugin_at u i) = Finished" "after_join env i u = Inr v"
    and o: "only_plugin i s u" "only_plugin i s v" "m_thread (plugin_at v i) = NoThread" by blast
  have "work env (t, s) (j, put_plugin i (stop_running (plugin_at s i)) s)"
    using assms(4) by (rule work_task) simp
  moreover have "(work env)\<^sup>*\<^sup>* (j, put_plugin i (stop_running (plugin_at s i)) s) (j, u)" using u(1) by (rule work_turns)
  moreover have "work env (j, u) (t', v)"
    by (rule work_task [OF assms(5) [OF _ _ u(3)]]) (use u(2) assms(1) only_plugin_count [OF o(1)] only_plugin_count [OF o(2)] in simp_all)
  ultimately have "(work env)\<^sup>*\<^sup>* (t, s) (t', v)"
    by (meson converse_rtranclp_into_rtranclp rtranclp.rtrancl_into_rtrancl)
  with o show ?thesis by blast
qed

lemma stop_loop:
  "i \<le> count_plugins s \<Longrightarrow> \<forall>j < i. m_thread (plugin_at s j) = NoThread \<Longrightarrow>
   \<forall>j < count_plugins s. i \<le> j \<longrightarrow> responsive (plugin_at s j) \<and> quiet_shutdown (plugin_at s j) \<Longrightarrow>
   \<exists>t. (work env)\<^sup>*\<^sup>* (Stopping i, s) (Stopping (count_plugins s), t) \<and> same_io s t \<and>
     control (s_core t) = control (s_core s) \<and> (\<forall>j < count_plugins s. m_thread (plugin_at t j) = NoThread)"
proof (induction "count_plugins s - i" arbitrary: s i)
  case 0
  then show ?case by (intro exI [of _ s]) (simp add: same_io_def)
next
  case (Suc n)
  then have i: "i < count_plugins s" by simp
  with Suc.prems(3) have p: "responsive (plugin_at s i)" "quiet_shutdown (plugin_at s i)" by simp_all
  then have "task_step env (Stopping i, s) (Stop_Join i, put_plugin i (stop_running (plugin_at s i)) s)"
    using i by (intro ts_stop) (simp_all add: responsive_def)
  from work_join [OF i p this, of "Stopping (Suc i)"] obtain u where
    u: "(work env)\<^sup>*\<^sup>* (Stopping i, s) (Stopping (Suc i), u)" "only_plugin i s u" "m_thread (plugin_at u i) = NoThread"
    using ts_stop_joined by blast
  have n: "count_plugins u = count_plugins s" using u(2) by (rule only_plugin_count)
  have "\<forall>j < Suc i. m_thread (plugin_at u j) = NoThread"
    using Suc.prems(2) u(2,3) by (auto simp: only_plugin_def less_Suc_eq)
  moreover have "\<forall>j < count_plugins u. Suc i \<le> j \<longrightarrow> responsive (plugin_at u j) \<and> quiet_shutdown (plugin_at u j)"
    using Suc.prems(3) u(2) n by (auto simp: only_plugin_def)
  moreover have "n = count_plugins u - Suc i" "Suc i \<le> count_plugins u" using Suc.hyps(2) i n by simp_all
  ultimately obtain t where
    t: "(work env)\<^sup>*\<^sup>* (Stopping (Suc i), u) (Stopping (count_plugins u), t)" "same_io u t"
      "control (s_core t) = control (s_core u)" "\<forall>j < count_plugins u. m_thread (plugin_at t j) = NoThread"
    using Suc.hyps(1) by blast
  have "(work env)\<^sup>*\<^sup>* (Stopping i, s) (Stopping (count_plugins s), t)"
    using rtranclp_trans [OF u(1) t(1)] n by simp
  with t u(2) n show ?case by (intro exI [of _ t]) (simp add: only_plugin_def same_io_def)
qed

definition stop_possible :: "('n, 'x) env \<Rightarrow> ('n, 'x) core \<Rightarrow> bool" where
  "stop_possible env c \<longleftrightarrow> m_stop_promise c = Unset \<and>
     (\<forall>b. tcp_plugin_server c = Some b \<longrightarrow> acceptor_cancel env b = None) \<and>
     (\<forall>b. admin_port c = Some b \<longrightarrow> acceptor_cancel env b = None)"

lemma destroy_all: "\<forall>p \<in> set ps. m_thread p = NoThread \<Longrightarrow> fold_result (\<lambda>p _. destroy p) ps () = Inr ()"
  by (induction ps) (simp_all add: destroy_def)

lemma rest_of_stop_completes:
  assumes "\<forall>p \<in> set (m_plugins c). m_thread p = NoThread" and "stop_possible env c"
  shows "\<exists>d. rest_of_stop env c = Inr d \<and> m_plugins d = [] \<and> m_stop_promise d = Value (m_result c) \<and>
    socket_open d = socket_open c \<and> admin_port d = None"
  using assms destroy_all [of "m_plugins c"]
  by (cases "tcp_plugin_server c"; cases "admin_port c")
    (simp_all add: rest_of_stop_def stopTcpPluginServer_def stopAdminPort_def deinitializePlugins_def set_value_def
      raise_def stop_possible_def)

lemma stop_completes:
  assumes "all_responsive s" and "\<forall>i < count_plugins s. quiet_shutdown (plugin_at s i)"
    and "stop_possible env (s_core s)"
  shows "\<exists>u d. (work env)\<^sup>*\<^sup>* (Stop_Begin, s) (Stopping (count_plugins s), u) \<and> same_io s u \<and>
    rest_of_stop env (s_core u) = Inr d \<and> m_plugins d = [] \<and> m_stop_promise d = Value (m_result (s_core s)) \<and>
    \<not> socket_open d \<and> admin_port d = None"
proof -
  let ?s = "s\<lparr>s_core := disconnect (stopAsyncReceive (s_core s))\<rparr>"
  have p: "plugin_at ?s i = plugin_at s i" "count_plugins ?s = count_plugins s" for i
    by (simp_all add: plugin_at_def count_plugins_def disconnect_def stopAsyncReceive_def)
  have "work env (Stop_Begin, s) (Stopping 0, ?s)" using ts_stop_begin by (rule work_task) (rule p(2))
  moreover obtain u where u: "(work env)\<^sup>*\<^sup>* (Stopping 0, ?s) (Stopping (count_plugins s), u)" "same_io ?s u"
    "control (s_core u) = control (s_core ?s)" "\<forall>j < count_plugins s. m_thread (plugin_at u j) = NoThread"
    using stop_loop [of 0 ?s env] assms(1,2) p by (auto simp: all_responsive_def)
  moreover have io: "same_io s u"
    using u(2) p(2) by (simp add: same_io_def disconnect_def stopAsyncReceive_def)
  moreover have "\<forall>p \<in> set (m_plugins (s_core u)). m_thread p = NoThread"
    using u(4) io by (auto simp: same_io_def count_plugins_def plugin_at_def in_set_conv_nth)
  moreover have "stop_possible env (s_core u)" "m_result (s_core u) = m_result (s_core s)" "\<not> socket_open (s_core u)"
    using assms(3) u(3) by (simp_all add: stop_possible_def control_def disconnect_def stopAsyncReceive_def)
  ultimately show ?thesis
    using rest_of_stop_completes [of "s_core u" env]
    by (metis converse_rtranclp_into_rtranclp)
qed

text \<open>On the I/O thread, or on the main thread, while the other one is unoccupied.\<close>

lemma clash_unoccupied: "count_plugins s' = count_plugins s \<Longrightarrow> \<not> clash Unoccupied t s s'"
  by (auto simp: clash_def)

lemma work_on_admin:
  "(work env)\<^sup>*\<^sup>* (t, s) (t', s') \<Longrightarrow> \<not> k_undefined k \<Longrightarrow> k_main k = Unoccupied \<Longrightarrow> k_admin k = t \<Longrightarrow> k_sys k = s \<Longrightarrow>
   (control_step env)\<^sup>*\<^sup>* k (k\<lparr>k_admin := t', k_sys := s'\<rparr>)"
proof (induction rule: rtranclp_induct2)
  case refl
  then have "k\<lparr>k_admin := t, k_sys := s\<rparr> = k" by (cases k) simp
  then show ?case by simp
next
  case (step u v u' v')
  let ?k = "k\<lparr>k_admin := u, k_sys := v\<rparr>"
  from step.hyps(2) consider "task_step env (u, v) (u', v')" "count_plugins v' = count_plugins v"
    | "u' = u" "worker_turn v v'" by (auto simp: work_def)
  then have "control_step env ?k (k\<lparr>k_admin := u', k_sys := v'\<rparr>)"
  proof cases
    case 1
    have "(k\<lparr>k_admin := u', k_sys := v', k_undefined := False\<rparr>) = k\<lparr>k_admin := u', k_sys := v'\<rparr>"
      using step.prems(1) by (cases k) simp
    with 1 ks_admin [of ?k env u' v'] step.prems clash_unoccupied [of v' v u'] show ?thesis by simp
  next
    case 2
    with ks_worker [of ?k v' env] step.prems show ?thesis by simp
  qed
  with step show ?case by (meson rtranclp.rtrancl_into_rtrancl)
qed

lemma work_on_main:
  "(work env)\<^sup>*\<^sup>* (t, s) (t', s') \<Longrightarrow> \<not> k_undefined k \<Longrightarrow> k_admin k = Unoccupied \<Longrightarrow> k_main k = t \<Longrightarrow> k_sys k = s \<Longrightarrow>
   (control_step env)\<^sup>*\<^sup>* k (k\<lparr>k_main := t', k_sys := s'\<rparr>)"
proof (induction rule: rtranclp_induct2)
  case refl
  then have "k\<lparr>k_main := t, k_sys := s\<rparr> = k" by (cases k) simp
  then show ?case by simp
next
  case (step u v u' v')
  let ?k = "k\<lparr>k_main := u, k_sys := v\<rparr>"
  from step.hyps(2) consider "task_step env (u, v) (u', v')" "count_plugins v' = count_plugins v"
    | "u' = u" "worker_turn v v'" by (auto simp: work_def)
  then have "control_step env ?k (k\<lparr>k_main := u', k_sys := v'\<rparr>)"
  proof cases
    case 1
    have "(k\<lparr>k_main := u', k_sys := v', k_undefined := False\<rparr>) = k\<lparr>k_main := u', k_sys := v'\<rparr>"
      using step.prems(1) by (cases k) simp
    with 1 ks_main [of ?k env u' v'] step.prems clash_unoccupied [of v' v u'] show ?thesis by simp
  next
    case 2
    with ks_worker [of ?k v' env] step.prems show ?thesis by simp
  qed
  with step show ?case by (meson rtranclp.rtrancl_into_rtrancl)
qed


section \<open>A thread that can no longer be joined\<close>

text \<open>\<open>run()\<close> has yet to set \<open>m_running\<close>, or has set it after the stop cleared it.\<close>

definition unjoinable :: "('n, 'x) plugin \<Rightarrow> bool" where
  "unjoinable p \<longleftrightarrow> quiet_class (m_class p) \<and>
     (case m_thread p of Starting \<Rightarrow> True | NoThread \<Rightarrow> False | Finished \<Rightarrow> False | _ \<Rightarrow> m_running p)"

lemma unjoinable_thread: "unjoinable p \<Longrightarrow> m_thread p \<notin> {NoThread, Finished}"
  by (auto simp: unjoinable_def)

text \<open>With a caller in the join, this is the state \<open>stop_lost\<close> of \<open>Plugin_Base\<close>.\<close>

lemma unjoinable_thread_step:
  assumes "thread_step p q ms es" and "unjoinable p"
  shows "unjoinable q"
proof -
  from assms(1) obtain t where t: "plugin_step (started p) t" "plug t = q" "delivered t = []" "stopper t = NoStop"
    by (auto simp: thread_step_def)
  from t(1) have "unjoinable (plug t)"
  proof cases
    case (ps_run u r fs f)
    then have "f = None" using assms(2) by (auto simp: started_def unjoinable_def dest: onInit_fault)
    with ps_run run_handler_frame [OF ps_run(3)] assms(2) show ?thesis
      by (simp add: started_def unjoinable_def after_handler_def)
  next
    case (ps_handle msg u r fs f)
    then have "f = None" using assms(2) by (auto simp: started_def unjoinable_def dest: process_message_fault)
    with ps_handle run_handler_frame [OF ps_handle(3)] assms(2) show ?thesis
      by (simp add: started_def unjoinable_def after_handler_def)
  next
    case (ps_take msg r)
    with getCommand_frame [OF ps_take(3)] getCommand_class [OF ps_take(3)] assms(2) show ?thesis
      by (simp add: started_def unjoinable_def)
  qed (use t assms(2) in \<open>auto simp: started_def unjoinable_def dest: spawn_frame\<close>)
  with t(2) show ?thesis by simp
qed

text \<open>Steps before any signal arrives.\<close>

definition unsignalled :: "('n, 'x) env \<Rightarrow> ('n, 'x) controlled \<Rightarrow> ('n, 'x) controlled \<Rightarrow> bool" where
  "unsignalled env k k' \<longleftrightarrow> control_step env k k' \<and> k_main k' = Unoccupied"

definition hung :: "nat \<Rightarrow> string list \<Rightarrow> string list \<Rightarrow> ('n, 'x) controlled \<Rightarrow> bool" where
  "hung i ids bs k \<longleftrightarrow> k_admin k = Restart_Join i ids \<and> s_chunks (k_sys k) = bs \<and> k_main k = Unoccupied \<and> i < count_plugins (k_sys k) \<and>
     (\<forall>j < count_plugins (k_sys k). self_contained (plugin_at (k_sys k) j)) \<and> unjoinable (plugin_at (k_sys k) i)"

lemma hung_step:
  assumes "unsignalled env k k'" and "hung i ids bs k"
  shows "hung i ids bs k'"
proof -
  have no: "\<not> task_step env (k_admin k, k_sys k) u" "\<not> task_step env (k_main k, k_sys k) u" for u
    using assms(2) unjoinable_thread [of "plugin_at (k_sys k) i"]
    by (auto simp: hung_def elim!: task_stepE)
  from assms(1) have "control_step env k k'" "k_main k' = Unoccupied" by (simp_all add: unsignalled_def)
  then show ?thesis
  proof cases
    case (ks_worker s)
    then obtain j where j: "thread_turn j (k_sys k) s" by (auto simp: worker_turn_def)
    then have n: "j < count_plugins (k_sys k)" by (cases rule: thread_turn.cases)
    with assms(2) have "self_contained (plugin_at (k_sys k) j)" by (simp add: hung_def)
    with j obtain q ms es where q: "thread_step (plugin_at (k_sys k) j) q ms es" and
      s: "s = (k_sys k)\<lparr>s_core := (s_core (k_sys k))\<lparr>m_plugins := (m_plugins (s_core (k_sys k)))[j := q],
        outgoing := outgoing (s_core (k_sys k)) @ map line_of es\<rparr>,
        s_taken := (s_taken (k_sys k))(j := s_taken (k_sys k) j @ ms)\<rparr>"
      by (rule thread_turn_effect)
    have at: "plugin_at s l = (if l = j then q else plugin_at (k_sys k) l)" for l
      using n by (simp add: s plugin_at_def count_plugins_def)
    have c: "count_plugins s = count_plugins (k_sys k)" "s_chunks s = s_chunks (k_sys k)"
      by (simp_all add: s count_plugins_def)
    have "self_contained q"
      using thread_step_frame(1) [OF q] assms(2) n by (auto simp: hung_def intro: self_contained_same_kind)
    moreover have "unjoinable q" if "i = j"
      using unjoinable_thread_step [OF q] that assms(2) by (simp add: hung_def)
    ultimately show ?thesis
      using assms(2) ks_worker(1) at c by (auto simp: hung_def)
  qed (use assms no in \<open>auto simp: hung_def\<close>)
qed

lemma hung_steps: "(unsignalled env)\<^sup>*\<^sup>* k k' \<Longrightarrow> hung i ids bs k \<Longrightarrow> hung i ids bs k'"
  by (induction rule: rtranclp_induct) (auto intro: hung_step)

text \<open>Restarting one plugin: its thread is started again, and the next id is looked at.\<close>

lemma restart_completes:
  assumes "findPlugin pid (s_core s) = i" and "i < count_plugins s"
    and "responsive (plugin_at s i)" and "quiet_shutdown (plugin_at s i)"
  shows "\<exists>u. (work env)\<^sup>*\<^sup>* (Restarting (pid # ids), s) (Restarting ids, u) \<and> only_plugin i s u \<and>
    m_thread (plugin_at u i) = Starting \<and> m_running (plugin_at u i)"
proof -
  have "task_step env (Restarting (pid # ids), s) (Restart_Join i ids, put_plugin i (stop_running (plugin_at s i)) s)"
    using assms(1-3) by (intro ts_restart) (simp_all add: responsive_def)
  from work_join [OF assms(2-4) this, of "Restart_Spawn i ids"] obtain v where
    v: "(work env)\<^sup>*\<^sup>* (Restarting (pid # ids), s) (Restart_Spawn i ids, v)" "only_plugin i s v"
      "m_thread (plugin_at v i) = NoThread"
    using ts_restart_joined by blast
  let ?q = "(plugin_at v i)\<lparr>m_running := True, m_thread := Starting\<rparr>"
  have i: "i < count_plugins v" using assms(2) only_plugin_count [OF v(2)] by simp
  have q: "spawn (plugin_at v i) = Inr ?q" using v(3) by (simp add: spawn_def)
  from ts_respawn [OF i q] have "work env (Restart_Spawn i ids, v) (Restarting ids, put_plugin i ?q v)"
    by (rule work_task) simp
  moreover have "only_plugin i v (put_plugin i ?q v)" using i same_kind_spawn [OF q] by (rule only_plugin_put)
  ultimately show ?thesis
    using v i by (intro exI [of _ "put_plugin i ?q v"])
      (auto intro: rtranclp.rtrancl_into_rtrancl only_plugin_trans)
qed

lemma findPlugin_only_plugin:
  assumes "only_plugin i s t"
  shows "findPlugin pid (s_core t) = findPlugin pid (s_core s)"
proof -
  have "map m_id (m_plugins (s_core t)) = map m_id (m_plugins (s_core s))"
  proof (rule nth_equalityI)
    show "length (map m_id (m_plugins (s_core t))) = length (map m_id (m_plugins (s_core s)))"
      using only_plugin_count [OF assms] by (simp add: count_plugins_def)
    show "map m_id (m_plugins (s_core t)) ! l = map m_id (m_plugins (s_core s)) ! l"
      if "l < length (map m_id (m_plugins (s_core t)))" for l
      using that assms only_plugin_count [OF assms]
      by (cases "l = i") (auto simp: only_plugin_def count_plugins_def plugin_at_def same_kind_def)
  qed
  moreover have "findPlugin pid c = length (takeWhile (\<lambda>x. x \<noteq> pid) (map m_id (m_plugins c)))" for c :: "('a, 'b) core"
    by (simp add: findPlugin_def takeWhile_map comp_def)
  ultimately show ?thesis by simp
qed


text \<open>While the main thread is unoccupied, no step makes the behaviour undefined.\<close>

lemma no_clash_step:
  assumes "control_step env u v" and "main_ok u" and "k_main u = Unoccupied \<longrightarrow> \<not> k_undefined u" and "k_main v = Unoccupied"
  shows "\<not> k_undefined v"
  using assms(1)
proof cases
  case (ks_admin t s)
  have "s_io (k_sys u) = IO_Idle"
    using ks_admin(3) assms(2) Unoccupied_no_step by (metis main_ok_def)
  with ks_admin assms(4) show ?thesis by (auto simp: clash_def in_loop_def)
next
  case (ks_main t s)
  have "k_main u \<noteq> Unoccupied" using ks_main(3) Unoccupied_no_step by metis
  with assms(2) have "stop_task t" using stop_task_step [OF ks_main(3)] by (simp add: main_ok_def)
  with ks_main assms(4) show ?thesis by simp
qed (use assms in simp_all)

section \<open>Properties\<close>

text \<open>
  C2: restarts, and stops up to their end, lose no message and duplicate none. Whatever commands,
  signals and errors of the connection arrive and however all threads interleave, until the plugins are destroyed the running
  bot refines the log with cursors, and each plugin has handled or has in its mailbox exactly the
  accepted ones of the messages that were offered to it, in order.
\<close>

theorem commands_lose_no_message:
  assumes "fresh_core c" and "m_messages (m_parser c) = []"
    and "(control_step env)\<^sup>*\<^sup>* (supervised Unoccupied (session c)) k" and "not_stopped k"
  shows "(bus_step (accepted_by c))\<^sup>*\<^sup>* empty_bus (bus_of (k_sys k)) \<and>
    (\<forall>i < length (m_plugins c). s_taken (k_sys k) i @ m_incoming (plugin_at (k_sys k) i) =
       filter (accepted_by c i) (offered (k_sys k) i))"
proof -
  have inv: "system_inv c (k_sys u)" if "(control_step env)\<^sup>*\<^sup>* (supervised Unoccupied (session c)) u" "not_stopped u" for u
    using kept_reach [OF that(1) assms(1) main_ok_supervised kept_session [OF assms(1)] that(2)] by (simp add: kept_def)
  have "(bus_step (accepted_by c))\<^sup>*\<^sup>* empty_bus (bus_of (k_sys k))"
    using assms(3,4)
  proof (induction rule: rtranclp_induct)
    case base
    show ?case using assms(2) by (simp add: supervised_def session_def bus_of_def empty_bus_def)
  next
    case (step u v)
    have u: "not_stopped u" using step.hyps(2) step.prems by (rule not_stopped_step)
    have i: "system_inv c (k_sys u)" using step.hyps(1) u by (rule inv)
    note sc = system_inv_all_self_contained [OF assms(1) i]
    have m: "main_ok u" using step.hyps(1) main_ok_supervised by (rule main_ok_steps)
    have same: "bus_of s = bus_of (k_sys u)" if "same_plugins (k_sys u) s" for s
      using that by (simp add: bus_of_def same_plugins_def same_io_def)
    from step.hyps(2) have "(bus_step (accepted_by c))\<^sup>*\<^sup>* (bus_of (k_sys u)) (bus_of (k_sys v))"
    proof cases
      case (ks_io s)
      with io_step_refines [OF ks_io(4) assms(1) i] show ?thesis by simp
    next
      case (ks_worker s)
      with thread_turn_refines [OF _ assms(1) i] show ?thesis by (auto simp: worker_turn_def)
    next
      case (ks_admin t s)
      have "same_plugins (k_sys u) s"
        by (rule task_step_plugins [OF ks_admin(3)]) (use step.prems ks_admin sc m in \<open>auto simp: main_ok_def not_stopped_def\<close>)
      from same [OF this] have "bus_of (k_sys v) = bus_of (k_sys u)" using ks_admin(1) by simp
      then show ?thesis by simp
    next
      case (ks_main t s)
      have "same_plugins (k_sys u) s"
        by (rule task_step_plugins [OF ks_main(3)])
          (use step.prems ks_main sc m stop_not_loading in \<open>auto simp: main_ok_def not_stopped_def\<close>)
      from same [OF this] have "bus_of (k_sys v) = bus_of (k_sys u)" using ks_main(1) by simp
      then show ?thesis by simp
    qed (simp_all add: bus_of_def)
    with step.IH [OF u] show ?case by (rule rtranclp_trans)
  qed
  moreover have "\<forall>i < length (m_plugins c). s_taken (k_sys k) i @ m_incoming (plugin_at (k_sys k) i) =
      filter (accepted_by c i) (offered (k_sys k) i)"
    using inv [OF assms(3,4)] by (simp add: system_inv_def plugin_inv_def)
  ultimately show ?thesis by blast
qed

text \<open>
  Remark: as long as no signal arrives the vector of plugins has one user at a time: commands of the
  admin port run between two handlers of the I/O thread, so no reachable state is undefined.
\<close>

theorem no_clash_without_signals:
  assumes "(control_step env)\<^sup>*\<^sup>* (supervised Unoccupied (session c)) k" and "k_main k = Unoccupied"
  shows "\<not> k_undefined k"
proof -
  have "main_ok k \<and> (k_main k = Unoccupied \<longrightarrow> \<not> k_undefined k)"
    using assms(1)
  proof (induction rule: rtranclp_induct)
    case base
    show ?case using main_ok_supervised by (simp add: supervised_def)
  next
    case (step u v)
    with no_clash_step main_ok_step show ?case by blast
  qed
  with assms(2) show ?thesis by blast
qed

text \<open>
  C5: a shutdown command can be carried out when the I/O thread is between two handlers, no other
  command or signal is being carried out, every plugin responds and has an \<open>onShutdown\<close> that throws nothing, the result of
  the session has not been delivered yet, and the acceptors of the admin port and of the plugin server can be cancelled: the
  threads of the plugins can finish what they are doing, are joined one after the other and shut down, all plugins are
  destroyed and the main thread gets the result. A core that was restarted, whose acceptor is closed, and a core with a
  \<open>TcpPlugin\<close>, which does not respond in this sense, are outside these conditions.
\<close>

theorem shutdown_command_completes:
  assumes "\<not> k_undefined k" and "k_main k = Unoccupied" and "k_admin k = Unoccupied" and "s_io (k_sys k) = IO_Idle"
    and "all_responsive (k_sys k)" and "\<forall>i < count_plugins (k_sys k). quiet_shutdown (plugin_at (k_sys k) i)"
    and "stop_possible env (s_core (k_sys k))"
  shows "\<exists>k'. (control_step env)\<^sup>*\<^sup>* k k' \<and> k_admin k' = Stopped \<and> \<not> k_undefined k' \<and>
    m_plugins (s_core (k_sys k')) = [] \<and> \<not> socket_open (s_core (k_sys k')) \<and>
    waitForStop (s_core (k_sys k')) = Inr (m_result (s_core (k_sys k)))"
proof -
  let ?b = "k\<lparr>k_admin := Stop_Begin\<rparr>"
  have b: "control_step env k ?b" using assms(1,3,4) by (rule ks_shutdown)
  from stop_completes [OF assms(5-7)] obtain u d where
    u: "(work env)\<^sup>*\<^sup>* (Stop_Begin, k_sys k) (Stopping (count_plugins (k_sys k)), u)" "same_io (k_sys k) u"
      "rest_of_stop env (s_core u) = Inr d" and
    d: "m_plugins d = []" "m_stop_promise d = Value (m_result (s_core (k_sys k)))" "\<not> socket_open d" by blast
  let ?u = "?b\<lparr>k_admin := Stopping (count_plugins (k_sys k)), k_sys := u\<rparr>"
  have s: "(control_step env)\<^sup>*\<^sup>* ?b ?u" using u(1) by (rule work_on_admin) (use assms in simp_all)
  have "count_plugins (k_sys k) = count_plugins u" using u(2) by (simp add: same_io_def)
  from ts_stop_rest [OF this u(3)] have "task_step env (k_admin ?u, k_sys ?u) (Stopped, u\<lparr>s_core := d\<rparr>)" by simp
  from ks_admin [OF _ this] assms(1)
  have t: "control_step env ?u (?u\<lparr>k_admin := Stopped, k_sys := u\<lparr>s_core := d\<rparr>,
      k_undefined := clash (k_main ?u) Stopped (k_sys ?u) (u\<lparr>s_core := d\<rparr>)\<rparr>)" by simp
  have "s_io u = IO_Idle" using u(2) assms(4) by (simp add: same_io_def)
  with assms(2) have "\<not> clash (k_main ?u) Stopped (k_sys ?u) (u\<lparr>s_core := d\<rparr>)" by (simp add: clash_def in_loop_def)
  then show ?thesis
    using converse_rtranclp_into_rtranclp [OF b rtranclp.rtrancl_into_rtrancl [OF s t]] d
    by (intro exI conjI) (assumption, simp_all add: waitForStop_def)
qed

text \<open>
  C9: the same stop, started by a signal while the I/O thread is in its loop over the
  plugins, can run to the destruction of all plugins without the I/O thread having made a step: the
  loop goes on over a vector that is empty.
\<close>

theorem signal_during_dispatch_undefined:
  assumes "\<not> k_undefined k" and "k_main k = Unoccupied" and "k_admin k = Unoccupied"
    and "s_io (k_sys k) = IO_Offer m i" and "0 < count_plugins (k_sys k)"
    and "all_responsive (k_sys k)" and "\<forall>i < count_plugins (k_sys k). quiet_shutdown (plugin_at (k_sys k) i)"
    and "stop_possible env (s_core (k_sys k))"
  shows "\<exists>k'. (control_step env)\<^sup>*\<^sup>* k k' \<and> k_undefined k' \<and> s_io (k_sys k') = IO_Offer m i \<and>
    m_plugins (s_core (k_sys k')) = []"
proof -
  let ?b = "k\<lparr>k_main := Stop_Begin\<rparr>"
  have b: "control_step env k ?b" using assms(1,2) by (rule ks_signal)
  from stop_completes [OF assms(6-8)] obtain u d where
    u: "(work env)\<^sup>*\<^sup>* (Stop_Begin, k_sys k) (Stopping (count_plugins (k_sys k)), u)" "same_io (k_sys k) u"
      "rest_of_stop env (s_core u) = Inr d" and d: "m_plugins d = []" by blast
  let ?u = "?b\<lparr>k_main := Stopping (count_plugins (k_sys k)), k_sys := u\<rparr>"
  have s: "(control_step env)\<^sup>*\<^sup>* ?b ?u" using u(1) by (rule work_on_main) (use assms in simp_all)
  have n: "count_plugins (k_sys k) = count_plugins u" using u(2) by (simp add: same_io_def)
  from ts_stop_rest [OF n u(3)] have "task_step env (k_main ?u, k_sys ?u) (Stopped, u\<lparr>s_core := d\<rparr>)" by simp
  from ks_main [OF _ this] assms(1)
  have t: "control_step env ?u (?u\<lparr>k_main := Stopped, k_sys := u\<lparr>s_core := d\<rparr>,
      k_undefined := clash (k_admin ?u) Stopped (k_sys ?u) (u\<lparr>s_core := d\<rparr>)\<rparr>)" by simp
  have io: "s_io u = IO_Offer m i" using u(2) assms(4) by (simp add: same_io_def)
  moreover have "count_plugins (u\<lparr>s_core := d\<rparr>) = 0" using d by (simp add: count_plugins_def)
  ultimately have "clash (k_admin ?u) Stopped (k_sys ?u) (u\<lparr>s_core := d\<rparr>)"
    using assms(5) n by (simp add: clash_def in_loop_def)
  then show ?thesis
    using converse_rtranclp_into_rtranclp [OF b rtranclp.rtrancl_into_rtrancl [OF s t]] d io
    by (intro exI conjI) (assumption, simp_all)
qed

text \<open>
  C10: the core starts to receive before it loads its plugins. While a plugin of the
  configuration whose library can be loaded is still to be loaded, a first message of the server makes the I/O thread loop
  over the vector of plugins, and the plugin is added to it during the loop.
\<close>

theorem startup_races_with_server:
  assumes "receiving c" and "fits_buffer bytes" and "m_messages (parse (m_parser c) bytes) \<noteq> []"
    and "as_string (yaml_ops env) key = Some pid" and "as_string (yaml_ops env) (at_key (yaml_ops env) v ''path'') = Some path"
    and "path \<noteq> ''''" and "extension env path = ''.so''" and "dlopen env path = Some lib"
    and "getPlugin env lib \<lparr>pc_id = pid, pc_config = v\<rparr> = Some p"
  shows "\<exists>k. (control_step env)\<^sup>*\<^sup>* (supervised (Loading ((key, v) # es)) (session c)) k \<and> k_undefined k"
proof -
  let ?k1 = "supervised (Loading ((key, v) # es)) (session c)"
  let ?s2 = "(session c)\<lparr>s_core := c\<lparr>receiving := False, m_parser := parse (m_parser c) bytes\<rparr>,
      s_io := IO_Messages, s_chunks := [bytes]\<rparr>"
  have "io_step (k_sys ?k1) ?s2" using io_receive [of "session c" bytes] assms(1,2) by (simp add: session_def supervised_def)
  from ks_io [OF _ _ this] have s2: "control_step env ?k1 (?k1\<lparr>k_sys := ?s2\<rparr>)" by (simp add: supervised_def)
  from assms(3) obtain m ms where m: "m_messages (parse (m_parser c) bytes) = m # ms" by (cases "m_messages (parse (m_parser c) bytes)") auto
  let ?q = "(parse (m_parser c) bytes)\<lparr>m_messages := ms\<rparr>"
  let ?s3 = "?s2\<lparr>s_core := (s_core ?s2)\<lparr>m_parser := ?q\<rparr>, s_io := IO_Offer m 0, s_dispatched := [m]\<rparr>"
  have "io_step ?s2 ?s3"
    using io_next [of ?s2 m ?q] m by (simp add: getMessage_def session_def)
  then have "io_step (k_sys (?k1\<lparr>k_sys := ?s2\<rparr>)) ?s3" by simp
  from ks_io [OF _ _ this] have s3: "control_step env (?k1\<lparr>k_sys := ?s2\<rparr>) (?k1\<lparr>k_sys := ?s3\<rparr>)"
    by (simp add: supervised_def)
  obtain d where d: "load_entry env (key, v) (s_core ?s3) = Inr d" "length (m_plugins d) = Suc (length (m_plugins c))"
    using load_entry_so [OF assms(4-9), of "s_core ?s3"] by simp
  have "task_step env (k_main (?k1\<lparr>k_sys := ?s3\<rparr>), k_sys (?k1\<lparr>k_sys := ?s3\<rparr>)) (Loading es, ?s3\<lparr>s_core := d\<rparr>)"
    using ts_load [OF d(1), of es] by (simp add: supervised_def)
  from ks_main [OF _ this] d(2) have s4: "control_step env (?k1\<lparr>k_sys := ?s3\<rparr>)
      (?k1\<lparr>k_main := Loading es, k_sys := ?s3\<lparr>s_core := d\<rparr>, k_undefined := True\<rparr>)"
    by (simp add: supervised_def clash_def in_loop_def count_plugins_def)
  from s2 s3 s4 have "(control_step env)\<^sup>*\<^sup>* ?k1
      (?k1\<lparr>k_main := Loading es, k_sys := ?s3\<lparr>s_core := d\<rparr>, k_undefined := True\<rparr>)"
    by (meson rtranclp.rtrancl_refl rtranclp.rtrancl_into_rtrancl)
  then show ?thesis by (intro exI conjI) (assumption, simp)
qed

text \<open>
  C11: the command \<open>restartPlugin x x\<close> can hang the bot. The second restart finds the thread that the
  first one has just created, clears \<open>m_running\<close> and joins; the thread sets \<open>m_running\<close> when it enters
  \<open>run()\<close> and never ends. The I/O thread waits for it for ever: nothing is read from the server again.
\<close>

theorem restart_twice_can_hang:
  assumes "\<not> k_undefined k" and "k_main k = Unoccupied" and "k_admin k = Restarting [pid, pid]"
    and "findPlugin pid (s_core (k_sys k)) = i" and "i < count_plugins (k_sys k)"
    and "\<forall>j < count_plugins (k_sys k). self_contained (plugin_at (k_sys k) j)"
    and "responsive (plugin_at (k_sys k) i)" and "quiet_shutdown (plugin_at (k_sys k) i)"
  shows "\<exists>k'. (control_step env)\<^sup>*\<^sup>* k k' \<and>
    (\<forall>k''. (unsignalled env)\<^sup>*\<^sup>* k' k'' \<longrightarrow> k_admin k'' = Restart_Join i [] \<and> s_chunks (k_sys k'') = s_chunks (k_sys k))"
proof -
  from restart_completes [OF assms(4,5,7,8), of env "[pid]"] obtain u where
    u: "(work env)\<^sup>*\<^sup>* (Restarting [pid, pid], k_sys k) (Restarting [pid], u)" "only_plugin i (k_sys k) u"
      "m_thread (plugin_at u i) = Starting" "m_running (plugin_at u i)" by blast
  have i: "i < count_plugins u" using assms(5) only_plugin_count [OF u(2)] by simp
  let ?v = "put_plugin i (stop_running (plugin_at u i)) u"
  have "task_step env (Restarting [pid], u) (Restart_Join i [], ?v)"
    using findPlugin_only_plugin [OF u(2)] assms(4) i u(4) by (intro ts_restart) simp_all
  then have "work env (Restarting [pid], u) (Restart_Join i [], ?v)" by (rule work_task) simp
  with u(1) have "(work env)\<^sup>*\<^sup>* (Restarting [pid, pid], k_sys k) (Restart_Join i [], ?v)"
    by (rule rtranclp.rtrancl_into_rtrancl)
  from work_on_admin [OF this assms(1,2,3)]
  have steps: "(control_step env)\<^sup>*\<^sup>* k (k\<lparr>k_admin := Restart_Join i [], k_sys := ?v\<rparr>)" by simp
  have k: "same_kind (plugin_at (k_sys k) i) (plugin_at u i)" "\<And>j. j \<noteq> i \<Longrightarrow> plugin_at u j = plugin_at (k_sys k) j"
    using u(2) by (simp_all add: only_plugin_def)
  have n: "count_plugins u = count_plugins (k_sys k)" using u(2) by (rule only_plugin_count)
  have "unjoinable (stop_running (plugin_at u i))"
    using k(1) assms(7) u(3) by (simp add: unjoinable_def responsive_def same_kind_def)
  moreover have "self_contained (plugin_at ?v j)" if "j < count_plugins u" for j
  proof (cases "j = i")
    case True
    have "self_contained (plugin_at u i)" using k(1) assms(5,6) by (auto intro: self_contained_same_kind)
    with True i show ?thesis by (simp add: self_contained_def stop_running_def)
  next
    case False
    with that i n k(2) assms(6) show ?thesis by simp
  qed
  ultimately have h: "hung i [] (s_chunks (k_sys k)) (k\<lparr>k_admin := Restart_Join i [], k_sys := ?v\<rparr>)"
    using assms(2) i u(2) by (simp add: hung_def only_plugin_def same_io_def)
  have "s_chunks (k_sys k'') = s_chunks (k_sys k)" "k_admin k'' = Restart_Join i []"
    if "(unsignalled env)\<^sup>*\<^sup>* (k\<lparr>k_admin := Restart_Join i [], k_sys := ?v\<rparr>) k''" for k''
    using hung_steps [OF that h] by (simp_all add: hung_def)
  with steps show ?thesis by blast
qed


section \<open>Concrete runs\<close>

definition silent_run :: "(yaml_node, nat) controlled" where
  "silent_run = supervised Unoccupied (session (silent_core [Looping]))"

lemma silent_session [simp]:
  "count_plugins (session (silent_core ths)) = length ths"
  "i < length ths \<Longrightarrow> plugin_at (session (silent_core ths)) i = silent_plugin (ths ! i)"
  "s_io (session c) = IO_Idle" "s_core (session c) = c" "s_chunks (session c) = []"
  by (simp_all add: session_def count_plugins_def plugin_at_def)

lemma silent_run_simps [simp]:
  "k_sys silent_run = session (silent_core [Looping])" "k_admin silent_run = Unoccupied"
  "k_main silent_run = Unoccupied" "\<not> k_undefined silent_run"
  by (simp_all add: silent_run_def supervised_def)

lemma silent_quiet_shutdown: "quiet_shutdown (silent_plugin th)"
  by (simp add: quiet_shutdown_def) (simp add: base_class_def skip_def)

lemma silent_all_responsive: "all_responsive (session (silent_core [Looping]))"
  by (simp add: all_responsive_def silent_responsive)

lemma silent_stop_possible: "stop_possible env (silent_core ths)"
  by (simp add: stop_possible_def silent_core_def Core_def)

lemma ping_received: "(control_step env)\<^sup>*\<^sup>* silent_run (silent_run\<lparr>k_sys := after_ping [Looping]\<rparr>)"
proof -
  have "io_step (k_sys silent_run) (after_ping [Looping])"
    using io_receive [of "session (silent_core [Looping])" "toString example_ping False"] ping_fits
    by (simp add: after_ping_def session_def)
  from ks_io [OF _ _ this] show ?thesis by (intro r_into_rtranclp) simp
qed

theorem commands_lose_no_message_witness:
  "(bus_step (accepted_by (silent_core [Looping])))\<^sup>*\<^sup>* empty_bus (bus_of (after_ping [Looping])) \<and>
   s_taken (after_ping [Looping]) 0 = []"
proof -
  have "(control_step example_env)\<^sup>*\<^sup>* (supervised Unoccupied (session (silent_core [Looping])))
      (silent_run\<lparr>k_sys := after_ping [Looping]\<rparr>)"
    using ping_received by (simp add: silent_run_def)
  from commands_lose_no_message [OF silent_fresh _ this] show ?thesis
    by (simp add: not_stopped_def) (simp add: after_ping_def session_def)
qed

theorem no_clash_without_signals_witness:
  "\<not> k_undefined (silent_run\<lparr>k_sys := after_ping [Looping]\<rparr>)"
proof -
  have "(control_step example_env)\<^sup>*\<^sup>* (supervised Unoccupied (session (silent_core [Looping])))
      (silent_run\<lparr>k_sys := after_ping [Looping]\<rparr>)"
    using ping_received by (simp add: silent_run_def)
  from no_clash_without_signals [OF this] show ?thesis by simp
qed

theorem shutdown_command_completes_witness:
  "\<exists>k'. (control_step example_env)\<^sup>*\<^sup>* silent_run k' \<and> m_plugins (s_core (k_sys k')) = [] \<and>
     waitForStop (s_core (k_sys k')) = Inr RESULT_OK"
proof -
  have "m_result (silent_core [Looping]) = RESULT_OK" by (simp add: silent_core_def Core_def)
  then show ?thesis
    using shutdown_command_completes [of silent_run example_env] silent_all_responsive silent_quiet_shutdown
      silent_stop_possible [of example_env "[Looping]"] by auto
qed

lemma offering_ping_simps [simp]:
  "s_io (offering_ping ths) = IO_Offer example_ping 0" "count_plugins (offering_ping ths) = length ths"
  "i < length ths \<Longrightarrow> plugin_at (offering_ping ths) i = silent_plugin (ths ! i)"
  by (simp_all add: offering_ping_def after_ping_def count_plugins_def plugin_at_def)

theorem signal_during_dispatch_undefined_witness:
  "\<exists>k'. (control_step example_env)\<^sup>*\<^sup>* (silent_run\<lparr>k_sys := offering_ping [Looping]\<rparr>) k' \<and> k_undefined k' \<and>
     m_plugins (s_core (k_sys k')) = []"
proof -
  have "all_responsive (offering_ping [Looping])" by (simp add: all_responsive_def silent_responsive)
  moreover have "stop_possible example_env (s_core (offering_ping [Looping]))"
    by (simp add: stop_possible_def offering_ping_def after_ping_def silent_core_def Core_def)
  ultimately show ?thesis
    using signal_during_dispatch_undefined [of "silent_run\<lparr>k_sys := offering_ping [Looping]\<rparr>" example_ping 0 example_env]
      silent_quiet_shutdown by auto
qed

theorem startup_races_with_server_witness:
  "\<exists>k. (control_step example_env)\<^sup>*\<^sup>* (supervised (Loading
     (entries (yaml_ops example_env) (at_key (yaml_ops example_env) example_core_config ''plugins''))) (session (silent_core []))) k \<and>
     k_undefined k"
proof -
  have 1: "entries (yaml_ops example_env) (at_key (yaml_ops example_env) example_core_config ''plugins'') =
      [(Scalar ''base'', Mapping [(''path'', Scalar ''base.so'')]), (Scalar ''gone'', Mapping [(''path'', Scalar ''gone.so'')])]"
    "as_string (yaml_ops example_env) (Scalar ''base'') = Some ''base''"
    "as_string (yaml_ops example_env) (at_key (yaml_ops example_env) (Mapping [(''path'', Scalar ''base.so'')]) ''path'') = Some ''base.so''"
    by code_simp+
  have 2: "extension example_env ''base.so'' = ''.so''" "dlopen example_env ''base.so'' = Some 1"
    "getPlugin example_env 1 cfg = Some (Plugin (base_class ''Base'') 0 cfg)" for cfg
    by (simp_all add: example_env_def)
  show ?thesis
    unfolding 1(1) by (rule startup_races_with_server [OF _ ping_fits _ 1(2,3) _ 2]) (simp_all add: ping_parsed)
qed

theorem restart_twice_can_hang_witness:
  "\<exists>k'. (control_step example_env)\<^sup>*\<^sup>* (silent_run\<lparr>k_admin := Restarting [''base'', ''base'']\<rparr>) k' \<and>
     k_admin k' = Restart_Join 0 []"
proof -
  have "findPlugin ''base'' (silent_core [Looping]) = 0"
    by (simp add: findPlugin_def) (simp add: silent_plugin_def Plugin_def set_thread_def)
  then obtain k' where
    k: "(control_step example_env)\<^sup>*\<^sup>* (silent_run\<lparr>k_admin := Restarting [''base'', ''base'']\<rparr>) k'" and
    h: "\<And>k''. (unsignalled example_env)\<^sup>*\<^sup>* k' k'' \<Longrightarrow> k_admin k'' = Restart_Join 0 []"
    using restart_twice_can_hang [of "silent_run\<lparr>k_admin := Restarting [''base'', ''base'']\<rparr>" "''base''" 0 example_env]
      silent_self_contained silent_responsive silent_quiet_shutdown by auto
  from k h [of k'] show ?thesis by blast
qed

end
