(* ===== verification/Bot_Reload.thy ===== *)
theory Bot_Reload
  imports Bot_Control
begin

text \<open>
  Reloading while the bot runs: \<open>Core::reloadPlugin\<close> as a command of the admin port carries it out, cut into
  steps on the I/O thread, with the main thread and the threads of the plugins going on.
\<close>

section \<open>The steps\<close>

text \<open>
  Plugins left to reload, by id; at the join of one; about to remove the old object, to load the new one,
  and to spawn it.
\<close>

datatype reload =
    No_Reload
  | Reloading "string list"
  | Reload_Join nat string "string list"
  | Reload_Remove nat string "string list"
  | Reload_Load string "string list"
  | Reload_Spawn nat "string list"

text \<open>The vector without the element at an index; what the plugins behind it have taken moves with them.\<close>

definition without_plugin :: "nat \<Rightarrow> ('n, 'x) core \<Rightarrow> ('n, 'x) system \<Rightarrow> ('n, 'x) system" where
  "without_plugin i c s = s\<lparr>s_core := c, s_taken := (\<lambda>j. s_taken s (if j < i then j else Suc j))\<rparr>"

definition with_plugin :: "nat \<Rightarrow> ('n, 'x) core \<Rightarrow> ('n, 'x) system \<Rightarrow> ('n, 'x) system" where
  "with_plugin j c s = s\<lparr>s_core := c, s_taken := (s_taken s)(j := [])\<rparr>"

text \<open>\<open>m_dl_plugins[pluginId]\<close> inserts a null pointer for an id without a library.\<close>

definition library_entry :: "string \<Rightarrow> ('n, 'x) core \<Rightarrow> ('n, 'x) core" where
  "library_entry pid c = c\<lparr>m_dl_plugins := (m_dl_plugins c)(pid \<mapsto> (case m_dl_plugins c pid of Some l \<Rightarrow> l | None \<Rightarrow> 0))\<rparr>"

inductive reload_step ::
  "('n, 'x) env \<Rightarrow> reload \<times> ('n, 'x) system \<Rightarrow> reload \<times> ('n, 'x) system \<Rightarrow> bool" for env where
  rs_unknown: "findPlugin pid (s_core s) = count_plugins s \<Longrightarrow>
    reload_step env (Reloading (pid # ids), s) (Reloading ids, s)"
| rs_stop: "findPlugin pid (s_core s) = i \<Longrightarrow> i < count_plugins s \<Longrightarrow> m_running (plugin_at s i) \<Longrightarrow>
    reload_step env (Reloading (pid # ids), s) (Reload_Join i pid ids, put_plugin i (stop_running (plugin_at s i)) s)"
| rs_idle: "findPlugin pid (s_core s) = i \<Longrightarrow> i < count_plugins s \<Longrightarrow> \<not> m_running (plugin_at s i) \<Longrightarrow>
    reload_step env (Reloading (pid # ids), s) (Reload_Remove i pid ids, s)"
| rs_joined: "i < count_plugins s \<Longrightarrow> m_thread (plugin_at s i) \<in> {NoThread, Finished} \<Longrightarrow>
    after_join env i s = Inr t \<Longrightarrow> reload_step env (Reload_Join i pid ids, s) (Reload_Remove i pid ids, t)"
| rs_remove: "removePluginAt i (library_entry pid (s_core s)) = Inr c \<Longrightarrow>
    reload_step env (Reload_Remove i pid ids, s) (Reload_Load pid ids, without_plugin i c s)"
| rs_load: "loadPlugin env pid (s_core s) = Inr (j, c) \<Longrightarrow>
    reload_step env (Reload_Load pid ids, s) (Reload_Spawn j ids, with_plugin j c s)"
| rs_spawn: "j < count_plugins s \<Longrightarrow> spawn (plugin_at s j) = Inr q \<Longrightarrow>
    reload_step env (Reload_Spawn j ids, s) (Reloading ids, put_plugin j q s)"
| rs_done: "reload_step env (Reloading [], s) (No_Reload, s)"


text \<open>The index in whose join a reload is.\<close>

fun reload_joining :: "reload \<Rightarrow> nat option" where
  "reload_joining (Reload_Join i _ _) = Some i"
| "reload_joining _ = None"

text \<open>
  A step of a reload, or of the main thread during one, changes the length of the vector while the I/O thread is in its loop
  over it or the other task is under way; or the two are in the join of the same thread.
\<close>

definition reload_clash :: "reload \<Rightarrow> 'n task \<Rightarrow> ('n, 'x) system \<Rightarrow> ('n, 'x) system \<Rightarrow> bool" where
  "reload_clash r t s s' \<longleftrightarrow>
     (count_plugins s' \<noteq> count_plugins s \<and> (in_loop (s_io s) \<or> (r \<noteq> No_Reload \<and> t \<noteq> Unoccupied))) \<or>
     (reload_joining r \<noteq> None \<and> reload_joining r = joining t)"

text \<open>The I/O thread carries out a reload between two handlers and does nothing else until it is done.\<close>

inductive reload_control ::
  "('n, 'x) env \<Rightarrow> reload \<times> ('n, 'x) controlled \<Rightarrow> reload \<times> ('n, 'x) controlled \<Rightarrow> bool" for env where
  rc_control: "control_step env k k' \<Longrightarrow> reload_control env (No_Reload, k) (No_Reload, k')"
| rc_begin: "\<not> k_undefined k \<Longrightarrow> k_admin k = Unoccupied \<Longrightarrow> s_io (k_sys k) = IO_Idle \<Longrightarrow>
    reload_control env (No_Reload, k) (Reloading ids, k)"
| rc_reload: "\<not> k_undefined k \<Longrightarrow> reload_step env (r, k_sys k) (r', s) \<Longrightarrow>
    reload_control env (r, k) (r', k\<lparr>k_sys := s, k_undefined := reload_clash r (k_main k) (k_sys k) s \<or> reload_clash r' (k_main k) (k_sys k) s\<rparr>)"
| rc_worker: "r \<noteq> No_Reload \<Longrightarrow> \<not> k_undefined k \<Longrightarrow> worker_turn (k_sys k) s \<Longrightarrow>
    reload_control env (r, k) (r, k\<lparr>k_sys := s\<rparr>)"
| rc_signal: "r \<noteq> No_Reload \<Longrightarrow> \<not> k_undefined k \<Longrightarrow> k_main k = Unoccupied \<Longrightarrow>
    reload_control env (r, k) (r, k\<lparr>k_main := Stop_Begin\<rparr>)"
| rc_main: "r \<noteq> No_Reload \<Longrightarrow> \<not> k_undefined k \<Longrightarrow> task_step env (k_main k, k_sys k) (t, s) \<Longrightarrow>
    reload_control env (r, k) (r, k\<lparr>k_main := t, k_sys := s, k_undefined := reload_clash r t (k_sys k) s\<rparr>)"

section \<open>Lemmas\<close>

lemma clash_with_unoccupied: "s_io s = IO_Idle \<Longrightarrow> \<not> reload_clash r Unoccupied s s'"
  by (auto simp: reload_clash_def in_loop_def)

lemma reload_on_sys:
  assumes "reload_step env (r, k_sys k) (r', s)" and "\<not> k_undefined k" and "k_main k = Unoccupied" and "s_io (k_sys k) = IO_Idle"
  shows "reload_control env (r, k) (r', k\<lparr>k_sys := s\<rparr>)"
proof -
  have "k\<lparr>k_sys := s, k_undefined := False\<rparr> = k\<lparr>k_sys := s\<rparr>" using assms(2) by (cases k) simp
  with rc_reload [OF assms(2,1)] assms(3) clash_with_unoccupied [OF assms(4)] show ?thesis by simp
qed

lemma workers_on_sys:
  assumes "(\<lambda>s t. worker_turn s t \<and> count_plugins t = count_plugins s)\<^sup>*\<^sup>* s s'" and "r \<noteq> No_Reload" and "\<not> k_undefined k"
  shows "(reload_control env)\<^sup>*\<^sup>* (r, k\<lparr>k_sys := s\<rparr>) (r, k\<lparr>k_sys := s'\<rparr>)"
  using assms(1)
proof (induction rule: rtranclp_induct)
  case (step u v)
  have "reload_control env (r, k\<lparr>k_sys := u\<rparr>) (r, k\<lparr>k_sys := v\<rparr>)"
    using rc_worker [OF assms(2), of "k\<lparr>k_sys := u\<rparr>" v env] step.hyps(2) assms(3) by simp
  with step.IH show ?case by (rule rtranclp.rtrancl_into_rtrancl)
qed simp

text \<open>Removing an element and adding one at the end.\<close>

lemma plugin_at_without:
  assumes "m_plugins c = take i (m_plugins (s_core s)) @ drop (Suc i) (m_plugins (s_core s)) @ ps" and "i < count_plugins s"
    and "j < count_plugins s - 1"
  shows "m_plugins c ! j = plugin_at s (if j < i then j else Suc j)"
  using assms by (auto simp: plugin_at_def count_plugins_def nth_append min_def)

text \<open>The first part of a reload: its plugin has been joined, and nothing else has been touched.\<close>

lemma reload_reaches_removal:
  assumes "\<not> k_undefined k" and "k_main k = Unoccupied" and "k_admin k = Unoccupied" and "s_io (k_sys k) = IO_Idle"
    and "findPlugin pid (s_core (k_sys k)) = i" and "i < count_plugins (k_sys k)"
    and "responsive (plugin_at (k_sys k) i)" and "quiet_shutdown (plugin_at (k_sys k) i)"
  shows "\<exists>u. (reload_control env)\<^sup>*\<^sup>* (No_Reload, k) (Reload_Remove i pid ids, k\<lparr>k_sys := u\<rparr>) \<and>
    only_plugin i (k_sys k) u \<and> m_thread (plugin_at u i) = NoThread"
proof -
  let ?R = "reload_control env" and ?k = "\<lambda>s. k\<lparr>k_sys := s\<rparr>"
  let ?s = "put_plugin i (stop_running (plugin_at (k_sys k) i)) (k_sys k)"
  from join_completes [OF assms(6-8), of env] obtain t u where
    t: "(\<lambda>s t. worker_turn s t \<and> count_plugins t = count_plugins s)\<^sup>*\<^sup>* ?s t" "m_thread (plugin_at t i) = Finished"
      "after_join env i t = Inr u" "only_plugin i (k_sys k) t" and
    u: "only_plugin i (k_sys k) u" "m_thread (plugin_at u i) = NoThread"
    by blast
  have n: "count_plugins t = count_plugins (k_sys k)" using t(4) by (rule only_plugin_count)
  have io: "s_io t = IO_Idle" using t(4) assms(4) by (simp add: only_plugin_def same_io_def)
  have 1: "?R (No_Reload, k) (Reloading (pid # ids), k)" using assms(1,3,4) by (rule rc_begin)
  have 2: "?R (Reloading (pid # ids), k) (Reload_Join i pid ids, ?k ?s)"
    by (rule reload_on_sys [OF _ assms(1,2,4)]) (use assms(5-7) in \<open>simp add: rs_stop responsive_def\<close>)
  have 3: "?R\<^sup>*\<^sup>* (Reload_Join i pid ids, ?k ?s) (Reload_Join i pid ids, ?k t)"
    using t(1) assms(1) by (intro workers_on_sys) simp_all
  have "reload_step env (Reload_Join i pid ids, t) (Reload_Remove i pid ids, u)"
    using t(2,3) n assms(6) by (simp add: rs_joined)
  then have 4: "?R (Reload_Join i pid ids, ?k t) (Reload_Remove i pid ids, ?k u)"
    using reload_on_sys [of env _ "?k t"] assms(1,2) io by fastforce
  have "?R\<^sup>*\<^sup>* (No_Reload, k) (Reload_Remove i pid ids, ?k u)"
    using 1 2 3 4 by (meson converse_rtranclp_into_rtranclp rtranclp.rtrancl_into_rtrancl)
  with u show ?thesis by blast
qed

lemma removal:
  assumes "i < count_plugins s" and "m_thread (plugin_at s i) = NoThread"
  shows "removePluginAt i (library_entry pid (s_core s)) =
    Inr ((library_entry pid (s_core s))\<lparr>m_plugins := take i (m_plugins (s_core s)) @ drop (Suc i) (m_plugins (s_core s))\<rparr>)"
  using assms by (simp add: removePluginAt_def library_entry_def vec_at_def destroy_def plugin_at_def count_plugins_def)

lemma reload_step_io: "reload_step env (r, s) (r', s') \<Longrightarrow> s_io s' = s_io s"
  by (cases rule: reload_step.cases)
    (auto simp: without_plugin_def with_plugin_def after_join_def Let_def bind_result_Inr_iff
      split: prod.splits option.splits if_split_asm)

lemma reload_steps_on_sys:
  assumes "(reload_step env)\<^sup>*\<^sup>* a b" and "\<not> k_undefined k" and "k_main k = Unoccupied" and "s_io (snd a) = IO_Idle"
  shows "(reload_control env)\<^sup>*\<^sup>* (fst a, k\<lparr>k_sys := snd a\<rparr>) (fst b, k\<lparr>k_sys := snd b\<rparr>) \<and> s_io (snd b) = IO_Idle"
  using assms(1)
proof (induction rule: rtranclp_induct)
  case base
  show ?case using assms(4) by simp
next
  case (step c d)
  have d: "reload_step env (fst c, snd c) (fst d, snd d)" using step.hyps(2) by simp
  have "reload_control env (fst c, k\<lparr>k_sys := snd c\<rparr>) (fst d, k\<lparr>k_sys := snd d\<rparr>)"
    using reload_on_sys [of env "fst c" "k\<lparr>k_sys := snd c\<rparr>" "fst d" "snd d"] d assms(2,3) step.IH by simp
  with step.IH reload_step_io [OF d] show ?case by (auto intro: rtranclp.rtrancl_into_rtrancl)
qed

text \<open>The second part: the old object goes, and the new one is added at the end and started.\<close>

lemma replacement:
  assumes "i < count_plugins u" and "m_thread (plugin_at u i) = NoThread"
    and "as_string (yaml_ops env) (at_key (yaml_ops env) (at_key (yaml_ops env)
      (at_key (yaml_ops env) (core_cfg (s_core u)) ''plugins'') pid) ''path'') = Some path"
    and "path \<noteq> ''''" and "extension env path = ''.so''" and "dlopen env path = Some lib"
    and "\<And>cfg. getPlugin env lib cfg = Some (Plugin K obj cfg)"
  shows "\<exists>x cfg. (reload_step env)\<^sup>*\<^sup>* (Reload_Remove i pid [], u) (No_Reload, x) \<and> s_io x = s_io u \<and>
    count_plugins x = count_plugins u \<and> pc_id cfg = pid \<and>
    (\<forall>j < count_plugins u - 1. plugin_at x j = plugin_at u (if j < i then j else Suc j)) \<and>
    plugin_at x (count_plugins u - 1) = (Plugin K obj cfg)\<lparr>m_running := True, m_thread := Starting\<rparr>"
proof -
  let ?R = "reload_step env" and ?c = "library_entry pid (s_core u)"
  obtain ps where ps: "ps = take i (m_plugins (s_core u)) @ drop (Suc i) (m_plugins (s_core u))" by blast
  have lp: "length ps = count_plugins u - 1" using assms(1) by (simp add: ps count_plugins_def)
  have rm: "removePluginAt i ?c = Inr (?c\<lparr>m_plugins := ps\<rparr>)" unfolding ps using assms(1,2) by (rule removal)
  let ?v = "without_plugin i (?c\<lparr>m_plugins := ps\<rparr>) u"
  have 1: "?R (Reload_Remove i pid [], u) (Reload_Load pid [], ?v)" using rm by (rule rs_remove)
  have "core_cfg (s_core ?v) = core_cfg (s_core u)" by (simp add: without_plugin_def library_entry_def)
  from loadPlugin_so [of env "s_core ?v", unfolded this, OF assms(3-7)] obtain cfg d where
    cfg: "pc_id cfg = pid" and d: "loadPlugin env pid (s_core ?v) = Inr (length ps, d)" "m_plugins d = ps @ [Plugin K obj cfg]"
    by (auto simp: without_plugin_def)
  let ?w = "with_plugin (length ps) d ?v" and ?q = "(Plugin K obj cfg)\<lparr>m_running := True, m_thread := Starting\<rparr>"
  have 2: "?R (Reload_Load pid [], ?v) (Reload_Spawn (length ps) [], ?w)" using d(1) by (rule rs_load)
  have w: "plugin_at ?w (length ps) = Plugin K obj cfg" "count_plugins ?w = Suc (length ps)" "s_io ?w = s_io u"
    by (simp_all add: with_plugin_def without_plugin_def plugin_at_def count_plugins_def d(2))
  let ?x = "put_plugin (length ps) ?q ?w"
  have "spawn (plugin_at ?w (length ps)) = Inr ?q" by (simp add: w(1) spawn_def)
  with w(2) have 3: "?R (Reload_Spawn (length ps) [], ?w) (Reloading [], ?x)" by (simp add: rs_spawn)
  have run: "?R\<^sup>*\<^sup>* (Reload_Remove i pid [], u) (No_Reload, ?x)"
    using 1 2 3 rs_done [of env ?x] by (meson converse_rtranclp_into_rtranclp rtranclp.rtrancl_refl)
  have "plugin_at ?x j = plugin_at u (if j < i then j else Suc j)" if "j < count_plugins u - 1" for j
  proof -
    have "plugin_at ?x j = plugin_at ?w j" using that lp w(2) by simp
    also have "\<dots> = m_plugins d ! j" by (simp add: with_plugin_def plugin_at_def)
    also have "\<dots> = plugin_at u (if j < i then j else Suc j)"
      by (rule plugin_at_without [of d i u "[Plugin K obj cfg]"]) (use d(2) ps that assms(1) in simp_all)
    finally show ?thesis .
  qed
  with run cfg w lp assms(1) show ?thesis by (intro exI [of _ ?x] exI [of _ cfg]) simp
qed






section \<open>Properties\<close>

text \<open>
  C13: a reload command can be carried out while the bot runs: from every state between two handlers
  in which the plugin responds and its library can be loaded, its thread is joined, the other plugins keep their
  order, mailboxes and threads, and the new object stands at the end of the vector, started and with an empty mailbox.
\<close>

theorem reload_command_completes:
  assumes "\<not> k_undefined k" and "k_main k = Unoccupied" and "k_admin k = Unoccupied" and "s_io (k_sys k) = IO_Idle"
    and "findPlugin pid (s_core (k_sys k)) = i" and "i < count_plugins (k_sys k)"
    and "responsive (plugin_at (k_sys k) i)" and "quiet_shutdown (plugin_at (k_sys k) i)"
    and "as_string (yaml_ops env) (at_key (yaml_ops env) (at_key (yaml_ops env)
      (at_key (yaml_ops env) (core_cfg (s_core (k_sys k))) ''plugins'') pid) ''path'') = Some path"
    and "path \<noteq> ''''" and "extension env path = ''.so''" and "dlopen env path = Some lib"
    and "\<And>cfg. getPlugin env lib cfg = Some (Plugin K obj cfg)"
  shows "\<exists>k'. (reload_control env)\<^sup>*\<^sup>* (No_Reload, k) (No_Reload, k') \<and> \<not> k_undefined k' \<and>
    k_main k' = Unoccupied \<and> s_io (k_sys k') = IO_Idle \<and> count_plugins (k_sys k') = count_plugins (k_sys k) \<and>
    (\<forall>j < count_plugins (k_sys k) - 1. plugin_at (k_sys k') j = plugin_at (k_sys k) (if j < i then j else Suc j)) \<and>
    (let p = plugin_at (k_sys k') (count_plugins (k_sys k) - 1) in
       m_id p = pid \<and> m_class p = K \<and> m_object p = obj \<and> m_incoming p = [] \<and> m_running p \<and> m_thread p = Starting)"
proof -
  let ?R = "reload_control env" and ?n = "count_plugins (k_sys k)" and ?k = "\<lambda>s. k\<lparr>k_sys := s\<rparr>"
  from reload_reaches_removal [OF assms(1-8), of env "[]"] obtain u where
    first: "?R\<^sup>*\<^sup>* (No_Reload, k) (Reload_Remove i pid [], ?k u)" and
    u: "only_plugin i (k_sys k) u" "m_thread (plugin_at u i) = NoThread" by blast
  have n: "count_plugins u = ?n" using u(1) by (rule only_plugin_count)
  have "core_cfg (s_core u) = core_cfg (s_core (k_sys k))" using u(1) by (simp add: only_plugin_def control_def)
  from replacement [of i u env, unfolded this n, OF assms(6) u(2) assms(9-13)] obtain x cfg where
    second: "(reload_step env)\<^sup>*\<^sup>* (Reload_Remove i pid [], u) (No_Reload, x)" and x: "s_io x = s_io u" "count_plugins x = ?n"
      "pc_id cfg = pid" "\<And>j. j < ?n - 1 \<Longrightarrow> plugin_at x j = plugin_at u (if j < i then j else Suc j)"
      "plugin_at x (?n - 1) = (Plugin K obj cfg)\<lparr>m_running := True, m_thread := Starting\<rparr>"
    by blast
  note first
  also have "?R\<^sup>*\<^sup>* (Reload_Remove i pid [], ?k u) (No_Reload, ?k x)"
    using reload_steps_on_sys [OF second assms(1,2)] u(1) assms(4) by (simp add: only_plugin_def same_io_def)
  finally have run: "?R\<^sup>*\<^sup>* (No_Reload, k) (No_Reload, ?k x)" .
  have "plugin_at x j = plugin_at (k_sys k) (if j < i then j else Suc j)" if "j < ?n - 1" for j
    using x(4) [OF that] u(1) by (simp add: only_plugin_def)
  moreover have "s_io x = IO_Idle" using x(1) u(1) assms(4) by (simp add: only_plugin_def same_io_def)
  ultimately show ?thesis
    using run assms(1,2) x(2,3,5) by (intro exI [of _ "?k x"]) (simp add: Let_def)
qed


text \<open>
  Remark: a signal that arrives while a plugin is reloaded can make the main thread walk through
  the vector of plugins while the I/O thread removes an element from it: nothing synchronises the two.
\<close>

theorem signal_during_reload_undefined:
  assumes "\<not> k_undefined k" and "k_main k = Unoccupied" and "k_admin k = Unoccupied" and "s_io (k_sys k) = IO_Idle"
    and "findPlugin pid (s_core (k_sys k)) = i" and "i < count_plugins (k_sys k)"
    and "responsive (plugin_at (k_sys k) i)" and "quiet_shutdown (plugin_at (k_sys k) i)"
  shows "\<exists>r k'. (reload_control env)\<^sup>*\<^sup>* (No_Reload, k) (r, k') \<and> k_undefined k' \<and> k_main k' = Stopping 0 \<and>
    count_plugins (k_sys k') = count_plugins (k_sys k) - 1"
proof -
  from reload_reaches_removal [OF assms, of env "[]"] obtain u where
    run: "(reload_control env)\<^sup>*\<^sup>* (No_Reload, k) (Reload_Remove i pid [], k\<lparr>k_sys := u\<rparr>)" and
    u: "only_plugin i (k_sys k) u" "m_thread (plugin_at u i) = NoThread" by blast
  let ?k1 = "k\<lparr>k_sys := u, k_main := Stop_Begin\<rparr>" and ?v = "u\<lparr>s_core := disconnect (stopAsyncReceive (s_core u))\<rparr>"
  have 1: "reload_control env (Reload_Remove i pid [], k\<lparr>k_sys := u\<rparr>) (Reload_Remove i pid [], ?k1)"
    using rc_signal [of "Reload_Remove i pid []" "k\<lparr>k_sys := u\<rparr>" env] assms(1,2) by simp
  have v: "count_plugins ?v = count_plugins (k_sys k)" "plugin_at ?v i = plugin_at u i"
    using only_plugin_count [OF u(1)]
    by (simp_all add: count_plugins_def plugin_at_def disconnect_def stopAsyncReceive_def)
  let ?k2 = "k\<lparr>k_main := Stopping 0, k_sys := ?v, k_undefined := False\<rparr>"
  have "\<not> reload_clash (Reload_Remove i pid []) (Stopping 0) u ?v"
    using v(1) only_plugin_count [OF u(1)] by (simp add: reload_clash_def)
  then have 2: "reload_control env (Reload_Remove i pid [], ?k1) (Reload_Remove i pid [], ?k2)"
    using rc_main [of "Reload_Remove i pid []" ?k1 env "Stopping 0" ?v] ts_stop_begin [of env u] assms(1) by simp
  obtain c where c: "c = (library_entry pid (s_core ?v))\<lparr>m_plugins := take i (m_plugins (s_core ?v)) @ drop (Suc i) (m_plugins (s_core ?v))\<rparr>"
    by blast
  have "removePluginAt i (library_entry pid (s_core ?v)) = Inr c" unfolding c
    by (rule removal) (use v assms(6) u(2) in simp_all)
  then have step: "reload_step env (Reload_Remove i pid [], ?v) (Reload_Load pid [], without_plugin i c ?v)"
    by (rule rs_remove)
  have n: "count_plugins (without_plugin i c ?v) = count_plugins (k_sys k) - 1"
    using v(1) assms(6) by (simp add: c without_plugin_def count_plugins_def)
  then have clash: "reload_clash (Reload_Remove i pid []) (Stopping 0) ?v (without_plugin i c ?v)"
    using v(1) assms(6) by (simp add: reload_clash_def)
  let ?k3 = "k\<lparr>k_main := Stopping 0, k_sys := without_plugin i c ?v, k_undefined := True\<rparr>"
  have 3: "reload_control env (Reload_Remove i pid [], ?k2) (Reload_Load pid [], ?k3)"
    using rc_reload [of ?k2 env "Reload_Remove i pid []" "Reload_Load pid []" "without_plugin i c ?v"] step clash by simp
  from run 1 2 3 have "(reload_control env)\<^sup>*\<^sup>* (No_Reload, k) (Reload_Load pid [], ?k3)"
    by (meson rtranclp.rtrancl_into_rtrancl)
  with n show ?thesis by (intro exI [of _ "Reload_Load pid []"] exI [of _ ?k3]) simp
qed

section \<open>Concrete runs\<close>


lemma silent_found: "findPlugin ''base'' (silent_core [Looping]) = 0"
  by (simp add: findPlugin_def) (simp add: silent_plugin_def Plugin_def set_thread_def)

theorem signal_during_reload_undefined_witness:
  "\<exists>r k'. (reload_control example_env)\<^sup>*\<^sup>* (No_Reload, silent_run) (r, k') \<and> k_undefined k' \<and> m_plugins (s_core (k_sys k')) = []"
proof -
  from signal_during_reload_undefined [of silent_run "''base''" 0 example_env] silent_found silent_responsive silent_quiet_shutdown
  obtain r k' where "(reload_control example_env)\<^sup>*\<^sup>* (No_Reload, silent_run) (r, k')" "k_undefined k'" "count_plugins (k_sys k') = 0"
    by auto
  then show ?thesis by (auto simp: count_plugins_def)
qed


definition reloadable_run :: "(yaml_node, nat) controlled" where
  "reloadable_run = supervised Unoccupied (session ((silent_core [Looping])\<lparr>core_cfg := example_core_config\<rparr>))"

lemma reloadable_run_simps [simp]:
  "s_core (k_sys reloadable_run) = (silent_core [Looping])\<lparr>core_cfg := example_core_config\<rparr>"
  "s_io (k_sys reloadable_run) = IO_Idle" "count_plugins (k_sys reloadable_run) = 1"
  "plugin_at (k_sys reloadable_run) 0 = silent_plugin Looping"
  "k_admin reloadable_run = Unoccupied" "k_main reloadable_run = Unoccupied" "\<not> k_undefined reloadable_run"
  by (simp_all add: reloadable_run_def supervised_def session_def count_plugins_def plugin_at_def)

theorem reload_command_completes_witness:
  "\<exists>k'. (reload_control example_env)\<^sup>*\<^sup>* (No_Reload, reloadable_run) (No_Reload, k') \<and>
     m_running (plugin_at (k_sys k') 0) \<and> m_thread (plugin_at (k_sys k') 0) = Starting"
proof -
  let ?k = reloadable_run
  have 1: "findPlugin ''base'' (s_core (k_sys ?k)) = 0"
    by (simp add: findPlugin_def) (simp add: silent_plugin_def Plugin_def set_thread_def)
  have 2: "responsive (plugin_at (k_sys ?k) 0)" "quiet_shutdown (plugin_at (k_sys ?k) 0)"
    by (simp_all add: silent_responsive silent_quiet_shutdown)
  have 3: "as_string (yaml_ops example_env) (at_key (yaml_ops example_env) (at_key (yaml_ops example_env)
      (at_key (yaml_ops example_env) example_core_config ''plugins'') ''base'') ''path'') = Some ''base.so''"
    by code_simp
  have 4: "extension example_env ''base.so'' = ''.so''" "dlopen example_env ''base.so'' = Some 1"
    "getPlugin example_env 1 cfg = Some (Plugin (base_class ''Base'') 0 cfg)" for cfg
    by (simp_all add: example_env_def)
  obtain k' where "(reload_control example_env)\<^sup>*\<^sup>* (No_Reload, ?k) (No_Reload, k')"
    "m_running (plugin_at (k_sys k') 0)" "m_thread (plugin_at (k_sys k') 0) = Starting"
    using reload_command_completes [of ?k, OF _ _ _ _ 1 _ 2 _ _ 4] 3 by (auto simp: Let_def)
  then show ?thesis by blast
qed

end
