(* ===== verification/Bot_Runs.thy ===== *)
theory Bot_Runs
  imports Bot_Reload
begin

text \<open>
  The tasks of \<open>Bot_Control\<close> and \<open>Bot_Reload\<close> compared with the functions of \<open>Bot_Core\<close>: what a task still has to
  do, as a composition of those functions, does not change in its steps. A task that runs without being
  disturbed therefore computes what the function does, and can only be stopped by a join or an exception.
\<close>

section \<open>What is left to do\<close>

fun rest_of_task :: "('n, 'x) env \<Rightarrow> 'n task \<Rightarrow> ('n, 'x) system \<Rightarrow> ('n, 'x) core result" where
  "rest_of_task env Unoccupied s = Inr (s_core s)"
| "rest_of_task env (Loading es) s = bind_result (fold_result (load_entry env) es (s_core s)) startPlugins"
| "rest_of_task env (Spawning i) s = fold_result spawn_at [i ..< count_plugins s] (s_core s)"
| "rest_of_task env (Restarting ids) s = fold_result (restartPlugin env) ids (s_core s)"
| "rest_of_task env (Restart_Join i ids) s = bind_result (after_join env i s) (\<lambda>t.
     bind_result (spawn_at i (s_core t)) (fold_result (restartPlugin env) ids))"
| "rest_of_task env (Restart_Spawn i ids) s = bind_result (spawn_at i (s_core s)) (fold_result (restartPlugin env) ids)"
| "rest_of_task env Stop_Begin s = core_stop env (s_core s)"
| "rest_of_task env (Stopping i) s =
     bind_result (fold_result (stop_at env) [i ..< count_plugins s] (s_core s)) (rest_of_stop env)"
| "rest_of_task env (Stop_Join i) s = bind_result (after_join env i s) (\<lambda>t.
     bind_result (fold_result (stop_at env) [Suc i ..< count_plugins s] (s_core t)) (rest_of_stop env))"
| "rest_of_task env Stopped s = Inr (s_core s)"

fun rest_of_reload :: "('n, 'x) env \<Rightarrow> reload \<Rightarrow> ('n, 'x) system \<Rightarrow> ('n, 'x) core result" where
  "rest_of_reload env No_Reload s = Inr (s_core s)"
| "rest_of_reload env (Reloading ids) s = fold_result (reloadPlugin env) ids (s_core s)"
| "rest_of_reload env (Reload_Join i pid ids) s = bind_result (after_join env i s) (\<lambda>t.
     bind_result (removePluginAt i (library_entry pid (s_core t))) (\<lambda>c.
     bind_result (loadPlugin env pid c) (\<lambda>(j, d). bind_result (spawn_at j d) (fold_result (reloadPlugin env) ids))))"
| "rest_of_reload env (Reload_Remove i pid ids) s =
     bind_result (removePluginAt i (library_entry pid (s_core s))) (\<lambda>c.
     bind_result (loadPlugin env pid c) (\<lambda>(j, d). bind_result (spawn_at j d) (fold_result (reloadPlugin env) ids)))"
| "rest_of_reload env (Reload_Load pid ids) s =
     bind_result (loadPlugin env pid (s_core s)) (\<lambda>(j, d). bind_result (spawn_at j d) (fold_result (reloadPlugin env) ids))"
| "rest_of_reload env (Reload_Spawn j ids) s = bind_result (spawn_at j (s_core s)) (fold_result (reloadPlugin env) ids)"

text \<open>Steps of one thread alone that end in a given state of the task, with the core given.\<close>

definition computes ::
  "('t \<times> ('n, 'x) system \<Rightarrow> 't \<times> ('n, 'x) system \<Rightarrow> bool) \<Rightarrow> 't \<Rightarrow> 't \<Rightarrow> ('n, 'x) system \<Rightarrow> ('n, 'x) core \<Rightarrow> bool" where
  "computes R a z s c \<longleftrightarrow> (\<exists>t. R\<^sup>*\<^sup>* (a, s) (z, t) \<and> s_core t = c)"

lemma computes_done: "s_core s = c \<Longrightarrow> computes R a a s c"
  by (auto simp: computes_def)

lemma computes_step: "R (a, s) (b, t) \<Longrightarrow> computes R b z t c \<Longrightarrow> computes R a z s c"
  by (auto simp: computes_def dest: converse_rtranclp_into_rtranclp)

section \<open>Lemmas\<close>

lemma bind_result_assoc: "bind_result (bind_result m f) g = bind_result m (\<lambda>x. bind_result (f x) g)"
  by (cases m) simp_all

text \<open>The sequential \<open>stop\<close> of a plugin is the two halves of the task, without a join in between.\<close>

lemma stop_at_idle:
  "i < count_plugins s \<Longrightarrow> \<not> m_running (plugin_at s i) \<Longrightarrow> stop_at env i (s_core s) = Inr (s_core s)"
  by (simp add: stop_at_def vec_at_def stop_def plugin_at_def count_plugins_def)

lemma stop_at_running:
  assumes "i < count_plugins s" and "m_running (plugin_at s i)"
  shows "stop_at env i (s_core s) =
    bind_result (after_join env i (put_plugin i (stop_running (plugin_at s i)) s)) (\<lambda>t. Inr (s_core t))"
proof -
  let ?p = "plugin_at s i"
  have "set_thread NoThread (stop_running ?p) = ?p\<lparr>m_running := False, m_thread := NoThread\<rparr>"
    by (simp add: set_thread_def stop_running_def)
  moreover have "(s_core (put_plugin i q (put_plugin i r s))) = (s_core s)\<lparr>m_plugins := (m_plugins (s_core s))[i := q]\<rparr>" for q r
    by (simp add: put_plugin_def)
  moreover obtain q es f where
    "run_handler (uptime_now env) (onShutdown (m_class ?p)) (?p\<lparr>m_running := False, m_thread := NoThread\<rparr>) = (q, es, f)"
    by (rule prod_cases3)
  ultimately show ?thesis
    using assms
    by (cases "fold_result perform es ((s_core s)\<lparr>m_plugins := (m_plugins (s_core s))[i := q]\<rparr>)"; cases f)
      (simp_all add: stop_at_def vec_at_def stop_def after_join_def Let_def plugin_at_def [symmetric], simp_all add: count_plugins_def)
qed

lemma after_join_count: "after_join env i s = Inr t \<Longrightarrow> count_plugins t = count_plugins s"
  by (auto simp: after_join_def Let_def bind_result_Inr_iff count_plugins_def split: prod.splits option.splits if_split_asm)

lemma spawn_at_put:
  "i < count_plugins s \<Longrightarrow> spawn (plugin_at s i) = Inr q \<Longrightarrow> spawn_at i (s_core s) = Inr (s_core (put_plugin i q s))"
  by (simp add: spawn_at_def vec_at_def put_plugin_def plugin_at_def count_plugins_def)

lemma upt_from: "i < n \<Longrightarrow> [i ..< n] = i # [Suc i ..< n]"
  by (rule upt_conv_Cons)

lemma rest_of_task_step:
  assumes "task_step env (t, s) (t', s')"
  shows "rest_of_task env t s = rest_of_task env t' s'"
  using assms
proof cases
  case (ts_restart pid i ids)
  then show ?thesis
    by (simp add: restartPlugin_def Let_def count_plugins_def [symmetric] stop_at_running bind_result_assoc)
next
  case (ts_restart_idle pid i ids)
  then show ?thesis by (simp add: restartPlugin_def Let_def count_plugins_def [symmetric] stop_at_idle)
next
  case (ts_stop_begin)
  have "count_plugins (s\<lparr>s_core := disconnect (stopAsyncReceive (s_core s))\<rparr>) = count_plugins s"
    by (simp add: count_plugins_def disconnect_def stopAsyncReceive_def)
  with ts_stop_begin show ?thesis
    by (simp add: core_stop_rest stopPlugins_def) (simp add: count_plugins_def disconnect_def stopAsyncReceive_def)
next
  case (ts_stop i)
  then show ?thesis by (simp add: upt_from stop_at_running bind_result_assoc)
next
  case (ts_stop_idle i)
  then show ?thesis by (simp add: upt_from stop_at_idle)
qed (simp_all add: restartPlugin_def Let_def spawn_at_put upt_from after_join_count startPlugins_def count_plugins_def [symmetric])

lemma rest_of_reload_step:
  assumes "reload_step env (r, s) (r', s')"
  shows "rest_of_reload env r s = rest_of_reload env r' s'"
  using assms
proof cases
  case (rs_stop pid i ids)
  then show ?thesis
    by (simp add: reloadPlugin_def Let_def count_plugins_def [symmetric] stop_at_running bind_result_assoc
        library_entry_def [symmetric] case_prod_beta')
next
  case (rs_idle pid i ids)
  then show ?thesis
    by (simp add: reloadPlugin_def Let_def count_plugins_def [symmetric] stop_at_idle bind_result_assoc
        library_entry_def [symmetric] case_prod_beta')
qed (simp_all add: reloadPlugin_def Let_def spawn_at_put count_plugins_def [symmetric] without_plugin_def with_plugin_def)


lemma rest_of_task_steps:
  assumes "(task_step env)\<^sup>*\<^sup>* (t, s) (t', s')"
  shows "rest_of_task env t s = rest_of_task env t' s'"
  using assms by (induction rule: rtranclp_induct2) (auto dest: rest_of_task_step)

lemma rest_of_reload_steps:
  assumes "(reload_step env)\<^sup>*\<^sup>* (r, s) (r', s')"
  shows "rest_of_reload env r s = rest_of_reload env r' s'"
  using assms by (induction rule: rtranclp_induct2) (auto dest: rest_of_reload_step)

text \<open>A handler that leaves the number of plugins as it was has not touched the vector.\<close>

lemma perform_plugins:
  assumes "perform e c = Inr d"
  shows "length (m_plugins d) \<le> length (m_plugins c)"
    and "length (m_plugins d) = length (m_plugins c) \<Longrightarrow> m_plugins d = m_plugins c"
  using assms removePlugin_effect [of _ c d] by (cases e; auto simp: send_message_def send_text_def)+

lemma perform_all_plugins:
  assumes "fold_result perform es c = Inr d"
  shows "length (m_plugins d) \<le> length (m_plugins c) \<and>
    (length (m_plugins d) = length (m_plugins c) \<longrightarrow> m_plugins d = m_plugins c)"
  using assms
proof (induction es arbitrary: c)
  case (Cons e es)
  then obtain b where b: "perform e c = Inr b" "fold_result perform es b = Inr d" by (auto simp: bind_result_Inr_iff)
  from Cons.IH [OF b(2)] perform_plugins [OF b(1)] show ?case by auto
qed simp

lemma after_join_plugins:
  assumes "after_join env i s = Inr t" and "i < count_plugins s"
  shows "m_thread (plugin_at t i) = NoThread" and "j \<noteq> i \<Longrightarrow> plugin_at t j = plugin_at s j"
proof -
  obtain q es f where
    r: "run_handler (uptime_now env) (onShutdown (m_class (plugin_at s i))) (set_thread NoThread (plugin_at s i)) = (q, es, f)"
    by (rule prod_cases3)
  have th: "m_thread q = NoThread" using run_handler_frame [OF r] by (simp add: set_thread_def)
  from assms(1) r obtain c where
    c: "fold_result perform es (s_core (put_plugin i q s)) = Inr c" "t = s\<lparr>s_core := c\<rparr>" "length (m_plugins c) = count_plugins s"
    by (auto simp: after_join_def Let_def bind_result_Inr_iff split: option.splits if_split_asm)
  from perform_all_plugins [OF c(1)] c(3) have "m_plugins c = (m_plugins (s_core s))[i := q]"
    by (simp add: put_plugin_def count_plugins_def)
  with c(2) th assms(2) show "m_thread (plugin_at t i) = NoThread" "j \<noteq> i \<Longrightarrow> plugin_at t j = plugin_at s j"
    by (simp_all add: plugin_at_def count_plugins_def)
qed

text \<open>No join has to wait: the thread of every plugin that is to be stopped has ended.\<close>

definition joins_at_once :: "('n, 'x) system \<Rightarrow> bool" where
  "joins_at_once s \<longleftrightarrow> (\<forall>i < count_plugins s. m_running (plugin_at s i) \<longrightarrow> m_thread (plugin_at s i) \<in> {NoThread, Finished})"

text \<open>Then the only obstacle of a task is an exception, and the function would throw as well.\<close>

lemma stop_loop_runs:
  assumes "rest_of_task env (Stopping i) s = Inr c" and "joins_at_once s" and "i \<le> count_plugins s"
  shows "computes (task_step env) (Stopping i) Stopped s c"
  using assms
proof (induction "count_plugins s - i" arbitrary: i s)
  case 0
  then have "task_step env (Stopping i, s) (Stopped, s\<lparr>s_core := c\<rparr>)" by (intro ts_stop_rest) simp_all
  then show ?case by (rule computes_step) (simp add: computes_done)
next
  case (Suc k)
  then have i: "i < count_plugins s" by simp
  show ?case
  proof (cases "m_running (plugin_at s i)")
    case False
    with i have step: "task_step env (Stopping i, s) (Stopping (Suc i), s)" by (rule ts_stop_idle)
    have "rest_of_task env (Stopping (Suc i)) s = Inr c" using rest_of_task_step [OF step] Suc.prems(1) by simp
    then have "computes (task_step env) (Stopping (Suc i)) Stopped s c"
      using Suc.hyps(2) i Suc.prems(2) by (intro Suc.hyps(1)) simp_all
    with step show ?thesis by (rule computes_step)
  next
    case True
    let ?s = "put_plugin i (stop_running (plugin_at s i)) s"
    have 1: "task_step env (Stopping i, s) (Stop_Join i, ?s)" using i True by (rule ts_stop)
    have "rest_of_task env (Stop_Join i) ?s = Inr c" using rest_of_task_step [OF 1] Suc.prems(1) by simp
    then obtain u where u: "after_join env i ?s = Inr u" by (auto simp: bind_result_Inr_iff)
    have th: "m_thread (plugin_at s i) \<in> {NoThread, Finished}" using Suc.prems(2) i True by (simp add: joins_at_once_def)
    have 2: "task_step env (Stop_Join i, ?s) (Stopping (Suc i), u)"
      using i th u by (intro ts_stop_joined) simp_all
    have n: "count_plugins u = count_plugins s" using after_join_count [OF u] by simp
    have "joins_at_once u" unfolding joins_at_once_def
    proof (intro allI impI)
      fix j assume j: "j < count_plugins u" "m_running (plugin_at u j)"
      show "m_thread (plugin_at u j) \<in> {NoThread, Finished}"
        using after_join_plugins(1) [OF u] after_join_plugins(2) [OF u, of j] i j n Suc.prems(2) by (cases "j = i") (auto simp: joins_at_once_def)
    qed
    moreover have "rest_of_task env (Stopping (Suc i)) u = Inr c"
      using rest_of_task_step [OF 2] rest_of_task_step [OF 1] Suc.prems(1) by simp
    ultimately have "computes (task_step env) (Stopping (Suc i)) Stopped u c"
      using Suc.hyps(2) i n by (intro Suc.hyps(1)) simp_all
    with 1 2 show ?thesis by (blast intro: computes_step)
  qed
qed

lemma spawn_at_Inr:
  assumes "spawn_at i (s_core s) = Inr c"
  obtains q where "i < count_plugins s" "spawn (plugin_at s i) = Inr q" "c = s_core (put_plugin i q s)"
  using assms by (auto simp: spawn_at_def vec_at_def bind_result_Inr_iff plugin_at_def count_plugins_def put_plugin_def
      split: if_split_asm)

lemma stop_runs:
  assumes "core_stop env (s_core s) = Inr c" and "joins_at_once s"
  shows "computes (task_step env) Stop_Begin Stopped s c"
proof (rule computes_step, rule ts_stop_begin)
  let ?s = "s\<lparr>s_core := disconnect (stopAsyncReceive (s_core s))\<rparr>"
  have "rest_of_task env (Stopping 0) ?s = Inr c" using rest_of_task_step [OF ts_stop_begin [of env s]] assms(1) by simp
  moreover have "joins_at_once ?s"
    using assms(2) by (simp add: joins_at_once_def plugin_at_def count_plugins_def disconnect_def stopAsyncReceive_def)
  ultimately show "computes (task_step env) (Stopping 0) Stopped ?s c" by (intro stop_loop_runs) simp_all
qed

text \<open>The first half of a restart and of a reload, up to the point where the thread has been joined.\<close>

lemma stop_at_runs:
  assumes "stop_at env i (s_core s) = Inr c" and "i < count_plugins s" and "joins_at_once s" and "m_running (plugin_at s i)"
  obtains u where "after_join env i (put_plugin i (stop_running (plugin_at s i)) s) = Inr u" "s_core u = c"
    "m_thread (plugin_at (put_plugin i (stop_running (plugin_at s i)) s) i) \<in> {NoThread, Finished}"
proof -
  from assms(1) stop_at_running [OF assms(2,4), of env] obtain u where
    "after_join env i (put_plugin i (stop_running (plugin_at s i)) s) = Inr u" "s_core u = c"
    by (auto simp: bind_result_Inr_iff)
  with assms(2-4) show thesis by (intro that) (simp_all add: joins_at_once_def)
qed

lemma respawn_runs:
  assumes "spawn_at i (s_core s) = Inr c"
  shows "computes (task_step env) (Restart_Spawn i []) Unoccupied s c"
proof -
  from assms obtain q where q: "i < count_plugins s" "spawn (plugin_at s i) = Inr q" "c = s_core (put_plugin i q s)"
    by (rule spawn_at_Inr)
  show ?thesis
    by (rule computes_step, rule ts_respawn [OF q(1,2)], rule computes_step, rule ts_restarted, simp add: computes_done q(3))
qed

lemma restart_runs:
  assumes "restartPlugin env pid (s_core s) = Inr c" and "joins_at_once s"
  shows "computes (task_step env) (Restarting [pid]) Unoccupied s c"
proof (cases "findPlugin pid (s_core s) = count_plugins s")
  case True
  then have c: "c = s_core s" using assms(1) by (simp add: restartPlugin_def count_plugins_def)
  show ?thesis
    by (rule computes_step, rule ts_unknown [OF True], rule computes_step, rule ts_restarted, simp add: computes_done c)
next
  case False
  obtain i where i: "findPlugin pid (s_core s) = i" by blast
  have lt: "i < count_plugins s" using False findPlugin_le [of pid "s_core s"] i by (simp add: count_plugins_def)
  from assms(1) i False obtain d where d: "stop_at env i (s_core s) = Inr d" "spawn_at i d = Inr c"
    by (auto simp: restartPlugin_def Let_def count_plugins_def bind_result_Inr_iff)
  show ?thesis
  proof (cases "m_running (plugin_at s i)")
    case True
    from stop_at_runs [OF d(1) lt assms(2) True] obtain u where
      u: "after_join env i (put_plugin i (stop_running (plugin_at s i)) s) = Inr u" "s_core u = d"
        "m_thread (plugin_at (put_plugin i (stop_running (plugin_at s i)) s) i) \<in> {NoThread, Finished}" .
    have "task_step env (Restart_Join i [], put_plugin i (stop_running (plugin_at s i)) s) (Restart_Spawn i [], u)"
      using u lt by (intro ts_restart_joined) simp_all
    then show ?thesis
      using respawn_runs [of i u c env] u(2) d(2) by (blast intro: computes_step ts_restart [OF i lt True])
  next
    case False
    from d stop_at_idle [OF lt False, of env] have "spawn_at i (s_core s) = Inr c" by simp
    then show ?thesis by (blast intro: computes_step ts_restart_idle [OF i lt False] respawn_runs)
  qed
qed

lemma replace_runs:
  assumes "bind_result (removePluginAt i (library_entry pid (s_core s))) (\<lambda>c.
     bind_result (loadPlugin env pid c) (\<lambda>(j, d). spawn_at j d)) = Inr c"
  shows "computes (reload_step env) (Reload_Remove i pid []) No_Reload s c"
proof -
  from assms obtain b j d where
    b: "removePluginAt i (library_entry pid (s_core s)) = Inr b" "loadPlugin env pid b = Inr (j, d)" "spawn_at j d = Inr c"
    by (auto simp: bind_result_Inr_iff)
  let ?t = "without_plugin i b s" and ?u = "with_plugin j d (without_plugin i b s)"
  have t: "s_core ?t = b" "s_core ?u = d" by (simp_all add: without_plugin_def with_plugin_def)
  from spawn_at_Inr [of j ?u c] b(3) t obtain q where
    q: "j < count_plugins ?u" "spawn (plugin_at ?u j) = Inr q" "c = s_core (put_plugin j q ?u)" by auto
  have "computes (reload_step env) (Reload_Spawn j []) No_Reload ?u c"
    by (rule computes_step, rule rs_spawn [OF q(1,2)], rule computes_step, rule rs_done, simp add: computes_done q(3))
  moreover have "reload_step env (Reload_Load pid [], ?t) (Reload_Spawn j [], ?u)" using b(2) t by (intro rs_load) simp
  ultimately show ?thesis by (blast intro: computes_step rs_remove [OF b(1)])
qed

lemma reload_runs:
  assumes "reloadPlugin env pid (s_core s) = Inr c" and "joins_at_once s"
  shows "computes (reload_step env) (Reloading [pid]) No_Reload s c"
proof (cases "findPlugin pid (s_core s) = count_plugins s")
  case True
  then have c: "c = s_core s" using assms(1) by (simp add: reloadPlugin_def count_plugins_def)
  show ?thesis
    by (rule computes_step, rule rs_unknown [OF True], rule computes_step, rule rs_done, simp add: computes_done c)
next
  case False
  obtain i where i: "findPlugin pid (s_core s) = i" by blast
  have lt: "i < count_plugins s" using False findPlugin_le [of pid "s_core s"] i by (simp add: count_plugins_def)
  from assms(1) i False obtain d where d: "stop_at env i (s_core s) = Inr d"
    "bind_result (removePluginAt i (library_entry pid d)) (\<lambda>c. bind_result (loadPlugin env pid c) (\<lambda>(j, d). spawn_at j d)) = Inr c"
    by (auto simp: reloadPlugin_def Let_def count_plugins_def bind_result_Inr_iff library_entry_def)
  show ?thesis
  proof (cases "m_running (plugin_at s i)")
    case True
    from stop_at_runs [OF d(1) lt assms(2) True] obtain u where
      u: "after_join env i (put_plugin i (stop_running (plugin_at s i)) s) = Inr u" "s_core u = d"
        "m_thread (plugin_at (put_plugin i (stop_running (plugin_at s i)) s) i) \<in> {NoThread, Finished}" .
    have "reload_step env (Reload_Join i pid [], put_plugin i (stop_running (plugin_at s i)) s) (Reload_Remove i pid [], u)"
      using u lt by (intro rs_joined) simp_all
    then show ?thesis
      using replace_runs [of i pid u env c] u(2) d(2) by (blast intro: computes_step rs_stop [OF i lt True])
  next
    case False
    from d(1) stop_at_idle [OF lt False, of env] have "d = s_core s" by simp
    then show ?thesis using d(2) by (blast intro: computes_step rs_idle [OF i lt False] replace_runs)
  qed
qed

lemma spawn_loop_runs:
  assumes "fold_result spawn_at [i ..< count_plugins s] (s_core s) = Inr c" and "i \<le> count_plugins s"
  shows "computes (task_step env) (Spawning i) Unoccupied s c"
  using assms
proof (induction "count_plugins s - i" arbitrary: i s)
  case 0
  then have "i = count_plugins s" and c: "s_core s = c" by simp_all
  from ts_spawned [OF this(1)] computes_done [OF c] show ?case by (rule computes_step)
next
  case (Suc k)
  then have i: "i < count_plugins s" by simp
  then obtain d where d: "spawn_at i (s_core s) = Inr d" "fold_result spawn_at [Suc i ..< count_plugins s] d = Inr c"
    using Suc.prems(1) by (auto simp: upt_from bind_result_Inr_iff)
  from spawn_at_Inr [OF d(1)] obtain q where q: "spawn (plugin_at s i) = Inr q" "d = s_core (put_plugin i q s)" by auto
  have "computes (task_step env) (Spawning (Suc i)) Unoccupied (put_plugin i q s) c"
    using Suc.hyps(2) i d(2) q(2) by (intro Suc.hyps(1)) simp_all
  with ts_spawn [OF i q(1)] show ?case by (rule computes_step)
qed

lemma load_runs:
  "bind_result (fold_result (load_entry env) es (s_core s)) startPlugins = Inr c \<Longrightarrow>
   computes (task_step env) (Loading es) Unoccupied s c"
proof (induction es arbitrary: s)
  case Nil
  then have "computes (task_step env) (Spawning 0) Unoccupied s c"
    by (intro spawn_loop_runs) (simp_all add: startPlugins_def count_plugins_def)
  with ts_loaded show ?case by (rule computes_step)
next
  case (Cons e es)
  then obtain d where d: "load_entry env e (s_core s) = Inr d"
    "bind_result (fold_result (load_entry env) es d) startPlugins = Inr c"
    by (auto simp: bind_result_assoc bind_result_Inr_iff)
  then have "computes (task_step env) (Loading es) Unoccupied (s\<lparr>s_core := d\<rparr>) c" by (intro Cons.IH) simp
  with ts_load [OF d(1)] show ?case by (rule computes_step)
qed

section \<open>Properties\<close>

text \<open>
  Remark: the steps of the start-up, a stop, a restart and a reload, when no other thread makes a step
  between them and no join has to wait, reach their end exactly if the function of the core returns normally, and
  leave the core that it returns.
\<close>

theorem undisturbed_tasks_are_sequential:
  assumes "joins_at_once s"
  shows "(computes (task_step env)
      (Loading (entries (yaml_ops env) (at_key (yaml_ops env) (core_cfg (s_core s)) ''plugins''))) Unoccupied s c \<longleftrightarrow>
      bind_result (initializePlugins env (s_core s)) startPlugins = Inr c) \<and>
    (computes (task_step env) Stop_Begin Stopped s c \<longleftrightarrow> core_stop env (s_core s) = Inr c) \<and>
    (computes (task_step env) (Restarting [pid]) Unoccupied s c \<longleftrightarrow> restartPlugin env pid (s_core s) = Inr c) \<and>
    (computes (reload_step env) (Reloading [pid]) No_Reload s c \<longleftrightarrow> reloadPlugin env pid (s_core s) = Inr c)"
proof -
  have "bind_result (fold_result (load_entry env) es (s_core s)) startPlugins = Inr c"
    if "computes (task_step env) (Loading es) Unoccupied s c" for es
    using that by (auto simp: computes_def dest: rest_of_task_steps)
  moreover have "core_stop env (s_core s) = Inr c" if "computes (task_step env) Stop_Begin Stopped s c"
    using that by (auto simp: computes_def dest: rest_of_task_steps)
  moreover have "restartPlugin env pid (s_core s) = Inr c" if "computes (task_step env) (Restarting [pid]) Unoccupied s c"
    using that by (auto simp: computes_def bind_result_Inr_iff dest: rest_of_task_steps)
  moreover have "reloadPlugin env pid (s_core s) = Inr c" if "computes (reload_step env) (Reloading [pid]) No_Reload s c"
    using that by (auto simp: computes_def bind_result_Inr_iff dest: rest_of_reload_steps)
  ultimately show ?thesis
    unfolding initializePlugins_def using load_runs stop_runs restart_runs reload_runs assms by blast
qed

section \<open>A concrete run\<close>

theorem undisturbed_tasks_are_sequential_witness:
  "computes (task_step example_env) Stop_Begin Stopped (session (silent_core [Finished]))
     (value_or (Core Undefined) (core_stop example_env (silent_core [Finished])))"
proof -
  have "core_stop example_env (silent_core [Finished]) =
    Inr (value_or (Core Undefined) (core_stop example_env (silent_core [Finished])))"
    by (rule is_ok_value) code_simp
  moreover have "joins_at_once (session (silent_core [Finished]))" by (simp add: joins_at_once_def)
  ultimately show ?thesis using undisturbed_tasks_are_sequential by fastforce
qed

end
