(* ===== verification/Bot_Sessions.thy ===== *)
theory Bot_Sessions
  imports Bot_Core
begin

text \<open>
  One session after another: \<open>Core::run\<close> after the \<open>Core::stop\<close> of a broken connection. \<open>run\<close> replaces
  the promise and the result is kept (\<open>connection_error_sticky\<close>); here it is the parser that goes from
  one connection to the next.
\<close>

section \<open>Operations that leave the parser alone\<close>

lemma m_parser_fold:
  assumes "fold_result f xs c = Inr c'" and "\<And>x s t. f x s = Inr t \<Longrightarrow> m_parser t = m_parser s"
  shows "m_parser c' = m_parser c"
  using fold_result_invariant [OF assms(1), of "\<lambda>s. m_parser s = m_parser c"] assms(2) by metis

lemma m_parser_removePlugin: "removePlugin pid c = Inr c' \<Longrightarrow> m_parser c' = m_parser c"
  by (auto simp: removePlugin_def removePluginAt_def Let_def bind_result_Inr_iff split: if_split_asm)

lemma m_parser_perform: "perform e c = Inr c' \<Longrightarrow> m_parser c' = m_parser c"
  by (cases e) (auto simp: send_message_def send_text_def dest: m_parser_removePlugin)

lemma m_parser_perform_all: "fold_result perform es c = Inr c' \<Longrightarrow> m_parser c' = m_parser c"
  by (erule m_parser_fold) (erule m_parser_perform)

lemma m_parser_stop_at: "stop_at env i c = Inr c' \<Longrightarrow> m_parser c' = m_parser c"
  by (erule stop_at_Inr) (auto dest: m_parser_perform_all)

lemma m_parser_stopPlugins: "stopPlugins env c = Inr c' \<Longrightarrow> m_parser c' = m_parser c"
  unfolding stopPlugins_def by (erule m_parser_fold) (erule m_parser_stop_at)

lemma m_parser_spawn_at: "spawn_at i c = Inr c' \<Longrightarrow> m_parser c' = m_parser c"
  by (auto simp: spawn_at_def bind_result_Inr_iff)

lemma m_parser_startPlugins: "startPlugins c = Inr c' \<Longrightarrow> m_parser c' = m_parser c"
  unfolding startPlugins_def by (erule m_parser_fold) (erule m_parser_spawn_at)

lemma m_parser_loadSoPlugin: "loadSoPlugin env fname cfg c = (p, c') \<Longrightarrow> m_parser c' = m_parser c"
  by (auto simp: loadSoPlugin_def split: option.splits)

lemma m_parser_loadPluginWith: "loadPluginWith env pid cfg c = Inr (i, c') \<Longrightarrow> m_parser c' = m_parser c"
  by (auto simp: loadPluginWith_def Let_def bind_result_Inr_iff addPlugin_def
      split: if_split_asm prod.splits option.splits dest: m_parser_loadSoPlugin)

lemma m_parser_initializePlugins: "initializePlugins env c = Inr c' \<Longrightarrow> m_parser c' = m_parser c"
  unfolding initializePlugins_def
  by (erule m_parser_fold) (auto simp: load_entry_def bind_result_Inr_iff split: prod.splits dest: m_parser_loadPluginWith)

lemma m_parser_connect: "connect env c = Some (Inr c') \<Longrightarrow> m_parser c' = m_parser c"
  by (auto simp: connect_def startAsyncReceive_def Let_def split: sum.splits option.splits)

lemmas m_parser_frames = m_parser_stopPlugins m_parser_startPlugins m_parser_initializePlugins m_parser_connect

lemma m_parser_core_stop:
  assumes "core_stop env c = Inr c'"
  shows "m_parser c' = m_parser c"
proof -
  obtain c1 c2 c3 c4 where s: "stopPlugins env (disconnect (stopAsyncReceive c)) = Inr c1"
    "stopTcpPluginServer env c1 = Inr c2" "deinitializePlugins c2 = Inr c3" "stopAdminPort env c3 = Inr c4"
    "set_value (m_result c4) c4 = Inr c'"
    using assms by (auto simp: core_stop_def bind_result_Inr_iff)
  have "m_parser c1 = m_parser c"
    using m_parser_stopPlugins [OF s(1)] by (simp add: disconnect_def stopAsyncReceive_def)
  moreover have "m_parser c2 = m_parser c1" using s(2) by (auto simp: stopTcpPluginServer_Inr split: option.splits)
  moreover have "m_parser c3 = m_parser c2" using s(3) by (auto simp: deinitializePlugins_def bind_result_Inr_iff)
  moreover have "m_parser c4 = m_parser c3" using s(4) by (auto simp: stopAdminPort_Inr split: option.splits)
  moreover have "m_parser c' = m_parser c4" using s(5) by (auto simp: set_value_def split: promise.splits)
  ultimately show ?thesis by simp
qed

lemma m_parser_core_run: "core_run env c = Some (Inr c') \<Longrightarrow> m_parser c' = m_parser c"
  by (auto simp: core_run_def bind_result_Inr_iff startTcpPluginServer_def startAdminPort_def Let_def
      split: if_split_asm dest!: m_parser_frames)

text \<open>The session ends with an error of the connection, and the next one begins.\<close>

definition reconnect :: "('n, 'x) env \<Rightarrow> ('n, 'x) core \<Rightarrow> ('n, 'x) core result option" where
  "reconnect env c = (case receive_handler env Failed c of Inl e \<Rightarrow> Some (Inl e) | Inr d \<Rightarrow> core_run env d)"

lemma m_parser_reconnect: "reconnect env c = Some (Inr c') \<Longrightarrow> m_parser c' = m_parser c"
  by (auto simp: reconnect_def receive_handler_def Let_def split: sum.splits
      dest!: m_parser_core_run m_parser_core_stop)

section \<open>A line that is cut by the end of a connection\<close>

text \<open>The text of a message up to the colon of its last parameter, when \<open>qs\<close> are the ones before.\<close>

definition line_head :: "irc_message \<Rightarrow> string list \<Rightarrow> string" where
  "line_head m qs = prefix_string m @ command m @ '' '' @ concat (map (\<lambda>q. q @ '' '') qs)"

lemma toString_head:
  "params m = qs @ [l] \<Longrightarrow> toString m False = line_head m qs @ CHR '':'' # l @ [CR, LF]"
  by (simp add: toString_def line_head_def params_string_snoc)

lemma parse_head:
  assumes "idle p" and "canonical_prefix m" and "canonical_command m"
    and "\<forall>q \<in> set qs. q \<noteq> '''' \<and> (\<forall>c \<in> set q. absorbs St_PARAMS c)"
  shows "token_empty_after p (line_head m qs)" and "m_messages (parse p (line_head m qs)) = m_messages p"
proof -
  have "fold lexer_step (prefix_string m @ command m) (p, '''') =
    (p\<lparr>m_state := command_state m, m_tokens := m_tokens p @ prefix_tokens m\<rparr>, command m)"
    using assms(1-3) by (intro lex_prefix_command) (simp_all add: idle_def)
  then have "\<exists>q. fold lexer_step (line_head m qs) (p, '''') = (q, '''') \<and> m_messages q = m_messages p"
    using assms(4) by (simp add: line_head_def lexer_step_COMMAND_end command_state_def lex_middle putToken_def)
  then show "token_empty_after p (line_head m qs)" "m_messages (parse p (line_head m qs)) = m_messages p"
    by (auto simp: token_empty_after_def parse_def lexer_def)
qed

lemma parse_joined:
  assumes "idle p" and "canonical_prefix m" and "canonical_command m" and "line_safe l"
    and "\<forall>q \<in> set qs. q \<noteq> '''' \<and> (\<forall>c \<in> set q. absorbs St_PARAMS c)"
  shows "parse (parse p (line_head m qs)) (CHR '':'' # l @ [CR, LF]) = push_message (m\<lparr>params := qs @ [l]\<rparr>) p"
proof -
  let ?m = "m\<lparr>params := qs @ [l]\<rparr>"
  have "canonical_prefix ?m = canonical_prefix m" "canonical_command ?m = canonical_command m"
    by (simp_all add: canonical_prefix_def canonical_command_def has_prefix_def)
  with assms(2,3) have "canonical_prefix ?m" "canonical_command ?m" by blast+
  moreover have "canonical_params (params ?m)" using assms(4,5) by (simp add: canonical_params_def)
  ultimately have "canonical ?m" by (simp add: canonical_def)
  moreover have "line_head ?m qs = line_head m qs" by (simp add: line_head_def prefix_string_def)
  ultimately have "parse p (line_head m qs @ CHR '':'' # l @ [CR, LF]) = push_message ?m p"
    using lex_line [OF assms(1), of ?m] toString_head [of ?m qs l] by (simp add: parse_def lexer_def)
  with parse_append [OF parse_head(1) [OF assms(1-3,5)]] show ?thesis by simp
qed

text \<open>What a received piece of input does to the plugins.\<close>

lemma receive_plugins:
  assumes "receive_handler env (Received bytes) c = Inr c'"
  shows "m_plugins c' = map (fold deliver (m_messages (parse (m_parser c) bytes))) (m_plugins c)"
    and "m_parser c' = (parse (m_parser c) bytes)\<lparr>m_messages := []\<rparr>"
proof -
  from receive_handler_Received [OF assms] obtain d where
    d: "dispatch_messages (messagesCount (parse (m_parser c) bytes))
      (c\<lparr>receiving := False, m_parser := parse (m_parser c) bytes\<rparr>) = Inr d" "c' = d\<lparr>receiving := True\<rparr>" by blast
  from dispatch_messages_Inr [OF d(1)] d(2)
  show "m_plugins c' = map (fold deliver (m_messages (parse (m_parser c) bytes))) (m_plugins c)"
    "m_parser c' = (parse (m_parser c) bytes)\<lparr>m_messages := []\<rparr>" by simp_all
qed

lemma parser_no_messages: "m_messages p = [] \<Longrightarrow> p\<lparr>m_messages := []\<rparr> = p"
  by (cases p) simp

section \<open>Properties\<close>

text \<open>
  Remark: a connection that breaks between two lines does no harm to the next one: the plugins of the
  new session are given exactly the messages of its lines, in order.
\<close>

theorem reconnect_after_whole_lines:
  assumes "idle (m_parser c)" and "m_messages (m_parser c) = []"
    and "\<forall>m \<in> set ms. canonical m" and "\<forall>n \<in> set ns. canonical n"
    and "receive_handler env (Received (concat (map (\<lambda>m. toString m False) ms))) c = Inr c1"
    and "reconnect env c1 = Some (Inr c2)"
    and "receive_handler env (Received (concat (map (\<lambda>n. toString n False) ns))) c2 = Inr c3"
  shows "m_plugins c3 = map (fold deliver ns) (m_plugins c2)"
proof -
  have "m_parser c2 = m_parser c"
    using m_parser_reconnect [OF assms(6)] stream_to_plugins(2) [OF assms(1,2,3,5)] by simp
  with assms(1,2) have "idle (m_parser c2)" "m_messages (m_parser c2) = []" by simp_all
  from stream_to_plugins(1) [OF this assms(4,7)] show ?thesis .
qed

text \<open>
  C16: the parser is not reset between sessions. A connection that breaks inside the parameters of a
  line swallows the first line of the next one when that line has a prefix, as the lines of a server do: its text becomes
  the last parameter of the interrupted message, under the sender and the command of that message.
\<close>

theorem reconnect_merges_lines:
  assumes "idle (m_parser c)" and "m_messages (m_parser c) = []"
    and "canonical_prefix m" and "canonical_command m"
    and "\<forall>q \<in> set qs. q \<noteq> '''' \<and> (\<forall>x \<in> set q. absorbs St_PARAMS x)"
    and "receive_handler env (Received (line_head m qs)) c = Inr c1"
    and "reconnect env c1 = Some (Inr c2)"
    and "toString n False = CHR '':'' # l @ [CR, LF]" and "line_safe l"
    and "receive_handler env (Received (toString n False)) c2 = Inr c3"
  shows "m_plugins c1 = m_plugins c \<and> m_plugins c3 = map (deliver (m\<lparr>params := qs @ [l]\<rparr>)) (m_plugins c2)"
proof -
  let ?h = "parse (m_parser c) (line_head m qs)"
  have h: "m_messages ?h = []" using parse_head(2) [OF assms(1,3-5)] assms(2) by simp
  with receive_plugins [OF assms(6)] have c1: "m_plugins c1 = m_plugins c" "m_parser c1 = ?h"
    by (simp_all add: parser_no_messages)
  with m_parser_reconnect [OF assms(7)] have "m_parser c2 = ?h" by simp
  with parse_joined [OF assms(1,3,4,9,5)] assms(2,8)
  have "m_messages (parse (m_parser c2) (toString n False)) = [m\<lparr>params := qs @ [l]\<rparr>]"
    by (simp add: push_message_def)
  with receive_plugins(1) [OF assms(10)] c1(1) show ?thesis by simp
qed


section \<open>A concrete reconnection\<close>

definition example_sender :: irc_message where
  "example_sender = (IRCMessage ''PRIVMSG'' [''#chan'', ''hi''])\<lparr>nick := ''joe'', user := ''j'', host := ''home''\<rparr>"

definition example_notice :: irc_message where
  "example_notice = (IRCMessage ''NOTICE'' [''bot'', ''welcome''])\<lparr>servername := ''irc.example.com''\<rparr>"

text \<open>The state after some input, and the state of the session after that.\<close>

definition after_input :: "string \<Rightarrow> (yaml_node, nat) core \<Rightarrow> (yaml_node, nat) core" where
  "after_input bytes c = value_or (Core Undefined) (receive_handler tolerant_env (Received bytes) c)"

definition reconnected :: "(yaml_node, nat) core \<Rightarrow> (yaml_node, nat) core" where
  "reconnected c = rerun tolerant_env (failed tolerant_env c)"

definition cut_session :: "(yaml_node, nat) core" where
  "cut_session = after_input (line_head example_sender [''#chan'']) example_core"

definition whole_session :: "(yaml_node, nat) core" where
  "whole_session = after_input (concat (map (\<lambda>m. toString m False) [example_ping])) example_core"

lemma after_inputs:
  "receive_handler tolerant_env (Received (line_head example_sender [''#chan''])) example_core = Inr cut_session"
  "receive_handler tolerant_env (Received (concat (map (\<lambda>m. toString m False) [example_ping]))) example_core =
     Inr whole_session"
  "receive_handler tolerant_env (Received (toString example_notice False)) (reconnected cut_session) =
     Inr (after_input (toString example_notice False) (reconnected cut_session))"
  "receive_handler tolerant_env (Received (concat (map (\<lambda>m. toString m False) [example_ping]))) (reconnected whole_session) =
     Inr (after_input (concat (map (\<lambda>m. toString m False) [example_ping])) (reconnected whole_session))"
  unfolding cut_session_def whole_session_def after_input_def by (rule is_ok_value, code_simp)+

lemma example_reconnect:
  assumes "is_ok (receive_handler tolerant_env Failed c)"
    and "core_cfg (failed tolerant_env c) = example_core_config"
    and "is_ok (after_connect tolerant_env (running (failed tolerant_env c)))"
  shows "reconnect tolerant_env c = Some (Inr (reconnected c))"
proof -
  have "receive_handler tolerant_env Failed c = Inr (failed tolerant_env c)"
    unfolding failed_def using assms(1) by (rule is_ok_value)
  with example_run_from [OF assms(2) disjI2 [OF refl] assms(3)] show ?thesis
    by (simp add: reconnect_def reconnected_def rerun_def)
qed

lemma reconnects:
  "reconnect tolerant_env cut_session = Some (Inr (reconnected cut_session))"
  "reconnect tolerant_env whole_session = Some (Inr (reconnected whole_session))"
  by (rule example_reconnect; code_simp)+

lemma example_core_parser: "idle (m_parser example_core)" "m_messages (m_parser example_core) = []"
proof -
  have p: "m_parser example_core = new_IRCParser" by code_simp
  show "idle (m_parser example_core)" "m_messages (m_parser example_core) = []"
    unfolding p by (rule idle_new) (simp add: new_IRCParser_def)
qed

lemma reconnected_plugins: "map m_id (m_plugins (reconnected cut_session)) = [''base'']"
  "map m_id (m_plugins (reconnected whole_session)) = [''base'']"
  by code_simp+

theorem reconnect_after_whole_lines_witness:
  "m_plugins (after_input (toString example_ping False) (reconnected whole_session)) =
     map (deliver example_ping) (m_plugins (reconnected whole_session))"
  using reconnect_after_whole_lines [OF example_core_parser _ _ after_inputs(2) reconnects(2) after_inputs(4)]
    canonical_examples(2) by simp

theorem reconnect_merges_lines_witness:
  "m_plugins (after_input (toString example_notice False) (reconnected cut_session)) =
     map (deliver (example_sender\<lparr>params := [''#chan'', ''irc.example.com NOTICE bot :welcome'']\<rparr>))
       (m_plugins (reconnected cut_session))"
proof -
  have "canonical_prefix example_sender" "canonical_command example_sender"
    by (simp_all add: example_sender_def canonical_prefix_def canonical_command_def has_prefix_def is_alpha_def)
  moreover have "toString example_notice False = CHR '':'' # ''irc.example.com NOTICE bot :welcome'' @ [CR, LF]"
    by code_simp
  moreover have "line_safe ''irc.example.com NOTICE bot :welcome''" by (simp add: line_safe_def)
  ultimately show ?thesis
    using reconnect_merges_lines [OF example_core_parser _ _ _ after_inputs(1) reconnects(1) _ _ after_inputs(3)]
    by simp
qed

end
