(* ===== verification/Tcp_Plugin.thy ===== *)
theory Tcp_Plugin
  imports Bot_Core
begin

text \<open>
  Plugins that connect over TCP: the messages of the plugin protocol (protobuf/*.proto),
  \<open>TcpPlugin\<close> (source/tcp_plugin.cpp) and \<open>TcpPluginServer\<close> (source/tcp_plugin_server.cpp). The
  wire format is that of the generated protobuf code, a parameter of the definitions.
\<close>

section \<open>The plugin protocol\<close>

datatype message_type = INIT_REQUEST | INIT_RESPONSE | IRC_MESSAGE | CONTROL_REQUEST | CONTROL_RESPONSE

datatype init_status = STATUS_OK | STATUS_ERROR

datatype control_type = INIT | SHUTDOWN | RELOAD | RESTART

record control_request =
  cr_type :: control_type
  cr_msg :: "string option"
  cr_code :: "32 word option"

text \<open>The \<open>oneof\<close> of \<open>Message\<close>.\<close>

datatype payload =
    NoPayload
  | InitReq string string
  | InitResp init_status
  | IrcMsg pb_irc_message
  | CtrlReq control_request
  | CtrlResp

record pb_message =
  msg_type :: message_type
  msg_data :: payload

text \<open>
  \<open>SerializeToString\<close> of a \<open>Message\<close> and of a bare \<open>ControlRequest\<close>; \<open>ParseFromString\<close> of a
  \<open>Message\<close>: its return value and the object afterwards.
\<close>

record codec =
  ser_message :: "pb_message \<Rightarrow> string"
  ser_control :: "control_request \<Rightarrow> string"
  parse_message :: "string \<Rightarrow> bool \<times> pb_message"

text \<open>Reading back what was serialized.\<close>

definition codec_roundtrip :: "codec \<Rightarrow> bool" where
  "codec_roundtrip k \<longleftrightarrow> (\<forall>m. parse_message k (ser_message k m) = (True, m))"

text \<open>
  Field 1 of both messages is a required enumeration with the same encoding: the bytes of a
  \<open>ControlRequest\<close> that has only its type are those of a \<open>Message\<close> that has only the type with
  the same number.
\<close>

fun same_number :: "control_type \<Rightarrow> message_type" where
  "same_number INIT = INIT_REQUEST"
| "same_number SHUTDOWN = INIT_RESPONSE"
| "same_number RELOAD = IRC_MESSAGE"
| "same_number RESTART = CONTROL_REQUEST"

definition shared_first_field :: "codec \<Rightarrow> bool" where
  "shared_first_field k \<longleftrightarrow> (\<forall>t. parse_message k (ser_control k \<lparr>cr_type = t, cr_msg = None, cr_code = None\<rparr>) =
     (True, \<lparr>msg_type = same_number t, msg_data = NoPayload\<rparr>))"

definition toProtobuf :: "irc_message \<Rightarrow> pb_irc_message" where
  "toProtobuf m = \<lparr>pb_servername = servername m, pb_user = user m, pb_nick = nick m, pb_host = host m,
     pb_command = command m, pb_params = params m\<rparr>"

lemma fromProtobuf_toProtobuf: "fromProtobuf (toProtobuf m) = m"
  by (cases m) (intro irc_message.equality; simp add: toProtobuf_def)

section \<open>State\<close>

text \<open>
  \<open>tp_ready\<close>: \<open>m_ready_for_shutdown\<close> has its value; \<open>tp_future_taken\<close>: its future has been taken.
  \<open>tp_sent\<close> is what has been written to the socket.
\<close>

record tcp_plugin =
  tp_name :: string
  tp_socket_open :: bool
  tp_receiving :: bool
  tp_timer :: bool
  tp_ready :: bool
  tp_future_taken :: bool
  tp_sent :: "string list"

definition sendToPlugin :: "string \<Rightarrow> ('n, tcp_plugin) handler" where
  "sendToPlugin msg = modify (\<lambda>x. if tp_socket_open x then x\<lparr>tp_sent := tp_sent x @ [msg]\<rparr> else x)"

definition sendInitResponse :: "codec \<Rightarrow> init_status \<Rightarrow> ('n, tcp_plugin) handler" where
  "sendInitResponse k status = sendToPlugin (ser_message k \<lparr>msg_type = INIT_RESPONSE, msg_data = InitResp status\<rparr>)"

definition sendControlRequest :: "codec \<Rightarrow> control_type \<Rightarrow> string \<Rightarrow> 32 word \<Rightarrow> ('n, tcp_plugin) handler" where
  "sendControlRequest k t req_msg code = sendToPlugin (ser_message k \<lparr>msg_type = CONTROL_REQUEST,
     msg_data = CtrlReq \<lparr>cr_type = t, cr_msg = (if req_msg \<noteq> '''' then Some req_msg else None),
       cr_code = (if code > 0 then Some code else None)\<rparr>\<rparr>)"

section \<open>Virtual functions\<close>

text \<open>The request is serialized by itself, not inside a \<open>Message\<close>; a closed socket throws.\<close>

definition TcpPlugin_onInit :: "codec \<Rightarrow> ('n, tcp_plugin) handler" where
  "TcpPlugin_onInit k = reading (\<lambda>w.
     if tp_socket_open (object w) then
       modify (\<lambda>x. x\<lparr>tp_sent := tp_sent x @ [ser_control k \<lparr>cr_type = INIT, cr_msg = None, cr_code = None\<rparr>]\<rparr>)
     else throw (SystemError ''send''))"

definition TcpPlugin_onMessage :: "codec \<Rightarrow> irc_message \<Rightarrow> ('n, tcp_plugin) handler" where
  "TcpPlugin_onMessage k msg =
     sendToPlugin (ser_message k \<lparr>msg_type = IRC_MESSAGE, msg_data = IrcMsg (toProtobuf msg)\<rparr>)"

text \<open>
  \<open>m_ready_for_shutdown.get_future().get()\<close> waits for the receive handler, which runs on the I/O
  thread: on that thread itself nothing can end the wait. On another thread it ends when the peer
  closes the connection (\<open>peer_closes\<close>).
\<close>

definition wait_ready :: "bool \<Rightarrow> bool \<Rightarrow> ('n, tcp_plugin) handler" where
  "wait_ready on_io_thread peer_closes = reading (\<lambda>w.
     if tp_future_taken (object w) then throw FutureError
     else andThen (modify (\<lambda>x. x\<lparr>tp_future_taken := True\<rparr>))
       (if tp_ready (object w) then skip
        else if on_io_thread \<or> \<not> peer_closes then throw BlockedForever
        else modify (\<lambda>x. x\<lparr>tp_ready := True\<rparr>)))"

definition TcpPlugin_onShutdown :: "codec \<Rightarrow> bool \<Rightarrow> bool \<Rightarrow> string \<Rightarrow> ('n, tcp_plugin) handler" where
  "TcpPlugin_onShutdown k on_io_thread peer_closes pid =
     andThen (modify (\<lambda>x. x\<lparr>tp_timer := False\<rparr>)) (reading (\<lambda>w.
       if \<not> tp_socket_open (object w) then skip
       else andThen (sendControlRequest k SHUTDOWN '''' 0)
         (andThen (wait_ready on_io_thread peer_closes)
         (andThen (modify (\<lambda>x. x\<lparr>tp_socket_open := False, tp_receiving := False\<rparr>))
           (emit (RemovePlugin pid))))))"

definition TcpPlugin_class :: "codec \<Rightarrow> bool \<Rightarrow> bool \<Rightarrow> string \<Rightarrow> ('n, tcp_plugin) plugin_class" where
  "TcpPlugin_class k on_io_thread peer_closes pid = \<lparr>getName = tp_name, onInit = TcpPlugin_onInit k,
     onMessage = TcpPlugin_onMessage k, onNewConfiguration = skip,
     onShutdown = TcpPlugin_onShutdown k on_io_thread peer_closes pid,
     filter_message = (\<lambda>_ _. Inr True)\<rparr>"

definition defaultName :: "string \<Rightarrow> nat \<Rightarrow> string" where
  "defaultName address port = ''tcp_plugin:'' @ address @ '':'' @ to_string port"

text \<open>The constructor starts receiving and the initialization timer.\<close>

definition TcpPlugin ::
  "codec \<Rightarrow> bool \<Rightarrow> bool \<Rightarrow> 'n plugin_config \<Rightarrow> string \<Rightarrow> nat \<Rightarrow> ('n, tcp_plugin) plugin" where
  "TcpPlugin k on_io_thread peer_closes config address port =
     Plugin (TcpPlugin_class k on_io_thread peer_closes (pc_id config))
       \<lparr>tp_name = defaultName address port, tp_socket_open = True, tp_receiving = True, tp_timer = True,
        tp_ready = False, tp_future_taken = False, tp_sent = []\<rparr> config"

section \<open>Handlers on the I/O thread\<close>

text \<open>The outcome of a step on a plugin: the plugin, its effects and the fault, if any.\<close>

type_synonym 'n outcome = "('n, tcp_plugin) plugin \<times> plugin_effect list \<times> fault option"

definition run_then ::
  "int \<Rightarrow> ('n, tcp_plugin) handler \<Rightarrow> (('n, tcp_plugin) plugin \<Rightarrow> 'n outcome) \<Rightarrow> ('n, tcp_plugin) plugin \<Rightarrow> 'n outcome" where
  "run_then u h k p = (case run_handler u h p of
     (q, es, Some f) \<Rightarrow> (q, es, Some f)
   | (q, es, None) \<Rightarrow> (case k q of (r, es', f) \<Rightarrow> (r, es @ es', f)))"

definition spawn_outcome :: "('n, tcp_plugin) plugin \<Rightarrow> 'n outcome" where
  "spawn_outcome p = (case spawn p of Inl f \<Rightarrow> (p, [], Some f) | Inr q \<Rightarrow> (q, [], None))"

text \<open>\<open>auth\<close> is what \<open>authenticatePlugin\<close> returns for a token.\<close>

definition processInitRequest ::
  "codec \<Rightarrow> int \<Rightarrow> (string \<Rightarrow> bool result) \<Rightarrow> string \<Rightarrow> string \<Rightarrow> ('n, tcp_plugin) plugin \<Rightarrow> 'n outcome" where
  "processInitRequest k u auth name token p = (case auth token of
     Inl f \<Rightarrow> (p, [], Some f)
   | Inr True \<Rightarrow> run_then u (andThen (modify (\<lambda>x. x\<lparr>tp_name := name, tp_timer := False\<rparr>))
       (sendInitResponse k STATUS_OK)) spawn_outcome p
   | Inr False \<Rightarrow> run_then u (sendInitResponse k STATUS_ERROR) (stop u) p)"

definition processIrcMessage :: "int \<Rightarrow> pb_irc_message \<Rightarrow> ('n, tcp_plugin) plugin \<Rightarrow> 'n outcome" where
  "processIrcMessage u m p = run_handler u (send (fromProtobuf m)) p"

definition parseMessage ::
  "codec \<Rightarrow> int \<Rightarrow> (string \<Rightarrow> bool result) \<Rightarrow> string \<Rightarrow> ('n, tcp_plugin) plugin \<Rightarrow> 'n outcome" where
  "parseMessage k u auth data p = (case parse_message k data of
     (False, _) \<Rightarrow> (p, [], None)
   | (True, m) \<Rightarrow>
       (case msg_type m of
          INIT_REQUEST \<Rightarrow> (case msg_data m of InitReq name token \<Rightarrow> processInitRequest k u auth name token p
                           | _ \<Rightarrow> (p, [], None))
        | IRC_MESSAGE \<Rightarrow> (case msg_data m of IrcMsg pb \<Rightarrow> processIrcMessage u pb p | _ \<Rightarrow> (p, [], None))
        | _ \<Rightarrow> (p, [], None)))"

text \<open>The receive handler; both error branches end in \<open>set_value\<close> and \<open>stop\<close>.\<close>

definition tcp_receive_handler ::
  "codec \<Rightarrow> int \<Rightarrow> (string \<Rightarrow> bool result) \<Rightarrow> receive_event \<Rightarrow> ('n, tcp_plugin) plugin \<Rightarrow> 'n outcome" where
  "tcp_receive_handler k u auth ev p = (case ev of
     Received data \<Rightarrow> (case parseMessage k u auth data p of
         (q, es, None) \<Rightarrow> (q\<lparr>m_object := (m_object q)\<lparr>tp_receiving := True\<rparr>\<rparr>, es, None)
       | (q, es, Some f) \<Rightarrow> (q, es, Some f))
   | _ \<Rightarrow> (if tp_ready (m_object p) then (p, [], Some FutureError)
           else stop u (p\<lparr>m_object := (m_object p)\<lparr>tp_receiving := False, tp_ready := True\<rparr>\<rparr>)))"

text \<open>The initialization timer, five seconds after the connection.\<close>

definition init_timer_handler :: "int \<Rightarrow> bool \<Rightarrow> ('n, tcp_plugin) plugin \<Rightarrow> 'n outcome" where
  "init_timer_handler u aborted p = (if aborted then (p, [], None) else stop u p)"

section \<open>The plugin server\<close>

definition plugin_id_for :: "string \<Rightarrow> nat \<Rightarrow> string" where
  "plugin_id_for h port = ''tcp_plugin_'' @ h @ '':'' @ to_string port"

definition initializePlugin ::
  "codec \<Rightarrow> bool \<Rightarrow> bool \<Rightarrow> 'n \<Rightarrow> string \<Rightarrow> nat \<Rightarrow> ('n, tcp_plugin) core \<Rightarrow> ('n, tcp_plugin) core" where
  "initializePlugin k on_io_thread peer_closes null h port c =
     snd (addPlugin (TcpPlugin k on_io_thread peer_closes \<lparr>pc_id = plugin_id_for h port, pc_config = null\<rparr> h port) c)"

text \<open>The accept handler: \<open>True\<close> when it waits for another connection.\<close>

definition plugin_accept_handler ::
  "codec \<Rightarrow> bool \<Rightarrow> bool \<Rightarrow> 'n \<Rightarrow> string \<Rightarrow> nat \<Rightarrow> receive_event \<Rightarrow> ('n, tcp_plugin) core \<Rightarrow> bool \<times> ('n, tcp_plugin) core" where
  "plugin_accept_handler k on_io_thread peer_closes null h port ev c = (case ev of
     Received _ \<Rightarrow> (True, initializePlugin k on_io_thread peer_closes null h port c)
   | Aborted \<Rightarrow> (False, c)
   | Failed \<Rightarrow> (True, c))"


section \<open>Lemmas\<close>

lemma sendToPlugin_exec [handler_simps]:
  "sendToPlugin s w = (None, w\<lparr>object := (if tp_socket_open (object w)
     then (object w)\<lparr>tp_sent := tp_sent (object w) @ [s]\<rparr> else object w)\<rparr>)"
  by (simp add: sendToPlugin_def handler_simps)

text \<open>A plugin as it is between its construction and its authentication.\<close>

definition fresh_tcp :: "codec \<Rightarrow> bool \<Rightarrow> bool \<Rightarrow> ('n, tcp_plugin) plugin \<Rightarrow> bool" where
  "fresh_tcp k io peer p \<longleftrightarrow> m_class p = TcpPlugin_class k io peer (m_id p) \<and> m_running p \<and>
     m_thread p = NoThread \<and> tp_socket_open (m_object p) \<and> \<not> tp_ready (m_object p) \<and>
     \<not> tp_future_taken (m_object p)"

lemma fresh_TcpPlugin: "fresh_tcp k io peer (TcpPlugin k io peer config address port)"
  by (simp add: fresh_tcp_def TcpPlugin_def Plugin_def)

definition shutdown_bytes :: "codec \<Rightarrow> string" where
  "shutdown_bytes k = ser_message k \<lparr>msg_type = CONTROL_REQUEST,
     msg_data = CtrlReq \<lparr>cr_type = SHUTDOWN, cr_msg = None, cr_code = None\<rparr>\<rparr>"

text \<open>Stopping a connected plugin whose receive handler has not finished.\<close>

lemma stop_blocks:
  assumes "m_class p = TcpPlugin_class k True peer pid" and "m_running p" and "tp_socket_open (m_object p)"
    and "\<not> tp_ready (m_object p)" and "\<not> tp_future_taken (m_object p)"
  shows "\<exists>q. stop u p = (q, [], Some BlockedForever) \<and>
    tp_sent (m_object q) = tp_sent (m_object p) @ [shutdown_bytes k]"
  using assms
  by (simp add: stop_def run_handler_def TcpPlugin_class_def TcpPlugin_onShutdown_def wait_ready_def andThen_def
      handler_simps sendControlRequest_def shutdown_bytes_def)

text \<open>And one whose receive handler has ended, or will end on the I/O thread.\<close>

lemma stop_removes:
  assumes "m_class p = TcpPlugin_class k io peer pid" and "m_running p" and "tp_socket_open (m_object p)"
    and "tp_ready (m_object p) \<or> (\<not> io \<and> peer)" and "\<not> tp_future_taken (m_object p)"
  shows "\<exists>q. stop u p = (q, [RemovePlugin pid], None) \<and> m_id q = m_id p \<and> m_thread q = NoThread"
  using assms
  by (auto simp: stop_def run_handler_def TcpPlugin_class_def TcpPlugin_onShutdown_def wait_ready_def andThen_def
      handler_simps sendControlRequest_def)

lemma perform_all_shrinks:
  "fold_result perform es c = Inr c' \<Longrightarrow> length (m_plugins c') \<le> length (m_plugins c) \<and>
     (length (m_plugins c') = length (m_plugins c) \<longrightarrow> m_plugins c' = m_plugins c)"
proof (induction es arbitrary: c)
  case (Cons e es)
  then obtain d where d: "perform e c = Inr d" "fold_result perform es d = Inr c'"
    by (auto simp: bind_result_Inr_iff)
  have "length (m_plugins d) \<le> length (m_plugins c) \<and>
      (length (m_plugins d) = length (m_plugins c) \<longrightarrow> m_plugins d = m_plugins c)"
  proof (cases e)
    case (RemovePlugin pid)
    with d(1) removePlugin_effect [of pid c d] show ?thesis by (auto split: if_split_asm)
  qed (use d(1) in auto)
  with Cons.IH [OF d(2)] show ?case by auto
qed simp

lemma stop_at_other:
  assumes "stop_at env j c = Inr c'" and "i \<noteq> j"
  shows "m_plugins c' ! i = m_plugins c ! i"
proof -
  from assms(1) obtain p q es where s: "fold_result perform es (c\<lparr>m_plugins := (m_plugins c)[j := q]\<rparr>) = Inr c'"
    "length (m_plugins c') = length (m_plugins c)" by (rule stop_at_Inr)
  from perform_all_shrinks [OF s(1)] s(2) assms(2) show ?thesis by simp
qed

lemma stop_range_other:
  "fold_result (stop_at env) js c = Inr c' \<Longrightarrow> i \<notin> set js \<Longrightarrow>
     m_plugins c' ! i = m_plugins c ! i \<and> length (m_plugins c') = length (m_plugins c)"
  by (induction js arbitrary: c) (auto simp: bind_result_Inr_iff stop_at_other length_stop_at)

lemma stop_at_removing:
  assumes "i < length (m_plugins c)" and "stop (uptime_now env) (m_plugins c ! i) = (q, [RemovePlugin (m_id q)], None)"
  shows "\<exists>e. stop_at env i c = Inl e"
proof (cases "stop_at env i c")
  case (Inr c')
  let ?d = "c\<lparr>m_plugins := (m_plugins c)[i := q]\<rparr>"
  from Inr assms have "removePlugin (m_id q) ?d = Inr c'" "length (m_plugins c') = length (m_plugins c)"
    by (auto simp: stop_at_def vec_at_def bind_result_Inr_iff split: if_split_asm)
  then have "m_id q \<notin> m_id ` set (m_plugins ?d)"
    using removePlugin_effect(2) [of "m_id q" ?d c'] by simp
  moreover have "q \<in> set (m_plugins ?d)" using assms(1) by (simp add: set_update_memI)
  ultimately show ?thesis by blast
qed simp

section \<open>Properties\<close>

text \<open>
  C26: a client that connects and sends a wrong token, or sends nothing for five seconds,
  blocks the I/O thread for ever: the handler stops the plugin, whose shutdown waits for a value
  that only a handler on the same thread could provide.
\<close>

theorem tcp_rejected_plugin_blocks_core:
  assumes "fresh_tcp k True peer p"
    and "parse_message k data = (True, \<lparr>msg_type = INIT_REQUEST, msg_data = InitReq name token\<rparr>)"
    and "auth token = Inr False"
  shows "(\<exists>q. tcp_receive_handler k u auth (Received data) p = (q, [], Some BlockedForever) \<and>
      tp_sent (m_object q) = tp_sent (m_object p) @
        [ser_message k \<lparr>msg_type = INIT_RESPONSE, msg_data = InitResp STATUS_ERROR\<rparr>, shutdown_bytes k]) \<and>
    (\<exists>q. init_timer_handler u False p = (q, [], Some BlockedForever))"
proof -
  let ?p = "p\<lparr>m_object := (m_object p)\<lparr>tp_sent := tp_sent (m_object p) @
      [ser_message k \<lparr>msg_type = INIT_RESPONSE, msg_data = InitResp STATUS_ERROR\<rparr>]\<rparr>\<rparr>"
  have "run_handler u (sendInitResponse k STATUS_ERROR) p = (?p, [], None)"
    using assms(1) by (simp add: run_handler_def sendInitResponse_def handler_simps fresh_tcp_def)
  moreover obtain q where "stop u ?p = (q, [], Some BlockedForever)"
    "tp_sent (m_object q) = tp_sent (m_object ?p) @ [shutdown_bytes k]"
    using stop_blocks [of ?p k peer "m_id p" u] assms(1) by (auto simp: fresh_tcp_def)
  ultimately have "tcp_receive_handler k u auth (Received data) p = (q, [], Some BlockedForever)"
    "tp_sent (m_object q) = tp_sent (m_object ?p) @ [shutdown_bytes k]"
    using assms(2,3) by (simp_all add: tcp_receive_handler_def parseMessage_def processInitRequest_def run_then_def)
  moreover have "\<exists>q. init_timer_handler u False p = (q, [], Some BlockedForever)"
    using stop_blocks [of p k peer "m_id p" u] assms(1) by (auto simp: init_timer_handler_def fresh_tcp_def)
  ultimately show ?thesis by (auto simp del: init_timer_handler_def)
qed

text \<open>
  Remark: authentication is not required to speak for the bot: whatever the token check would say,
  an \<open>IRC_MESSAGE\<close> on a connection that was never authenticated is sent to the server.
\<close>

theorem tcp_unauthenticated_send:
  assumes "fresh_tcp k io peer p"
    and "parse_message k data = (True, \<lparr>msg_type = IRC_MESSAGE, msg_data = IrcMsg (toProtobuf msg)\<rparr>)"
  shows "\<exists>q. tcp_receive_handler k u auth (Received data) p = (q, [Send msg], None) \<and> fresh_tcp k io peer q"
  using assms
  by (simp add: tcp_receive_handler_def parseMessage_def processIrcMessage_def run_handler_def handler_simps
      fromProtobuf_toProtobuf fresh_tcp_def)

text \<open>
  Remark: a plugin that sends its initialization request again after it was accepted makes the core
  spawn a second thread into a joinable \<open>std::thread\<close>, which ends the process.
\<close>

theorem tcp_second_init_terminates:
  assumes "fresh_tcp k io peer p" and "auth token = Inr True"
    and "parse_message k data = (True, \<lparr>msg_type = INIT_REQUEST, msg_data = InitReq name token\<rparr>)"
  shows "\<exists>q r. tcp_receive_handler k u auth (Received data) p = (q, [], None) \<and> name_of q = name \<and>
    m_thread q = Starting \<and> tcp_receive_handler k u auth (Received data) q = (r, [], Some Terminate)"
  using assms
  by (simp add: tcp_receive_handler_def parseMessage_def processInitRequest_def run_then_def run_handler_def
      handler_simps sendInitResponse_def spawn_outcome_def spawn_def fresh_tcp_def name_of_def
      TcpPlugin_class_def)

text \<open>
  C27: a connected plugin makes the stop of the core fail even from another thread and with a peer
  that cooperates: the plugin removes itself from the list that \<open>stopPlugins\<close> iterates over.
\<close>

theorem tcp_plugin_breaks_core_stop:
  assumes "i < length (m_plugins c)" and "m_plugins c ! i = p" and "fresh_tcp k False True p"
  shows "\<exists>e. stopPlugins env c = Inl e"
proof (cases "stopPlugins env c")
  case (Inr c')
  let ?n = "length (m_plugins c)"
  have "[0 ..< ?n] = [0 ..< i] @ i # [Suc i ..< ?n]"
    using assms(1) upt_add_eq_append [of 0 i "?n - i"] upt_conv_Cons [of i ?n] by simp
  with Inr obtain d d' where d: "fold_result (stop_at env) [0 ..< i] c = Inr d" "stop_at env i d = Inr d'"
    by (auto simp: stopPlugins_def fold_result_append bind_result_Inr_iff)
  from stop_range_other [OF d(1), of i] assms(1,2)
  have p: "m_plugins d ! i = p" "i < length (m_plugins d)" by auto
  obtain q where "stop (uptime_now env) p = (q, [RemovePlugin (m_id p)], None)" "m_id q = m_id p"
    using stop_removes [of p k False True "m_id p"] assms(3) by (auto simp: fresh_tcp_def)
  with p stop_at_removing [of i d env q] d(2) show ?thesis by auto
qed simp

section \<open>A concrete encoding\<close>

text \<open>
  An instance of the parameter that has both assumed properties: the key of field 1, the number of
  the type, then a tag and the fields. A character of a string is preceded by 1, and 0 ends a string
  or a list.
\<close>

definition type_byte :: "message_type \<Rightarrow> char" where
  "type_byte t = (case t of INIT_REQUEST \<Rightarrow> CHR 0x01 | INIT_RESPONSE \<Rightarrow> CHR 0x02 | IRC_MESSAGE \<Rightarrow> CHR 0x03
     | CONTROL_REQUEST \<Rightarrow> CHR 0x04 | CONTROL_RESPONSE \<Rightarrow> CHR 0x05)"

definition type_of_byte :: "char \<Rightarrow> message_type" where
  "type_of_byte x = (if x = CHR 0x01 then INIT_REQUEST else if x = CHR 0x02 then INIT_RESPONSE
     else if x = CHR 0x03 then IRC_MESSAGE else if x = CHR 0x04 then CONTROL_REQUEST else CONTROL_RESPONSE)"

fun enc_string :: "string \<Rightarrow> string" where
  "enc_string [] = [NUL]"
| "enc_string (x # xs) = CHR 0x01 # x # enc_string xs"

fun dec_string :: "string \<Rightarrow> string \<times> string" where
  "dec_string [] = ([], [])"
| "dec_string [x] = ([], [])"
| "dec_string (x # y # r) = (if x = NUL then ([], y # r) else (case dec_string r of (s, t) \<Rightarrow> (y # s, t)))"

fun enc_list :: "string list \<Rightarrow> string" where
  "enc_list [] = [NUL]"
| "enc_list (x # xs) = CHR 0x01 # enc_string x @ enc_list xs"

fun dec_list :: "nat \<Rightarrow> string \<Rightarrow> string list \<times> string" where
  "dec_list 0 r = ([], r)"
| "dec_list (Suc n) [] = ([], [])"
| "dec_list (Suc n) (x # r) = (if x = NUL then ([], r)
     else (case dec_string r of (s, t) \<Rightarrow> (case dec_list n t of (ss, u) \<Rightarrow> (s # ss, u))))"

fun enc_optional :: "string option \<Rightarrow> string list" where
  "enc_optional None = []"
| "enc_optional (Some s) = [s]"

definition control_byte :: "control_type \<Rightarrow> string" where
  "control_byte t = [type_byte (same_number t)]"

definition control_of_byte :: "string \<Rightarrow> control_type" where
  "control_of_byte s = (case type_of_byte (hd s) of INIT_REQUEST \<Rightarrow> INIT | INIT_RESPONSE \<Rightarrow> SHUTDOWN
     | IRC_MESSAGE \<Rightarrow> RELOAD | _ \<Rightarrow> RESTART)"

text \<open>A payload as a tag and a list of strings.\<close>

fun payload_fields :: "payload \<Rightarrow> string list" where
  "payload_fields NoPayload = []"
| "payload_fields (InitReq n t) = [''q'', n, t]"
| "payload_fields (InitResp STATUS_OK) = [''r'', ''1'']"
| "payload_fields (InitResp STATUS_ERROR) = [''r'', ''2'']"
| "payload_fields (IrcMsg pb) =
     [''i'', pb_servername pb, pb_user pb, pb_nick pb, pb_host pb, pb_command pb] @ pb_params pb"
| "payload_fields (CtrlReq r) = (case cr_msg r of None \<Rightarrow> ''c'' | Some _ \<Rightarrow> ''d'') # control_byte (cr_type r) #
     enc_optional (cr_msg r) @ enc_optional (map_option (\<lambda>v. to_string (unat v)) (cr_code r))"
| "payload_fields CtrlResp = [''s'']"

definition code_of :: "string list \<Rightarrow> 32 word option" where
  "code_of ss = (case ss of [] \<Rightarrow> None | v # _ \<Rightarrow> Some (word_of_int (digits_value v)))"

definition payload_of :: "string list \<Rightarrow> payload" where
  "payload_of ss = (case ss of [] \<Rightarrow> NoPayload
     | tag # r \<Rightarrow>
         if tag = ''q'' then InitReq (r ! 0) (r ! 1)
         else if tag = ''r'' then InitResp (if r ! 0 = ''1'' then STATUS_OK else STATUS_ERROR)
         else if tag = ''i'' then IrcMsg \<lparr>pb_servername = r ! 0, pb_user = r ! 1, pb_nick = r ! 2, pb_host = r ! 3,
           pb_command = r ! 4, pb_params = drop 5 r\<rparr>
         else if tag = ''c'' then CtrlReq \<lparr>cr_type = control_of_byte (r ! 0), cr_msg = None, cr_code = code_of (drop 1 r)\<rparr>
         else if tag = ''d'' then CtrlReq \<lparr>cr_type = control_of_byte (r ! 0), cr_msg = Some (r ! 1), cr_code = code_of (drop 2 r)\<rparr>
         else CtrlResp)"

definition wire_codec :: codec where
  "wire_codec = \<lparr>ser_message = (\<lambda>m. CHR 0x08 # type_byte (msg_type m) #
       (if msg_data m = NoPayload then '''' else enc_list (payload_fields (msg_data m)))),
     ser_control = (\<lambda>r. [CHR 0x08, type_byte (same_number (cr_type r))]),
     parse_message = (\<lambda>s. case s of
         key # t # r \<Rightarrow> (True, \<lparr>msg_type = type_of_byte t,
           msg_data = (if r = '''' then NoPayload else payload_of (fst (dec_list (length r) r)))\<rparr>)
       | _ \<Rightarrow> (False, \<lparr>msg_type = INIT_REQUEST, msg_data = NoPayload\<rparr>))\<rparr>"

lemma type_of_byte [simp]: "type_of_byte (type_byte t) = t"
  by (cases t) (simp_all add: type_of_byte_def type_byte_def)

lemma control_of_byte [simp]: "control_of_byte (control_byte t) = t"
  by (cases t) (simp_all add: control_of_byte_def control_byte_def)

lemma dec_enc_string: "r \<noteq> [] \<Longrightarrow> dec_string (enc_string s @ r) = (s, r)"
proof (induction s)
  case Nil
  then show ?case by (cases r) simp_all
qed simp

lemma enc_list_nonempty [simp]: "enc_list ss \<noteq> []"
  by (cases ss) simp_all

lemma dec_enc_list: "length ss < n \<Longrightarrow> dec_list n (enc_list ss @ r) = (ss, r)"
proof (induction ss arbitrary: n)
  case Nil
  then show ?case by (cases n) simp_all
next
  case (Cons s ss)
  then obtain k where "n = Suc k" "length ss < k" by (cases n) auto
  with Cons.IH [of k] show ?case by (simp add: dec_enc_string)
qed

lemma length_enc_list: "length ss < length (enc_list ss)"
  by (induction ss) simp_all

lemma payload_of_fields: "d \<noteq> NoPayload \<Longrightarrow> payload_of (payload_fields d) = d"
proof (cases d)
  case (InitResp st)
  then show ?thesis by (cases st) (simp_all add: payload_of_def)
next
  case (CtrlReq r)
  then show ?thesis
    by (cases r; cases "cr_msg r"; cases "cr_code r")
      (simp_all add: payload_of_def code_of_def digits_value_to_string)
qed (simp_all add: payload_of_def)

lemma wire_roundtrip: "codec_roundtrip wire_codec"
proof -
  have "parse_message wire_codec (ser_message wire_codec m) = (True, m)" for m
  proof (cases "msg_data m = NoPayload")
    case True
    then show ?thesis by (cases m) (simp add: wire_codec_def)
  next
    case False
    have "dec_list (length (enc_list (payload_fields (msg_data m)))) (enc_list (payload_fields (msg_data m))) =
        (payload_fields (msg_data m), [])"
      using dec_enc_list [OF length_enc_list, of "payload_fields (msg_data m)" "[]"] by simp
    then show ?thesis
      using payload_of_fields [OF False] False by (cases m) (simp add: wire_codec_def)
  qed
  then show ?thesis by (simp add: codec_roundtrip_def)
qed

lemma wire_shared_first_field: "shared_first_field wire_codec"
  by (simp add: shared_first_field_def wire_codec_def)

abbreviation (input) init_bytes :: string where
  "init_bytes \<equiv> ser_message wire_codec \<lparr>msg_type = INIT_REQUEST, msg_data = InitReq ''p'' ''secret''\<rparr>"

abbreviation (input) irc_bytes :: string where
  "irc_bytes \<equiv> ser_message wire_codec
     \<lparr>msg_type = IRC_MESSAGE, msg_data = IrcMsg (toProtobuf (IRCMessage ''QUIT'' [''bye'']))\<rparr>"

definition example_tcp :: "(yaml_node, tcp_plugin) plugin" where
  "example_tcp = TcpPlugin wire_codec True True \<lparr>pc_id = ''tcp'', pc_config = Undefined\<rparr> ''127.0.0.1'' 4000"

lemma example_parses:
  "parse_message wire_codec init_bytes = (True, \<lparr>msg_type = INIT_REQUEST, msg_data = InitReq ''p'' ''secret''\<rparr>)"
  "parse_message wire_codec irc_bytes =
     (True, \<lparr>msg_type = IRC_MESSAGE, msg_data = IrcMsg (toProtobuf (IRCMessage ''QUIT'' [''bye'']))\<rparr>)"
  using wire_roundtrip by (simp_all add: codec_roundtrip_def)

lemma fresh_example: "fresh_tcp wire_codec True True example_tcp"
  unfolding example_tcp_def by (rule fresh_TcpPlugin)

theorem tcp_rejected_plugin_blocks_core_witness:
  "\<exists>q. tcp_receive_handler wire_codec 0 (\<lambda>_. Inr False) (Received init_bytes) example_tcp =
     (q, [], Some BlockedForever)"
  using tcp_rejected_plugin_blocks_core [OF fresh_example example_parses(1), of "\<lambda>_. Inr False" 0] by auto

theorem tcp_unauthenticated_send_witness:
  "\<exists>q. tcp_receive_handler wire_codec 0 (\<lambda>_. Inr False) (Received irc_bytes) example_tcp =
     (q, [Send (IRCMessage ''QUIT'' [''bye''])], None)"
  using tcp_unauthenticated_send [OF fresh_example example_parses(2), of 0 "\<lambda>_. Inr False"] by auto

theorem tcp_second_init_terminates_witness:
  "\<exists>q r. tcp_receive_handler wire_codec 0 (\<lambda>_. Inr True) (Received init_bytes) example_tcp = (q, [], None) \<and>
     tcp_receive_handler wire_codec 0 (\<lambda>_. Inr True) (Received init_bytes) q = (r, [], Some Terminate)"
  using tcp_second_init_terminates [OF fresh_example _ example_parses(1), of "\<lambda>_. Inr True" 0] by auto

definition tcp_env :: "(yaml_node, tcp_plugin) env" where
  "tcp_env = \<lparr>yaml_ops = yaml_tree, resolves = (\<lambda>_ _. True), attempt = (\<lambda>_. True), extension = (\<lambda>_. ''.so''),
     dlopen = (\<lambda>_. None), getPlugin = (\<lambda>_ _. None), acceptor_cancel = (\<lambda>_. None),
     open_plugin_server = (\<lambda>_ _. None), open_admin_port = (\<lambda>_. None), uptime_now = 0\<rparr>"

theorem tcp_plugin_breaks_core_stop_witness:
  "\<exists>e. stopPlugins tcp_env (initializePlugin wire_codec False True Undefined ''127.0.0.1'' 4000 (Core Undefined)) = Inl e"
  by (rule tcp_plugin_breaks_core_stop [where i = 0, OF _ refl, of _ wire_codec])
     (simp_all add: initializePlugin_def addPlugin_def Core_def fresh_TcpPlugin)

end
