(* ===== verification/Py_Bot.thy ===== *)
theory Py_Bot
  imports Tcp_Plugin
begin

text \<open>
  \<open>pyircbot::Bot\<close> (include/pyircbot/bot.hpp, pyircbot/bot.cpp): the other end of the plugin protocol, which
  a Python plugin uses. The callbacks of the plugin are recorded as the calls made to them.
\<close>

section \<open>State\<close>

datatype callback = OnInit | OnMessage irc_message | OnShutdown | OnRestart | OnReload

text \<open>The callbacks of \<open>pyircbot::Plugin\<close> that are set.\<close>

record py_plugin =
  py_name :: string
  py_token :: string
  has_onInit :: bool
  has_onMessage :: bool
  has_onShutdown :: bool
  has_onRestart :: bool
  has_onReload :: bool

text \<open>
  The socket is closed, open, or open and connected. \<open>bot_receiving\<close>: a receive is pending;
  \<open>bot_io_thread\<close>: the thread object is joinable; \<open>bot_io_stopped\<close>: the \<open>io_service\<close> is in its stopped
  state. \<open>bot_output\<close>: the lines written to the standard streams.
\<close>

record bot =
  hostname :: string
  port :: "16 word"
  m_plugin :: py_plugin
  bot_socket_open :: bool
  bot_socket_connected :: bool
  bot_receiving :: bool
  bot_io_thread :: bool
  bot_io_stopped :: bool
  m_started :: bool
  bot_sent :: "string list"
  calls :: "callback list"
  bot_output :: "string list"

definition Bot :: "string \<Rightarrow> 16 word \<Rightarrow> py_plugin \<Rightarrow> bot" where
  "Bot hn pt plugin = \<lparr>hostname = hn, port = pt, m_plugin = plugin, bot_socket_open = False,
     bot_socket_connected = False, bot_receiving = False, bot_io_thread = False, bot_io_stopped = False,
     m_started = False, bot_sent = [], calls = [], bot_output = []\<rparr>"

definition connected :: "bot \<Rightarrow> bool" where
  "connected b \<longleftrightarrow> bot_socket_open b"

definition isRunning :: "bot \<Rightarrow> bool" where
  "isRunning b \<longleftrightarrow> m_started b"

text \<open>
  What the operating system answers: whether the name resolves and whether the connection is made.
  An operation returns the bot as it leaves it, and the exception it ends with.
\<close>

record network =
  resolves :: "string \<Rightarrow> 16 word \<Rightarrow> bool"
  reachable :: "string \<Rightarrow> 16 word \<Rightarrow> bool"

definition then_do :: "bot \<times> fault option \<Rightarrow> (bot \<Rightarrow> bot \<times> fault option) \<Rightarrow> bot \<times> fault option" where
  "then_do r f = (case r of (b, None) \<Rightarrow> f b | (b, Some x) \<Rightarrow> (b, Some x))"

definition bot_connect :: "network \<Rightarrow> bot \<Rightarrow> bot \<times> fault option" where
  "bot_connect net b =
     (if \<not> resolves net (hostname b) (port b) then (b, Some (SystemError ''resolve''))
      else let was_connected = bot_socket_connected b; b = b\<lparr>bot_socket_open := True\<rparr> in
        if was_connected \<or> \<not> reachable net (hostname b) (port b) then (b, Some (SystemError ''connect''))
        else (b\<lparr>bot_socket_connected := True\<rparr>, None))"

definition bot_send :: "string \<Rightarrow> bot \<Rightarrow> bot \<times> fault option" where
  "bot_send data b =
     (if bot_socket_connected b then (b\<lparr>bot_sent := bot_sent b @ [data]\<rparr>, None)
      else (b, Some (SystemError ''send'')))"

definition sendIrcMessage :: "codec \<Rightarrow> irc_message \<Rightarrow> bot \<Rightarrow> bot \<times> fault option" where
  "sendIrcMessage k msg b =
     bot_send (ser_message k \<lparr>msg_type = IRC_MESSAGE, msg_data = IrcMsg (toProtobuf msg)\<rparr>) b"

definition initialize :: "codec \<Rightarrow> string \<Rightarrow> string \<Rightarrow> bot \<Rightarrow> bot \<times> fault option" where
  "initialize k name token b =
     bot_send (ser_message k \<lparr>msg_type = INIT_REQUEST, msg_data = InitReq name token\<rparr>) b"

definition bot_receive :: "bot \<Rightarrow> bot" where
  "bot_receive b = b\<lparr>bot_receiving := True\<rparr>"

text \<open>Assigning to a joinable thread ends the process.\<close>

definition bot_start :: "codec \<Rightarrow> network \<Rightarrow> bot \<Rightarrow> bot \<times> fault option" where
  "bot_start k net b =
     then_do (bot_connect net (b\<lparr>m_started := True\<rparr>)) (\<lambda>b.
     then_do (initialize k (py_name (m_plugin b)) (py_token (m_plugin b)) b) (\<lambda>b.
     let b = bot_receive b in
     if bot_io_thread b then (b, Some Terminate) else (b\<lparr>bot_io_thread := True\<rparr>, None)))"

text \<open>
  Shutting down a socket that is not connected throws. The pending receive is cancelled: its handler
  runs later, with \<open>operation_aborted\<close>.
\<close>

definition bot_stop :: "bot \<Rightarrow> bot \<times> fault option" where
  "bot_stop b = (let b = b\<lparr>m_started := False\<rparr> in
     if bot_socket_open b then
       (if bot_socket_connected b then (b\<lparr>bot_socket_open := False, bot_socket_connected := False\<rparr>, None)
        else (b, Some (SystemError ''shutdown'')))
     else (b, None))"

text \<open>\<open>join\<close> returns when the thread's function has: \<open>None\<close> while \<open>run\<close> still has work.\<close>

definition bot_wait :: "bot \<Rightarrow> bot option" where
  "bot_wait b =
     (if bot_io_thread b then (if bot_io_stopped b then Some (b\<lparr>bot_io_thread := False\<rparr>) else None) else Some b)"

text \<open>The destructor: an exception that leaves it ends the process; otherwise it waits.\<close>

definition bot_destroy :: "bot \<Rightarrow> bot option result" where
  "bot_destroy b =
     (case (if m_started b then bot_stop b else (b, None)) of
        (_, Some _) \<Rightarrow> Inl Terminate
      | (b, None) \<Rightarrow> Inr (bot_wait b))"

definition print_line :: "string \<Rightarrow> bot \<Rightarrow> bot" where
  "print_line s b = b\<lparr>bot_output := bot_output b @ [s]\<rparr>"

definition call :: "bool \<Rightarrow> callback \<Rightarrow> bot \<Rightarrow> bot" where
  "call is_set f b = (if is_set then b\<lparr>calls := calls b @ [f]\<rparr> else b)"

section \<open>Received messages\<close>

definition ircMessage :: "pb_irc_message \<Rightarrow> bot \<Rightarrow> bot" where
  "ircMessage pb b = (if \<not> has_onMessage (m_plugin b) then b
     else call True (OnMessage (fromProtobuf pb)) b)"

definition controlRequest :: "control_request \<Rightarrow> bot \<Rightarrow> bot \<times> fault option" where
  "controlRequest req b = (case cr_type req of
     INIT \<Rightarrow> (call (has_onInit (m_plugin b)) OnInit b, None)
   | SHUTDOWN \<Rightarrow> bot_stop (call (has_onShutdown (m_plugin b)) OnShutdown b)
   | RELOAD \<Rightarrow> (call (has_onReload (m_plugin b)) OnReload b, None)
   | RESTART \<Rightarrow> (call (has_onRestart (m_plugin b)) OnRestart b, None))"

definition initResponse :: "init_status \<Rightarrow> bot \<Rightarrow> bot" where
  "initResponse st b =
     (if st = STATUS_OK then print_line ''Plugin has been initialized successfully!'' b
      else print_line ''some error occurred during initialization!'' b)"

text \<open>
  The accessors of an unset part of the \<open>oneof\<close> return a default object: an empty message, and a
  control request or a status of which the enumeration is its first value.
\<close>

definition irc_msg_of :: "pb_message \<Rightarrow> pb_irc_message" where
  "irc_msg_of m = (case msg_data m of IrcMsg pb \<Rightarrow> pb | _ \<Rightarrow> toProtobuf empty_message)"

definition ctrl_req_of :: "pb_message \<Rightarrow> control_request" where
  "ctrl_req_of m = (case msg_data m of CtrlReq r \<Rightarrow> r
     | _ \<Rightarrow> \<lparr>cr_type = INIT, cr_msg = None, cr_code = None\<rparr>)"

definition init_resp_of :: "pb_message \<Rightarrow> init_status" where
  "init_resp_of m = (case msg_data m of InitResp st \<Rightarrow> st | _ \<Rightarrow> STATUS_OK)"

text \<open>The return value of \<open>ParseFromString\<close> is ignored.\<close>

definition bot_parse :: "codec \<Rightarrow> string \<Rightarrow> bot \<Rightarrow> bot \<times> fault option" where
  "bot_parse k data b = (let m = snd (parse_message k data) in case msg_type m of
     INIT_RESPONSE \<Rightarrow> (initResponse (init_resp_of m) b, None)
   | IRC_MESSAGE \<Rightarrow> (ircMessage (irc_msg_of m) b, None)
   | CONTROL_REQUEST \<Rightarrow> controlRequest (ctrl_req_of m) b
   | INIT_REQUEST \<Rightarrow> (b, None)
   | CONTROL_RESPONSE \<Rightarrow> (b, None))"

text \<open>
  The handler of \<open>receive\<close>. \<open>Failed\<close> stands for every other error, \<open>eof\<close> among them, for which another
  text is printed.
\<close>

definition bot_receive_handler :: "codec \<Rightarrow> bool \<Rightarrow> receive_event \<Rightarrow> bot \<Rightarrow> bot \<times> fault option" where
  "bot_receive_handler k is_eof ev b = (let b = b\<lparr>bot_receiving := False\<rparr> in case ev of
     Received data \<Rightarrow> then_do (bot_parse k data b) (\<lambda>b. (bot_receive b, None))
   | Aborted \<Rightarrow> (print_line ''Receiving has been canceled.'' b, None)
   | Failed \<Rightarrow> (print_line (if is_eof then ''Connection closed!''
       else ''An error occurred. Message could not be received!'') b, None))"

section \<open>The I/O thread\<close>

text \<open>
  \<open>io_service::run\<close> executes the handlers that become ready until no operation is pending; the service
  is then stopped, and stays so until it is reset: a later \<open>run\<close> returns at once. An exception that
  leaves \<open>run\<close> ends the thread's function and the process.
\<close>

definition io_turn :: "codec \<Rightarrow> bool \<Rightarrow> receive_event \<Rightarrow> bot \<Rightarrow> bot \<times> fault option" where
  "io_turn k is_eof ev b =
     (if bot_io_thread b \<and> \<not> bot_io_stopped b \<and> bot_receiving b then
        (case bot_receive_handler k is_eof ev b of
           (b, Some _) \<Rightarrow> (b, Some Terminate)
         | (b, None) \<Rightarrow> (if bot_receiving b then b else b\<lparr>bot_io_stopped := True\<rparr>, None))
      else (b, None))"

text \<open>What a program does with a bot, and the turns of its I/O thread; an exception is caught.\<close>

datatype bot_action =
    Start
  | Stop
  | Wait
  | SendMessage irc_message
  | Turn bool receive_event

fun bot_act :: "codec \<Rightarrow> network \<Rightarrow> bot_action \<Rightarrow> bot \<Rightarrow> bot" where
  "bot_act k net Start b = fst (bot_start k net b)"
| "bot_act k net Stop b = fst (bot_stop b)"
| "bot_act k net Wait b = (case bot_wait b of Some b' \<Rightarrow> b' | None \<Rightarrow> b)"
| "bot_act k net (SendMessage msg) b = fst (sendIrcMessage k msg b)"
| "bot_act k net (Turn is_eof ev) b = fst (io_turn k is_eof ev b)"

lemmas bot_operation_defs = bot_start_def bot_connect_def bot_send_def sendIrcMessage_def initialize_def
  bot_receive_def bot_stop_def bot_wait_def io_turn_def then_do_def Let_def

lemma bot_act_stopped:
  assumes "bot_io_stopped b"
  shows "bot_io_stopped (bot_act k net a b) \<and> calls (bot_act k net a b) = calls b"
  using assms by (cases a) (auto simp: bot_operation_defs)

section \<open>Properties\<close>

text \<open>
  Remark: an IRC message crosses the plugin connection unchanged in both directions: what
  \<open>TcpPlugin\<close> writes for a message makes the bot call \<open>onMessage\<close> with that message, and what the bot
  writes makes the core send it.
\<close>

theorem tcp_irc_messages_both_ways:
  assumes "codec_roundtrip k" and "tp_socket_open (object w)" and "has_onMessage (m_plugin b)"
    and "bot_socket_connected b"
  shows "(\<exists>bytes w'. TcpPlugin_onMessage k msg w = (None, w') \<and>
      tp_sent (object w') = tp_sent (object w) @ [bytes] \<and>
      calls (fst (bot_parse k bytes b)) = calls b @ [OnMessage msg]) \<and>
    (\<exists>bytes b'. sendIrcMessage k msg b = (b', None) \<and> bot_sent b' = bot_sent b @ [bytes] \<and>
      (\<forall>u auth p. parseMessage k u auth bytes p = run_handler u (send msg) p))"
proof -
  let ?m = "\<lparr>msg_type = IRC_MESSAGE, msg_data = IrcMsg (toProtobuf msg)\<rparr>"
  have r: "parse_message k (ser_message k ?m) = (True, ?m)"
    using assms(1) by (simp add: codec_roundtrip_def)
  have "\<exists>w'. TcpPlugin_onMessage k msg w = (None, w') \<and>
      tp_sent (object w') = tp_sent (object w) @ [ser_message k ?m]"
    using assms(2) by (simp add: TcpPlugin_onMessage_def handler_simps)
  moreover have "calls (fst (bot_parse k (ser_message k ?m) b)) = calls b @ [OnMessage msg]"
    using assms(3) by (simp add: bot_parse_def r ircMessage_def irc_msg_of_def call_def fromProtobuf_toProtobuf)
  moreover have "\<exists>b'. sendIrcMessage k msg b = (b', None) \<and> bot_sent b' = bot_sent b @ [ser_message k ?m]"
    using assms(4) by (simp add: sendIrcMessage_def bot_send_def)
  moreover have "parseMessage k u auth (ser_message k ?m) p = run_handler u (send msg) p" for u auth p
    by (simp add: parseMessage_def r processIrcMessage_def fromProtobuf_toProtobuf)
  ultimately show ?thesis by blast
qed

text \<open>
  Remark: what \<open>TcpPlugin\<close> writes when its thread starts is not understood as an
  \<open>INIT\<close> request: the bare \<open>ControlRequest\<close> reads as a message of another type, the bot ignores it,
  and \<open>onInit\<close> is never called.
\<close>

theorem py_onInit_never_called:
  assumes "shared_first_field k" and "tp_socket_open (object w)"
  shows "\<exists>bytes w'. TcpPlugin_onInit k w = (None, w') \<and> tp_sent (object w') = tp_sent (object w) @ [bytes] \<and>
    bot_parse k bytes b = (b, None)"
  using assms
  by (simp add: TcpPlugin_onInit_def handler_simps bot_parse_def shared_first_field_def)

text \<open>
  Remark: a shutdown request of the core reaches the callback, once, and closes the bot's connection.
\<close>

theorem py_shutdown_handled:
  assumes "codec_roundtrip k" and "has_onShutdown (m_plugin b)" and "bot_socket_open b" and "bot_socket_connected b"
  shows "calls (fst (bot_parse k (shutdown_bytes k) b)) = calls b @ [OnShutdown] \<and>
    \<not> connected (fst (bot_parse k (shutdown_bytes k) b)) \<and> \<not> isRunning (fst (bot_parse k (shutdown_bytes k) b))"
proof -
  have "parse_message k (shutdown_bytes k) = (True, \<lparr>msg_type = CONTROL_REQUEST,
     msg_data = CtrlReq \<lparr>cr_type = SHUTDOWN, cr_msg = None, cr_code = None\<rparr>\<rparr>)"
    using assms(1) by (simp add: codec_roundtrip_def shutdown_bytes_def)
  then show ?thesis
    using assms(2-4) by (simp add: bot_parse_def controlRequest_def ctrl_req_of_def call_def bot_stop_def
        Let_def connected_def isRunning_def)
qed


lemma fold_stopped:
  "bot_io_stopped b \<Longrightarrow> calls (fold (bot_act k net) acts b) = calls b"
  using bot_act_stopped by (induction acts arbitrary: b) simp_all

text \<open>
  C34: a bot that was started, stopped and waited for can be started again: it connects, registers
  once more and reports that it runs. But its \<open>io_service\<close> is never reset, so the new I/O thread ends at
  once: whatever then arrives and whatever the program does, no callback is ever called.
\<close>

theorem bot_runs_once:
  fixes k :: codec and net :: network and plugin :: py_plugin
  assumes "resolves net hn pt" and "reachable net hn pt"
  defines "restarted \<equiv> fold (bot_act k net) [Start, Stop, Turn False Aborted, Wait, Start] (Bot hn pt plugin)"
  shows "isRunning restarted \<and> connected restarted \<and> length (bot_sent restarted) = 2 \<and>
    calls (fold (bot_act k net) acts restarted) = []"
proof -
  have "isRunning restarted \<and> connected restarted \<and> length (bot_sent restarted) = 2 \<and> bot_io_stopped restarted \<and>
      calls restarted = []"
    using assms(1,2)
    by (simp add: restarted_def Bot_def bot_operation_defs bot_receive_handler_def print_line_def isRunning_def connected_def)
  then show ?thesis by (simp add: fold_stopped)
qed

text \<open>
  Remark: when the core does not accept the connection, \<open>start\<close> throws and leaves a bot that
  reports to be running and connected; sending fails, and destroying it ends the process.
\<close>

theorem failed_start_ends_process:
  assumes "resolves net hn pt" and "\<not> reachable net hn pt"
  shows "\<exists>b. bot_start k net (Bot hn pt plugin) = (b, Some (SystemError ''connect'')) \<and> isRunning b \<and> connected b \<and>
    (\<forall>msg. snd (sendIrcMessage k msg b) \<noteq> None) \<and> bot_destroy b = Inl Terminate"
  using assms by (simp add: Bot_def bot_operation_defs bot_destroy_def isRunning_def connected_def)

text \<open>
  Remark: after a shutdown request of the core the receive that follows fails on the closed socket, the I/O
  thread ends, and the destructor returns.
\<close>

theorem py_shutdown_ends_bot:
  fixes k :: codec and net :: network and b :: bot
  assumes "codec_roundtrip k" and "bot_io_thread b" and "\<not> bot_io_stopped b" and "bot_receiving b"
    and "bot_socket_open b" and "bot_socket_connected b"
  defines "ended \<equiv> fold (bot_act k net) [Turn False (Received (shutdown_bytes k)), Turn False Failed] b"
  shows "\<not> isRunning ended \<and> \<not> connected ended \<and> (\<exists>b'. bot_destroy ended = Inr (Some b') \<and> \<not> bot_io_thread b')"
proof -
  have "parse_message k (shutdown_bytes k) = (True, \<lparr>msg_type = CONTROL_REQUEST,
     msg_data = CtrlReq \<lparr>cr_type = SHUTDOWN, cr_msg = None, cr_code = None\<rparr>\<rparr>)"
    using assms(1) by (simp add: codec_roundtrip_def shutdown_bytes_def)
  then show ?thesis
    using assms(2-6)
    by (simp add: ended_def bot_operation_defs bot_receive_handler_def bot_parse_def controlRequest_def ctrl_req_of_def
        call_def print_line_def bot_destroy_def isRunning_def connected_def)
qed


lemma stopped_service_still_runs:
  "bot_io_stopped b \<Longrightarrow> isRunning b \<Longrightarrow> a \<noteq> Stop \<Longrightarrow> isRunning (bot_act k net a b)"
  by (cases a) (auto simp: isRunning_def bot_operation_defs)

lemma fold_stopped_running:
  "bot_io_stopped b \<Longrightarrow> isRunning b \<Longrightarrow> Stop \<notin> set acts \<Longrightarrow> isRunning (fold (bot_act k net) acts b)"
  using stopped_service_still_runs bot_act_stopped by (induction acts arbitrary: b) auto

text \<open>
  Remark: when the core goes away, the receive handler prints a line and nothing else. The bot goes
  on reporting that it is connected and, until the program itself stops it, that it is running, but no
  callback is ever called again: a loop \<open>while bot.isRunning()\<close> never ends.
\<close>

theorem lost_connection_unnoticed:
  fixes k :: codec and net :: network and b :: bot
  assumes "isRunning b" and "connected b" and "bot_io_thread b" and "bot_receiving b" and "\<not> bot_io_stopped b"
    and "Stop \<notin> set acts"
  defines "lost \<equiv> bot_act k net (Turn True Failed) b"
  shows "connected lost \<and> bot_output lost = bot_output b @ [''Connection closed!''] \<and>
    isRunning (fold (bot_act k net) acts lost) \<and> calls (fold (bot_act k net) acts lost) = calls b"
proof -
  have "bot_io_stopped lost \<and> isRunning lost \<and> connected lost \<and> calls lost = calls b \<and>
      bot_output lost = bot_output b @ [''Connection closed!'']"
    using assms(1-5)
    by (simp add: lost_def bot_operation_defs bot_receive_handler_def print_line_def isRunning_def connected_def)
  then show ?thesis using fold_stopped [of lost] fold_stopped_running [OF _ _ assms(6)] by simp
qed


section \<open>Concrete bots\<close>

definition example_bot :: bot where
  "example_bot = (Bot ''localhost'' 5454 \<lparr>py_name = ''p'', py_token = ''secret'', has_onInit = True,
     has_onMessage = True, has_onShutdown = True, has_onRestart = False, has_onReload = False\<rparr>)
       \<lparr>bot_socket_open := True, bot_socket_connected := True, m_started := True\<rparr>"

definition tcp_world :: "(yaml_node, tcp_plugin) world" where
  "tcp_world = \<lparr>w_config = Undefined, w_uptime = 0, object = m_object example_tcp, effects = []\<rparr>"

lemma tcp_world_open: "tp_socket_open (object tcp_world)"
  by (simp add: tcp_world_def example_tcp_def TcpPlugin_def Plugin_def)

theorem tcp_irc_messages_both_ways_witness:
  "\<exists>bytes w'. TcpPlugin_onMessage wire_codec example_ping tcp_world = (None, w') \<and>
     tp_sent (object w') = tp_sent (object tcp_world) @ [bytes] \<and>
     calls (fst (bot_parse wire_codec bytes example_bot)) = [OnMessage example_ping]"
proof -
  have b: "has_onMessage (m_plugin example_bot)" "bot_socket_connected example_bot" "calls example_bot = []"
    by (simp_all add: example_bot_def Bot_def)
  from tcp_irc_messages_both_ways [OF wire_roundtrip tcp_world_open b(1,2), of example_ping] b(3)
  show ?thesis by auto
qed

theorem py_onInit_never_called_witness:
  "\<exists>bytes w'. TcpPlugin_onInit wire_codec tcp_world = (None, w') \<and>
     tp_sent (object w') = tp_sent (object tcp_world) @ [bytes] \<and>
     bot_parse wire_codec bytes example_bot = (example_bot, None)"
  by (rule py_onInit_never_called [OF wire_shared_first_field tcp_world_open])

theorem py_shutdown_handled_witness:
  "calls (fst (bot_parse wire_codec (shutdown_bytes wire_codec) example_bot)) = [OnShutdown] \<and>
   \<not> connected (fst (bot_parse wire_codec (shutdown_bytes wire_codec) example_bot))"
  using py_shutdown_handled [OF wire_roundtrip, of example_bot] by (simp add: example_bot_def Bot_def)

definition listening :: network where
  "listening = \<lparr>resolves = (\<lambda>_ _. True), reachable = (\<lambda>_ pt. pt = 5454)\<rparr>"

theorem bot_runs_once_witness:
  "calls (fold (bot_act wire_codec listening)
     [Start, Stop, Turn False Aborted, Wait, Start, Turn False (Received (shutdown_bytes wire_codec))]
     (Bot ''localhost'' 5454 (m_plugin example_bot))) = []"
  using bot_runs_once [of listening "''localhost''" 5454 wire_codec "m_plugin example_bot"
    "[Turn False (Received (shutdown_bytes wire_codec))]"]
  by (simp add: listening_def)

theorem failed_start_ends_process_witness:
  "\<exists>b. bot_start wire_codec listening (Bot ''localhost'' 80 (m_plugin example_bot)) = (b, Some (SystemError ''connect'')) \<and>
     bot_destroy b = Inl Terminate"
  using failed_start_ends_process [of listening "''localhost''" 80 wire_codec "m_plugin example_bot"]
  by (auto simp: listening_def)

theorem py_shutdown_ends_bot_witness:
  "\<not> isRunning (fold (bot_act wire_codec listening)
     [Turn False (Received (shutdown_bytes wire_codec)), Turn False Failed]
     (example_bot\<lparr>bot_io_thread := True, bot_receiving := True\<rparr>))"
  using py_shutdown_ends_bot [OF wire_roundtrip, of "example_bot\<lparr>bot_io_thread := True, bot_receiving := True\<rparr>" listening]
  by (simp add: example_bot_def Bot_def)

theorem lost_connection_unnoticed_witness:
  "isRunning (fold (bot_act wire_codec listening) [Wait, Turn False (Received ''x'')]
     (bot_act wire_codec listening (Turn True Failed) (example_bot\<lparr>bot_io_thread := True, bot_receiving := True\<rparr>)))"
  using lost_connection_unnoticed [of "example_bot\<lparr>bot_io_thread := True, bot_receiving := True\<rparr>"
    "[Wait, Turn False (Received ''x'')]" wire_codec listening]
  by (simp add: example_bot_def Bot_def isRunning_def connected_def del: bot_act.simps)

end
