(* ===== verification/Plugin_Stream.thy ===== *)
theory Plugin_Stream
  imports Py_Bot
begin

text \<open>
  The plugin protocol on a byte stream. Both ends write one serialized message after another and
  parse whatever a read returns, without a length or a separator between messages; protobuf reads
  the concatenation of messages as one message, their merge. Here is what that does to messages that
  arrive together.
\<close>

section \<open>Merging\<close>

text \<open>
  What protobuf documents for concatenated messages: the last value of a singular field counts,
  embedded messages are merged, repeated fields are concatenated, and another member of a
  \<open>oneof\<close> replaces the one before.
\<close>

fun merge_payload :: "payload \<Rightarrow> payload \<Rightarrow> payload" where
  "merge_payload d NoPayload = d"
| "merge_payload (IrcMsg x) (IrcMsg y) = IrcMsg (y\<lparr>pb_params := pb_params x @ pb_params y\<rparr>)"
| "merge_payload (CtrlReq x) (CtrlReq y) = CtrlReq \<lparr>cr_type = cr_type y,
     cr_msg = (if cr_msg y = None then cr_msg x else cr_msg y),
     cr_code = (if cr_code y = None then cr_code x else cr_code y)\<rparr>"
| "merge_payload d e = e"

definition merge_message :: "pb_message \<Rightarrow> pb_message \<Rightarrow> pb_message" where
  "merge_message m n = \<lparr>msg_type = msg_type n, msg_data = merge_payload (msg_data m) (msg_data n)\<rparr>"

definition codec_merges :: "codec \<Rightarrow> bool" where
  "codec_merges k \<longleftrightarrow> (\<forall>m ms. parse_message k (concat (map (ser_message k) (m # ms))) =
     (True, fold (\<lambda>n acc. merge_message acc n) ms m))"

lemma codec_merges_roundtrip: "codec_merges k \<Longrightarrow> codec_roundtrip k"
  unfolding codec_merges_def codec_roundtrip_def
  by (metis append_Nil2 concat.simps fold_simps(1) list.simps(8,9))

definition irc_payload :: "irc_message \<Rightarrow> pb_message" where
  "irc_payload m = \<lparr>msg_type = IRC_MESSAGE, msg_data = IrcMsg (toProtobuf m)\<rparr>"

lemma merge_irc_payload:
  "merge_message (irc_payload m) (irc_payload n) = irc_payload (n\<lparr>params := params m @ params n\<rparr>)"
  by (simp add: merge_message_def irc_payload_def toProtobuf_def)

lemma fold_merge_irc:
  "fold (\<lambda>n acc. merge_message acc n) (map irc_payload ms) (irc_payload m) =
     irc_payload ((last (m # ms))\<lparr>params := concat (map params (m # ms))\<rparr>)"
proof (induction ms arbitrary: m)
  case Nil
  show ?case by simp
next
  case (Cons n ms)
  then show ?case by (simp add: merge_irc_payload)
qed

text \<open>What is parsed when several IRC messages are read at once.\<close>

lemma parse_coalesced:
  assumes "codec_merges k" and "ms \<noteq> []"
  shows "parse_message k (concat (map (\<lambda>m. ser_message k (irc_payload m)) ms)) =
    (True, irc_payload ((last ms)\<lparr>params := concat (map params ms)\<rparr>))"
proof -
  obtain m ns where ms: "ms = m # ns" using assms(2) by (cases ms) auto
  have "concat (map (\<lambda>m. ser_message k (irc_payload m)) ms) =
      concat (map (ser_message k) (irc_payload m # map irc_payload ns))"
    by (simp add: ms comp_def)
  then show ?thesis
    using assms(1) fold_merge_irc [of ns m] unfolding codec_merges_def ms by metis
qed

section \<open>The two ends\<close>

text \<open>The bytes \<open>TcpPlugin\<close> writes for the messages its loop takes one after another.\<close>

definition written :: "codec \<Rightarrow> irc_message list \<Rightarrow> ('n, tcp_plugin) world \<Rightarrow> string" where
  "written k ms w = concat (drop (length (tp_sent (object w)))
     (tp_sent (object (snd (for_each ms (TcpPlugin_onMessage k) w)))))"

lemma for_each_TcpPlugin_onMessage:
  "tp_socket_open (object w) \<Longrightarrow> for_each ms (TcpPlugin_onMessage k) w =
     (None, w\<lparr>object := (object w)\<lparr>tp_sent := tp_sent (object w) @ map (\<lambda>m. ser_message k (irc_payload m)) ms\<rparr>\<rparr>)"
proof (induction ms arbitrary: w)
  case Nil
  show ?case by (simp add: handler_simps)
next
  case (Cons m ms)
  then show ?case
    by (simp add: andThen_def TcpPlugin_onMessage_def handler_simps irc_payload_def)
qed

lemma written_bytes:
  "tp_socket_open (object w) \<Longrightarrow> written k ms w = concat (map (\<lambda>m. ser_message k (irc_payload m)) ms)"
  by (simp add: written_def for_each_TcpPlugin_onMessage)

section \<open>Properties\<close>

text \<open>
  C33: the protocol has no framing. When the messages that the core has written for a plugin
  arrive in one read, the plugin's \<open>onMessage\<close> is called once: with the last message, to which the
  parameters of all the others have been added; the others are lost. The same happens to messages
  from the plugin: the bot sends one line, made of all of them, to the server.
\<close>

theorem coalesced_messages_merge:
  assumes "codec_merges k" and "tp_socket_open (object w)" and "has_onMessage (m_plugin b)" and "ms \<noteq> []"
  defines "merged \<equiv> (last ms)\<lparr>params := concat (map params ms)\<rparr>"
  shows "calls (fst (bot_parse k (written k ms w) b)) = calls b @ [OnMessage merged] \<and>
    parseMessage k u auth (written k ms w) p = run_handler u (send merged) p"
proof -
  have "parse_message k (written k ms w) = (True, irc_payload merged)"
    unfolding merged_def written_bytes [OF assms(2)] by (rule parse_coalesced [OF assms(1,4)])
  then show ?thesis
    using assms(3)
    by (simp add: bot_parse_def irc_payload_def ircMessage_def irc_msg_of_def call_def parseMessage_def
        processIrcMessage_def fromProtobuf_toProtobuf)
qed

section \<open>A concrete encoding with these laws\<close>

text \<open>
  A message is a sequence of fields, each encoded by itself, and is read field by field: an
  encoding with all the laws that are assumed of protobuf.
\<close>

definition message_fields :: "pb_message \<Rightarrow> string list list" where
  "message_fields m = [''t'', [type_byte (msg_type m)]] #
     (if msg_data m = NoPayload then [] else [payload_fields (msg_data m)])"

fun dec_fields :: "nat \<Rightarrow> string \<Rightarrow> string list list" where
  "dec_fields 0 s = []"
| "dec_fields (Suc n) s = (if s = '''' then [] else (case dec_list (length s) s of (f, r) \<Rightarrow> f # dec_fields n r))"

definition read_field :: "string list \<Rightarrow> pb_message \<Rightarrow> pb_message" where
  "read_field f m = (if hd f = ''t'' then m\<lparr>msg_type := type_of_byte (hd (f ! 1))\<rparr>
     else m\<lparr>msg_data := merge_payload (msg_data m) (payload_of f)\<rparr>)"

definition no_message :: pb_message where
  "no_message = \<lparr>msg_type = INIT_REQUEST, msg_data = NoPayload\<rparr>"

definition field_codec :: codec where
  "field_codec = \<lparr>ser_message = (\<lambda>m. concat (map enc_list (message_fields m))),
     ser_control = (\<lambda>r. enc_list [''t'', [type_byte (same_number (cr_type r))]]),
     parse_message = (\<lambda>s. (s \<noteq> '''', fold read_field (dec_fields (length s) s) no_message))\<rparr>"

lemma dec_fields_enc:
  "length fs \<le> n \<Longrightarrow> dec_fields n (concat (map enc_list fs)) = fs"
proof (induction fs arbitrary: n)
  case Nil
  show ?case by (cases n) simp_all
next
  case (Cons f fs)
  then obtain k where n: "n = Suc k" "length fs \<le> k" by (cases n) auto
  have "length f < length (enc_list f @ concat (map enc_list fs))"
    using length_enc_list [of f] by simp
  from dec_enc_list [OF this] Cons.IH [OF n(2)] n(1) show ?case by simp
qed

lemma length_fields: "length fs \<le> length (concat (map enc_list fs))"
proof (induction fs)
  case (Cons f fs)
  have "1 \<le> length (enc_list f)" by (cases "enc_list f") (use enc_list_nonempty [of f] in auto)
  with Cons show ?case by simp
qed simp

lemma payload_tag: "d \<noteq> NoPayload \<Longrightarrow> hd (payload_fields d) \<noteq> ''t''"
proof (cases d)
  case (InitResp st)
  then show ?thesis by (cases st) simp_all
next
  case (CtrlReq r)
  then show ?thesis by (cases "cr_msg r") simp_all
qed simp_all

lemma read_message: "fold read_field (message_fields m) acc = merge_message acc m"
  using payload_tag [of "msg_data m"] payload_of_fields [of "msg_data m"]
  by (auto simp: message_fields_def read_field_def merge_message_def)

lemma merge_no_message: "merge_message no_message m = m"
  by (cases m; cases "msg_data m") (simp_all add: merge_message_def no_message_def)

lemma field_codec_fields:
  "parse_message field_codec (concat (map enc_list fs)) = (fs \<noteq> [], fold read_field fs no_message)"
proof -
  have "concat (map enc_list fs) = '''' \<longleftrightarrow> fs = []" by (cases fs) simp_all
  then show ?thesis by (simp add: field_codec_def dec_fields_enc length_fields)
qed

lemma field_codec_merges: "codec_merges field_codec"
proof -
  have read: "fold read_field (concat (map message_fields ms)) acc = fold (\<lambda>n acc. merge_message acc n) ms acc" for ms acc
    by (induction ms arbitrary: acc) (simp_all add: read_message)
  have "concat (map (ser_message field_codec) ms) = concat (map enc_list (concat (map message_fields ms)))" for ms
    by (induction ms) (simp_all add: field_codec_def)
  then have "parse_message field_codec (concat (map (ser_message field_codec) (m # ms))) =
      (concat (map message_fields (m # ms)) \<noteq> [], fold (\<lambda>n acc. merge_message acc n) (m # ms) no_message)" for m ms
    by (simp only: field_codec_fields read)
  moreover have "concat (map message_fields (m # ms)) \<noteq> []" for m ms by (simp add: message_fields_def)
  ultimately show ?thesis by (simp add: codec_merges_def merge_no_message)
qed

lemma field_codec_laws: "codec_roundtrip field_codec" "shared_first_field field_codec"
proof -
  show "codec_roundtrip field_codec" by (rule codec_merges_roundtrip [OF field_codec_merges])
  show "shared_first_field field_codec"
    using field_codec_fields [of "[[''t'', [type_byte (same_number t)]]]" for t]
    by (simp add: shared_first_field_def field_codec_def read_field_def no_message_def)
qed

theorem coalesced_messages_merge_witness:
  "calls (fst (bot_parse field_codec (written field_codec [IRCMessage ''JOIN'' [''#a''], IRCMessage ''PRIVMSG'' [''#b'', ''hi'']]
      tcp_world) example_bot)) = [OnMessage (IRCMessage ''PRIVMSG'' [''#a'', ''#b'', ''hi''])]"
proof -
  have "has_onMessage (m_plugin example_bot)" "calls example_bot = []" by (simp_all add: example_bot_def Bot_def)
  note b = this
  have ms: "[IRCMessage ''JOIN'' [''#a''], IRCMessage ''PRIVMSG'' [''#b'', ''hi'']] \<noteq> []" by simp
  from conjunct1 [OF coalesced_messages_merge [OF field_codec_merges tcp_world_open b(1) ms]] b(2)
  show ?thesis by (simp add: IRCMessage_def)
qed

end
