(* ===== verification/Plugin_Link.thy ===== *)
theory Plugin_Link
  imports Plugin_Stream
begin

text \<open>
  The core and a Python plugin together: the bytes that one end writes are given to the handlers of the
  other. A \<open>pyircbot::Bot\<close> registers with the \<open>TcpPlugin\<close> that the core has made for its connection, is
  handed what the server sends, and replies.
\<close>

section \<open>Registration\<close>

text \<open>
  C17: a bot that starts with the right token is registered: what it writes makes the core stop the timer,
  take over its name and start the plugin's thread, and the answer makes the bot report success.
\<close>

theorem plugin_handshake:
  assumes "codec_roundtrip k" and "network.resolves net hn pt" and "reachable net hn pt"
    and "fresh_tcp k io peer p" and "auth (py_token plugin) = Inr True"
  shows "\<exists>b request q response. bot_start k net (Bot hn pt plugin) = (b, None) \<and> bot_sent b = [request] \<and>
    tcp_receive_handler k u auth (Received request) p = (q, [], None) \<and>
    name_of q = py_name plugin \<and> m_thread q = Starting \<and> \<not> tp_timer (m_object q) \<and>
    tp_sent (m_object q) = tp_sent (m_object p) @ [response] \<and>
    bot_output (fst (io_turn k eof (Received response) b)) = [''Plugin has been initialized successfully!'']"
proof -
  let ?req = "\<lparr>msg_type = INIT_REQUEST, msg_data = InitReq (py_name plugin) (py_token plugin)\<rparr>"
  let ?resp = "\<lparr>msg_type = INIT_RESPONSE, msg_data = InitResp STATUS_OK\<rparr>"
  have r: "parse_message k (ser_message k m) = (True, m)" for m using assms(1) by (simp add: codec_roundtrip_def)
  let ?b = "(Bot hn pt plugin)\<lparr>m_started := True, bot_socket_open := True, bot_socket_connected := True,
    bot_sent := [ser_message k ?req], bot_receiving := True, bot_io_thread := True\<rparr>"
  have b: "bot_start k net (Bot hn pt plugin) = (?b, None)"
    using assms(2,3) by (simp add: bot_operation_defs Bot_def)
  have "bot_output (fst (io_turn k eof (Received (ser_message k ?resp)) ?b)) = [''Plugin has been initialized successfully!'']"
    by (simp add: io_turn_def bot_receive_handler_def bot_parse_def r then_do_def init_resp_of_def initResponse_def
        print_line_def bot_receive_def Bot_def)
  moreover have "\<exists>q. tcp_receive_handler k u auth (Received (ser_message k ?req)) p = (q, [], None) \<and>
      name_of q = py_name plugin \<and> m_thread q = Starting \<and> \<not> tp_timer (m_object q) \<and>
      tp_sent (m_object q) = tp_sent (m_object p) @ [ser_message k ?resp]"
    using assms(4,5)
    by (simp add: tcp_receive_handler_def parseMessage_def r processInitRequest_def run_then_def run_handler_def
        handler_simps sendInitResponse_def spawn_outcome_def spawn_def fresh_tcp_def name_of_def TcpPlugin_class_def)
  moreover have "bot_sent ?b = [ser_message k ?req]" by simp
  ultimately show ?thesis using b by blast
qed

section \<open>Messages\<close>

lemma line_to_tcp_plugin:
  assumes "idle (m_parser c)" and "m_messages (m_parser c) = []" and "canonical msg"
    and "i < length (m_plugins c)" and "m_class (m_plugins c ! i) = TcpPlugin_class k io peer pid"
    and "m_command_parser (m_plugins c ! i) = None" and "m_incoming (m_plugins c ! i) = []"
    and "tp_socket_open (m_object (m_plugins c ! i))"
    and "receive_handler env (Received (toString msg False)) c = Inr c1"
  shows "plugin_turn env i c1 = Inr (c1\<lparr>m_plugins := (m_plugins c1)[i := (m_plugins c ! i)
      \<lparr>m_object := (m_object (m_plugins c ! i))\<lparr>tp_sent := tp_sent (m_object (m_plugins c ! i)) @
        [ser_message k (irc_payload msg)]\<rparr>\<rparr>]\<rparr>)" and "i < length (m_plugins c1)"
proof -
  let ?p = "m_plugins c ! i"
  have "m_plugins c1 = map (fold deliver [msg]) (m_plugins c)"
    using stream_to_plugins(1) [OF assms(1,2), of "[msg]" env c1] assms(3,9) by simp
  then have p1: "m_plugins c1 ! i = deliver msg ?p" "i < length (m_plugins c1)" using assms(4) by simp_all
  show "i < length (m_plugins c1)" by (rule p1)
  have "accepts msg ?p" using assms(5,6) by (simp add: accepts_def preFilter_def TcpPlugin_class_def)
  then have d: "deliver msg ?p = ?p\<lparr>m_incoming := [msg]\<rparr>" using assms(7) by (simp add: deliver_def receive_def)
  have q: "?p\<lparr>m_incoming := []\<rparr> = ?p" using assms(7) by simp
  let ?r = "?p\<lparr>m_object := (m_object ?p)\<lparr>tp_sent := tp_sent (m_object ?p) @ [ser_message k (irc_payload msg)]\<rparr>\<rparr>"
  have "run_handler (uptime_now env) (process_message msg ?p) ?p = (?r, [], None)"
    using assms(5,6,8)
    by (simp add: run_handler_def process_message_def TcpPlugin_class_def TcpPlugin_onMessage_def handler_simps
        irc_payload_def)
  with p1 d q show "plugin_turn env i c1 = Inr (c1\<lparr>m_plugins := (m_plugins c1)[i := ?r]\<rparr>)"
    by (simp add: plugin_turn_def vec_at_def getCommand_def)
qed

text \<open>
  C4: a Python plugin takes part in the conversation: after a line of the server and a turn of the
  plugin's thread, the bytes written make the bot call \<open>onMessage\<close> with exactly the message of the
  line; and any message the plugin sends in return is passed to the server as its line.
\<close>

theorem python_plugin_end_to_end:
  assumes "codec_roundtrip k" and "idle (m_parser c)" and "m_messages (m_parser c) = []" and "canonical msg"
    and "i < length (m_plugins c)" and "m_class (m_plugins c ! i) = TcpPlugin_class k io peer pid"
    and "m_command_parser (m_plugins c ! i) = None" and "m_incoming (m_plugins c ! i) = []"
    and "tp_socket_open (m_object (m_plugins c ! i))"
    and "receive_handler env (Received (toString msg False)) c = Inr c1"
    and "bot_io_thread b" and "\<not> bot_io_stopped b" and "bot_receiving b" and "bot_socket_connected b"
    and "has_onMessage (m_plugin b)"
  shows "\<exists>c2 bytes b1. plugin_turn env i c1 = Inr c2 \<and>
    tp_sent (m_object (m_plugins c2 ! i)) = tp_sent (m_object (m_plugins c ! i)) @ [bytes] \<and>
    io_turn k eof (Received bytes) b = (b1, None) \<and> calls b1 = calls b @ [OnMessage msg] \<and>
    (\<forall>reply. \<exists>b2 out q c3. sendIrcMessage k reply b1 = (b2, None) \<and> bot_sent b2 = bot_sent b1 @ [out] \<and>
      tcp_receive_handler k u auth (Received out) (m_plugins c2 ! i) = (q, [Send reply], None) \<and>
      perform (Send reply) c2 = Inr c3 \<and> outgoing c3 = outgoing c2 @ [toString reply False])"
proof -
  have r: "parse_message k (ser_message k m) = (True, m)" for m using assms(1) by (simp add: codec_roundtrip_def)
  let ?bytes = "ser_message k (irc_payload msg)"
  let ?p = "(m_plugins c ! i)\<lparr>m_object := (m_object (m_plugins c ! i))
    \<lparr>tp_sent := tp_sent (m_object (m_plugins c ! i)) @ [?bytes]\<rparr>\<rparr>"
  let ?c2 = "c1\<lparr>m_plugins := (m_plugins c1)[i := ?p]\<rparr>"
  note t = line_to_tcp_plugin [OF assms(2-10)]
  let ?b1 = "b\<lparr>calls := calls b @ [OnMessage msg], bot_receiving := True\<rparr>"
  have b1: "io_turn k eof (Received ?bytes) b = (?b1, None)"
    using assms(11-15) by (simp add: io_turn_def bot_receive_handler_def bot_parse_def r irc_payload_def irc_msg_of_def
        ircMessage_def call_def fromProtobuf_toProtobuf then_do_def bot_receive_def)
  have p: "m_plugins ?c2 ! i = ?p" using t(2) by simp
  have reply: "\<exists>b2 out q c3. sendIrcMessage k m ?b1 = (b2, None) \<and> bot_sent b2 = bot_sent ?b1 @ [out] \<and>
      tcp_receive_handler k u auth (Received out) (m_plugins ?c2 ! i) = (q, [Send m], None) \<and>
      perform (Send m) ?c2 = Inr c3 \<and> outgoing c3 = outgoing ?c2 @ [toString m False]" for m
  proof -
    have "sendIrcMessage k m ?b1 = (?b1\<lparr>bot_sent := bot_sent ?b1 @ [ser_message k (irc_payload m)]\<rparr>, None)"
      using assms(14) by (simp add: sendIrcMessage_def bot_send_def irc_payload_def)
    moreover have "\<exists>q. tcp_receive_handler k u auth (Received (ser_message k (irc_payload m))) ?p = (q, [Send m], None)"
      by (simp add: tcp_receive_handler_def parseMessage_def r irc_payload_def processIrcMessage_def run_handler_def
          handler_simps fromProtobuf_toProtobuf)
    moreover have "perform (Send m) ?c2 = Inr (send_message m ?c2)" "outgoing (send_message m ?c2) = outgoing ?c2 @ [toString m False]"
      by (simp_all add: send_message_def send_text_def)
    ultimately show ?thesis using p by fastforce
  qed
  have "tp_sent (m_object (m_plugins ?c2 ! i)) = tp_sent (m_object (m_plugins c ! i)) @ [?bytes]" using p by simp
  moreover have "calls ?b1 = calls b @ [OnMessage msg]" by simp
  ultimately show ?thesis using t(1) b1 reply by blast
qed


section \<open>A concrete conversation\<close>

theorem plugin_handshake_witness:
  "\<exists>b request q. bot_start wire_codec listening (Bot ''localhost'' 5454 (m_plugin example_bot)) = (b, None) \<and>
     bot_sent b = [request] \<and>
     tcp_receive_handler wire_codec 0 (\<lambda>t. Inr (t = ''secret'')) (Received request) example_tcp = (q, [], None) \<and>
     m_thread q = Starting"
proof -
  have a: "network.resolves listening ''localhost'' 5454" "reachable listening ''localhost'' 5454"
    "(\<lambda>t. Inr (t = ''secret'')) (py_token (m_plugin example_bot)) = (Inr True :: fault + bool)"
    by (simp_all add: listening_def example_bot_def Bot_def)
  show ?thesis
    using plugin_handshake [where auth = "\<lambda>t. Inr (t = ''secret'')" and plugin = "m_plugin example_bot" and u = 0
      and eof = False, OF wire_roundtrip a(1,2) fresh_example a(3)] by blast
qed

definition tcp_core :: "(yaml_node, tcp_plugin) core" where
  "tcp_core = (Core Undefined)\<lparr>receiving := True, m_plugins := [example_tcp]\<rparr>"

lemma tcp_core_simps:
  "m_parser tcp_core = new_IRCParser" "length (m_plugins tcp_core) = 1"
  "m_class (m_plugins tcp_core ! 0) = TcpPlugin_class wire_codec True True ''tcp''"
  "m_command_parser (m_plugins tcp_core ! 0) = None" "m_incoming (m_plugins tcp_core ! 0) = []"
  "tp_socket_open (m_object (m_plugins tcp_core ! 0))"
  by (simp_all add: tcp_core_def Core_def example_tcp_def TcpPlugin_def Plugin_def)

definition tcp_core_after :: "(yaml_node, tcp_plugin) core" where
  "tcp_core_after = value_or tcp_core (receive_handler tcp_env (Received (toString example_ping False)) tcp_core)"

lemma tcp_core_receives: "receive_handler tcp_env (Received (toString example_ping False)) tcp_core = Inr tcp_core_after"
  unfolding tcp_core_after_def by (rule is_ok_value) code_simp

theorem python_plugin_end_to_end_witness:
  "\<exists>c2 bytes b1. plugin_turn tcp_env 0 tcp_core_after = Inr c2 \<and>
     io_turn wire_codec False (Received bytes) (example_bot\<lparr>bot_io_thread := True, bot_receiving := True\<rparr>) = (b1, None) \<and>
     calls b1 = [OnMessage example_ping]"
proof -
  let ?b = "example_bot\<lparr>bot_io_thread := True, bot_receiving := True\<rparr>"
  have b: "bot_io_thread ?b" "\<not> bot_io_stopped ?b" "bot_receiving ?b" "bot_socket_connected ?b"
    "has_onMessage (m_plugin ?b)" "calls ?b = []" by (simp_all add: example_bot_def Bot_def)
  have c: "idle (m_parser tcp_core)" "m_messages (m_parser tcp_core) = []"
    using idle_new by (simp_all add: tcp_core_simps new_IRCParser_def)
  have i: "0 < length (m_plugins tcp_core)" by (simp add: tcp_core_simps)
  from python_plugin_end_to_end [OF wire_roundtrip c canonical_examples(2) i tcp_core_simps(3-6) tcp_core_receives b(1-5), of False]
  obtain c2 bytes b1 where "plugin_turn tcp_env 0 tcp_core_after = Inr c2"
    "io_turn wire_codec False (Received bytes) ?b = (b1, None)" "calls b1 = calls ?b @ [OnMessage example_ping]" by blast
  with b(6) show ?thesis by auto
qed

end
