(* ===== verification/Py_Threads.thy ===== *)
theory Py_Threads
  imports Plugin_Stream
begin

text \<open>
  A Python program that uses \<open>pyircbot\<close> (pyircbot/pyircbot.cpp, py-plugins): the interpreter's lock, which the
  program's thread holds while it runs Python code, between that thread and the I/O thread of the bot.
\<close>

section \<open>The binding\<close>

text \<open>
  The methods of \<open>Bot\<close> in the binding, and whether they are bound with a call guard that releases the
  interpreter's lock for the time of the call.
\<close>

definition bot_methods :: "(string \<times> bool) list" where
  "bot_methods = [(''hostname'', False), (''port'', False), (''connected'', False), (''start'', False), (''stop'', False),
     (''isRunning'', False), (''wait'', False), (''send'', False), (''sendIrcMessage'', False)]"

text \<open>
  What pybind11 does. \<open>keeps_lock\<close>: a method without a call guard is called with the lock held, as its caller
  holds it. \<open>acquires_lock\<close>: a \<open>std::function\<close> made of a Python function acquires the lock before it calls the
  function.
\<close>

record pybind =
  keeps_lock :: bool
  acquires_lock :: bool

definition holds_lock :: "pybind \<Rightarrow> string \<Rightarrow> bool" where
  "holds_lock pb name \<longleftrightarrow> keeps_lock pb \<and> map_of bot_methods name = Some False"

section \<open>The process\<close>

datatype lock_owner = Nobody | Program | Callback

datatype program_state = InPython | Yielding | InWait

text \<open>
  \<open>Handling\<close>: an event is handled for which a callback has to be called, or goes on after it let go of the
  lock; \<open>Calling\<close>: the callback runs. The handler does the rest after the callback.
\<close>

datatype io_state = Ready | Handling bool receive_event | Calling bool receive_event

record py_process =
  py_bot :: bot
  lock :: lock_owner
  prog :: program_state
  py_io :: io_state
  crashed :: bool

definition calls_python :: "codec \<Rightarrow> bool \<Rightarrow> receive_event \<Rightarrow> bot \<Rightarrow> bool" where
  "calls_python k eof ev b \<longleftrightarrow> calls (fst (bot_receive_handler k eof ev b)) \<noteq> calls b"

text \<open>What can arrive: data on a connected socket only.\<close>

definition can_arrive :: "receive_event \<Rightarrow> bot \<Rightarrow> bool" where
  "can_arrive ev b \<longleftrightarrow> bot_io_thread b \<and> \<not> bot_io_stopped b \<and> bot_receiving b \<and>
     (case ev of Received _ \<Rightarrow> bot_socket_connected b | _ \<Rightarrow> True)"

text \<open>The end of a handler; an exception that leaves it ends the process.\<close>

definition handled :: "codec \<Rightarrow> bool \<Rightarrow> receive_event \<Rightarrow> py_process \<Rightarrow> py_process" where
  "handled k eof ev s = (case io_turn k eof ev (py_bot s) of
     (b, r) \<Rightarrow> s\<lparr>py_bot := b, py_io := Ready, crashed := (r \<noteq> None)\<rparr>)"

text \<open>
  \<open>may\<close> says which methods the program calls in which state of the bot. Between two methods it may let go of the lock, as the
  interpreter makes it do and as \<open>time.sleep\<close> does. A callback may send messages and let go of the lock; an
  exception in it leaves \<open>io_service::run\<close>.
\<close>

inductive py_step :: "pybind \<Rightarrow> codec \<Rightarrow> network \<Rightarrow> (bot \<Rightarrow> bot_action \<Rightarrow> bool) \<Rightarrow> py_process \<Rightarrow> py_process \<Rightarrow> bool"
  for pb k net may where
  ps_call: "\<not> crashed s \<Longrightarrow> prog s = InPython \<Longrightarrow> a = Stop \<or> a = SendMessage m \<Longrightarrow> may (py_bot s) a \<Longrightarrow>
    py_step pb k net may s (s\<lparr>py_bot := bot_act k net a (py_bot s)\<rparr>)"
| ps_wait: "\<not> crashed s \<Longrightarrow> prog s = InPython \<Longrightarrow> may (py_bot s) Wait \<Longrightarrow>
    py_step pb k net may s (s\<lparr>prog := InWait, lock := if holds_lock pb ''wait'' then Program else Nobody\<rparr>)"
| ps_joined: "\<not> crashed s \<Longrightarrow> prog s = InWait \<Longrightarrow> lock s \<noteq> Callback \<Longrightarrow> py_io s = Ready \<Longrightarrow> bot_wait (py_bot s) = Some b \<Longrightarrow>
    py_step pb k net may s (s\<lparr>py_bot := b, prog := InPython, lock := Program\<rparr>)"
| ps_yield: "\<not> crashed s \<Longrightarrow> prog s = InPython \<Longrightarrow>
    py_step pb k net may s (s\<lparr>prog := Yielding, lock := Nobody\<rparr>)"
| ps_resume: "\<not> crashed s \<Longrightarrow> prog s = Yielding \<Longrightarrow> lock s = Nobody \<Longrightarrow>
    py_step pb k net may s (s\<lparr>prog := InPython, lock := Program\<rparr>)"
| ps_plain: "\<not> crashed s \<Longrightarrow> py_io s = Ready \<Longrightarrow> can_arrive ev (py_bot s) \<Longrightarrow> \<not> calls_python k eof ev (py_bot s) \<Longrightarrow>
    py_step pb k net may s (handled k eof ev s)"
| ps_event: "\<not> crashed s \<Longrightarrow> py_io s = Ready \<Longrightarrow> can_arrive ev (py_bot s) \<Longrightarrow> calls_python k eof ev (py_bot s) \<Longrightarrow>
    py_step pb k net may s (s\<lparr>py_io := Handling eof ev\<rparr>)"
| ps_enter: "\<not> crashed s \<Longrightarrow> py_io s = Handling eof ev \<Longrightarrow> lock s = Nobody \<or> \<not> acquires_lock pb \<Longrightarrow>
    py_step pb k net may s (s\<lparr>py_io := Calling eof ev, lock := Callback\<rparr>)"
| ps_send: "\<not> crashed s \<Longrightarrow> py_io s = Calling eof ev \<Longrightarrow>
    py_step pb k net may s (s\<lparr>py_bot := bot_act k net (SendMessage m) (py_bot s)\<rparr>)"
| ps_pause: "\<not> crashed s \<Longrightarrow> py_io s = Calling eof ev \<Longrightarrow>
    py_step pb k net may s (s\<lparr>py_io := Handling eof ev, lock := Nobody\<rparr>)"
| ps_return: "\<not> crashed s \<Longrightarrow> py_io s = Calling eof ev \<Longrightarrow>
    py_step pb k net may s ((handled k eof ev s)\<lparr>lock := Nobody\<rparr>)"
| ps_raise: "\<not> crashed s \<Longrightarrow> py_io s = Calling eof ev \<Longrightarrow>
    py_step pb k net may s (s\<lparr>crashed := True\<rparr>)"

text \<open>The process after \<open>bot.start()\<close>.\<close>

definition py_started :: "bot \<Rightarrow> py_process" where
  "py_started b = \<lparr>py_bot = b, lock = Program, prog = InPython, py_io = Ready, crashed = False\<rparr>"

text \<open>
  The loop of the plugins in py-plugins, \<open>while bot.isRunning(): time.sleep(0.1)\<close> and then
  \<open>bot.wait()\<close>, and a program that waits at once.
\<close>

definition polling :: "bot \<Rightarrow> bot_action \<Rightarrow> bool" where
  "polling b a \<longleftrightarrow> a = Wait \<and> \<not> isRunning b"

definition waiting :: "bot \<Rightarrow> bot_action \<Rightarrow> bool" where
  "waiting b a \<longleftrightarrow> a = Wait"


section \<open>Lemmas: what the handlers do to the bot\<close>

lemma holds_lock_wait [simp]: "keeps_lock pb \<Longrightarrow> holds_lock pb ''wait''"
  by (simp add: holds_lock_def bot_methods_def)

lemma handler_calls_Received: "calls_python k eof ev b \<Longrightarrow> \<exists>data. ev = Received data"
  by (cases ev) (auto simp: calls_python_def bot_receive_handler_def print_line_def Let_def)

lemma send_only_sends: "\<exists>out. bot_act k net (SendMessage m) b = b\<lparr>bot_sent := out\<rparr>"
proof (cases "bot_socket_connected b")
  case True
  then show ?thesis by (simp add: sendIrcMessage_def bot_send_def) blast
next
  case False
  then have "bot_act k net (SendMessage m) b = b\<lparr>bot_sent := bot_sent b\<rparr>"
    by (simp add: sendIrcMessage_def bot_send_def)
  then show ?thesis by blast
qed

lemma send_frame [simp]:
  "calls (bot_act k net (SendMessage m) b) = calls b" "isRunning (bot_act k net (SendMessage m) b) = isRunning b"
  "bot_socket_open (bot_act k net (SendMessage m) b) = bot_socket_open b"
  "bot_socket_connected (bot_act k net (SendMessage m) b) = bot_socket_connected b"
  "bot_receiving (bot_act k net (SendMessage m) b) = bot_receiving b"
  "bot_io_thread (bot_act k net (SendMessage m) b) = bot_io_thread b"
  "bot_io_stopped (bot_act k net (SendMessage m) b) = bot_io_stopped b"
  using send_only_sends [of k net m b] by (auto simp: isRunning_def)

text \<open>Turns that call nothing, and turns in general.\<close>

lemma io_turn_calls:
  "bot_io_thread b \<Longrightarrow> \<not> bot_io_stopped b \<Longrightarrow> bot_receiving b \<Longrightarrow>
   calls (fst (io_turn k eof ev b)) = calls (fst (bot_receive_handler k eof ev b))"
  by (auto simp: io_turn_def split: prod.splits option.splits)

text \<open>\<open>parse\<close> leaves the connection as it is or stops the bot.\<close>

lemma bot_parse_connection:
  assumes "bot_parse k data b = (b', r)"
  shows "bot_io_thread b' = bot_io_thread b \<and> bot_io_stopped b' = bot_io_stopped b \<and>
    (isRunning b' = isRunning b \<and> bot_socket_open b' = bot_socket_open b \<and>
       bot_socket_connected b' = bot_socket_connected b \<and> r = None \<or>
     \<not> isRunning b' \<and> (r = None \<longrightarrow> \<not> bot_socket_open b' \<and> (bot_socket_open b \<or> bot_socket_connected b' = bot_socket_connected b)
       \<and> (bot_socket_open b \<longrightarrow> \<not> bot_socket_connected b')))"
  using assms
  by (auto simp: bot_parse_def Let_def initResponse_def ircMessage_def controlRequest_def call_def print_line_def
      bot_stop_def isRunning_def split: message_type.splits control_type.splits if_splits)

lemma io_turn_connection:
  assumes "bot_io_thread b" and "\<not> bot_io_stopped b" and "bot_receiving b"
    and "bot_socket_connected b \<longrightarrow> bot_socket_open b" and "io_turn k eof ev b = (b', None)"
  shows "bot_io_thread b'" and "\<not> bot_io_stopped b' \<longrightarrow> bot_receiving b'"
    and "bot_socket_connected b' \<longrightarrow> bot_socket_open b'"
    and "isRunning b' = isRunning b \<and> bot_socket_connected b' = bot_socket_connected b \<or>
      \<not> isRunning b' \<and> \<not> bot_socket_connected b'"
proof -
  have "bot_io_thread b' \<and> (\<not> bot_io_stopped b' \<longrightarrow> bot_receiving b') \<and>
    (bot_socket_connected b' \<longrightarrow> bot_socket_open b') \<and>
    (isRunning b' = isRunning b \<and> bot_socket_connected b' = bot_socket_connected b \<or>
      \<not> isRunning b' \<and> \<not> bot_socket_connected b')"
  proof (cases ev)
    case (Received data)
    obtain b1 r where p: "bot_parse k data (b\<lparr>bot_receiving := False\<rparr>) = (b1, r)" by fastforce
    with assms Received have r: "r = None" "b' = b1\<lparr>bot_receiving := True\<rparr>"
      by (auto simp: io_turn_def bot_receive_handler_def then_do_def bot_receive_def Let_def split: option.splits)
    from bot_parse_connection [OF p] r assms(1,2,4) show ?thesis by (auto simp: isRunning_def)
  qed (use assms in \<open>auto simp: io_turn_def bot_receive_handler_def print_line_def isRunning_def Let_def\<close>)
  then show "bot_io_thread b'" "\<not> bot_io_stopped b' \<longrightarrow> bot_receiving b'"
    "bot_socket_connected b' \<longrightarrow> bot_socket_open b'"
    "isRunning b' = isRunning b \<and> bot_socket_connected b' = bot_socket_connected b \<or>
      \<not> isRunning b' \<and> \<not> bot_socket_connected b'" by blast+
qed

section \<open>A program that polls\<close>

definition polling_inv :: "py_process \<Rightarrow> bool" where
  "polling_inv s \<longleftrightarrow> (let b = py_bot s; handling = (py_io s \<noteq> Ready) in
     (lock s = Program \<longleftrightarrow> prog s \<noteq> Yielding) \<and> (lock s = Callback \<longleftrightarrow> (\<exists>eof ev. py_io s = Calling eof ev)) \<and>
     (\<not> isRunning b \<longrightarrow> \<not> handling \<and> \<not> bot_socket_connected b) \<and> (prog s = InWait \<longrightarrow> \<not> isRunning b) \<and>
     (bot_socket_connected b \<longrightarrow> bot_socket_open b) \<and>
     (bot_io_thread b \<and> \<not> bot_io_stopped b \<longrightarrow> bot_receiving b) \<and>
     (handling \<longrightarrow> bot_io_thread b \<and> \<not> bot_io_stopped b))"

lemma polling_inv_handled:
  assumes "polling_inv s" and "bot_io_thread (py_bot s)" and "\<not> bot_io_stopped (py_bot s)"
    and "lock s = Callback \<longrightarrow> l = Nobody" and "lock s \<noteq> Callback \<longrightarrow> l = lock s"
  shows "crashed (handled k eof ev s) \<or> polling_inv ((handled k eof ev s)\<lparr>lock := l\<rparr>)"
proof -
  let ?b = "py_bot s"
  obtain b' r where t: "io_turn k eof ev ?b = (b', r)" by fastforce
  show ?thesis
  proof (cases r)
    case None
    have "bot_receiving ?b" "bot_socket_connected ?b \<longrightarrow> bot_socket_open ?b"
      using assms(1-3) by (simp_all add: polling_inv_def Let_def)
    from io_turn_connection [OF assms(2,3) this t [unfolded None]] assms(1,4,5) t None
    show ?thesis by (cases "lock s") (auto simp: polling_inv_def handled_def Let_def)
  qed (simp add: handled_def t)
qed

lemma polling_inv_step:
  assumes pb: "keeps_lock pb" "acquires_lock pb" and step: "py_step pb k net polling s s'" and inv: "polling_inv s"
  shows "crashed s' \<or> polling_inv s'"
  using step
proof cases
  case (ps_plain ev eof)
  then have "bot_io_thread (py_bot s)" "\<not> bot_io_stopped (py_bot s)" by (simp_all add: can_arrive_def)
  from polling_inv_handled [OF inv this, of "lock s" k eof ev] ps_plain inv show ?thesis
    by (auto simp: polling_inv_def Let_def handled_def split: prod.splits)
next
  case (ps_return eof ev)
  with inv have "bot_io_thread (py_bot s)" "\<not> bot_io_stopped (py_bot s)" "lock s = Callback"
    by (auto simp: polling_inv_def Let_def)
  with polling_inv_handled [OF inv this(1,2), of Nobody k eof ev] ps_return show ?thesis by simp
next
  case (ps_event ev eof)
  then obtain data where "ev = Received data" using handler_calls_Received by blast
  with ps_event inv show ?thesis by (auto simp: polling_inv_def can_arrive_def Let_def)
next
  case (ps_joined b)
  with inv show ?thesis
    by (auto simp: polling_inv_def bot_wait_def isRunning_def Let_def split: if_split_asm)
next
  case (ps_send eof ev m)
  with inv show ?thesis by (auto simp: polling_inv_def Let_def simp del: bot_act.simps)
qed (use inv pb in \<open>auto simp: polling_inv_def polling_def Let_def\<close>)

lemma polling_inv_steps:
  assumes "(py_step pb k net polling)\<^sup>*\<^sup>* s s'" and "keeps_lock pb" and "acquires_lock pb" and "polling_inv s"
  shows "crashed s' \<or> polling_inv s'"
  using assms(1)
proof (induction rule: rtranclp_induct)
  case (step t u)
  have "\<not> crashed t" using step.hyps(2) by (cases rule: py_step.cases) simp_all
  with step.IH have "polling_inv t" by simp
  from polling_inv_step [OF assms(2,3) step.hyps(2) this] show ?case .
qed (use assms(4) in simp)

lemma polling_inv_started:
  "bot_start k net (Bot hn pt plugin) = (b, None) \<Longrightarrow> polling_inv (py_started b)"
  by (auto simp: polling_inv_def py_started_def Bot_def bot_operation_defs isRunning_def split: if_split_asm)


text \<open>From a state of the bot that no longer runs, the program gets through \<open>wait\<close>.\<close>

lemma polling_completes:
  assumes pb: "keeps_lock pb" and inv: "polling_inv s" and ok: "\<not> crashed s" and stopped: "\<not> isRunning (py_bot s)"
  shows "\<exists>s'. (py_step pb k net polling)\<^sup>*\<^sup>* s s' \<and> \<not> crashed s' \<and> prog s' = InPython \<and> \<not> bot_io_thread (py_bot s')"
proof -
  let ?R = "py_step pb k net polling"
  have io: "py_io s = Ready" and nl: "lock s \<noteq> Callback"
    using inv stopped by (auto simp: polling_inv_def Let_def)
  have "\<exists>t. ?R\<^sup>*\<^sup>* s t \<and> prog t = InWait \<and> lock t \<noteq> Callback \<and> \<not> crashed t \<and> py_bot t = py_bot s \<and> py_io t = Ready"
  proof -
    have w: "\<exists>t. ?R\<^sup>*\<^sup>* u t \<and> prog t = InWait \<and> lock t \<noteq> Callback \<and> \<not> crashed t \<and> py_bot t = py_bot u \<and> py_io t = Ready"
      if "prog u = InPython" "\<not> crashed u" "\<not> isRunning (py_bot u)" "py_io u = Ready" for u
    proof -
      have "?R u (u\<lparr>prog := InWait, lock := Program\<rparr>)"
        using py_step.ps_wait [OF that(2,1), of polling pb k net] that(3) pb by (simp add: polling_def)
      then have "?R\<^sup>*\<^sup>* u (u\<lparr>prog := InWait, lock := Program\<rparr>)" by (rule r_into_rtranclp)
      with that show ?thesis by (intro exI [of _ "u\<lparr>prog := InWait, lock := Program\<rparr>"]) simp
    qed
    show ?thesis
    proof (cases "prog s")
      case InPython
      from w [OF this ok stopped io] show ?thesis by blast
    next
      case InWait
      with ok io nl show ?thesis by blast
    next
      case Yielding
      with inv nl have "lock s = Nobody" by (cases "lock s") (auto simp: polling_inv_def Let_def)
      from py_step.ps_resume [OF ok Yielding this]
      have st: "?R s (s\<lparr>prog := InPython, lock := Program\<rparr>)" .
      from w [of "s\<lparr>prog := InPython, lock := Program\<rparr>"] ok stopped io obtain t where
        "?R\<^sup>*\<^sup>* (s\<lparr>prog := InPython, lock := Program\<rparr>) t" "prog t = InWait" "lock t \<noteq> Callback" "\<not> crashed t"
        "py_bot t = py_bot s" "py_io t = Ready" by auto
      then show ?thesis using converse_rtranclp_into_rtranclp [of ?R, OF st] by blast
    qed
  qed
  then obtain t where t: "?R\<^sup>*\<^sup>* s t" "prog t = InWait" "lock t \<noteq> Callback" "\<not> crashed t" "py_bot t = py_bot s" "py_io t = Ready"
    by blast
  have "\<exists>u. ?R\<^sup>*\<^sup>* t u \<and> prog u = InWait \<and> lock u = lock t \<and> \<not> crashed u \<and> py_io u = Ready \<and>
      (bot_io_thread (py_bot u) \<longrightarrow> bot_io_stopped (py_bot u))"
  proof (cases "bot_io_thread (py_bot t) \<and> \<not> bot_io_stopped (py_bot t)")
    case True
    with inv t(5) have c: "can_arrive Failed (py_bot t)" by (simp add: can_arrive_def polling_inv_def Let_def)
    have "\<not> calls_python k False Failed (py_bot t)" using handler_calls_Received by blast
    from py_step.ps_plain [OF t(4,6) c this] have st: "?R t (handled k False Failed t)" .
    have "io_turn k False Failed (py_bot t) = (print_line ''An error occurred. Message could not be received!''
        ((py_bot t)\<lparr>bot_receiving := False\<rparr>)\<lparr>bot_io_stopped := True\<rparr>, None)"
      using c by (simp add: can_arrive_def io_turn_def bot_receive_handler_def print_line_def)
    then show ?thesis using True st t
      by (intro exI [of _ "handled k False Failed t"]) (simp add: handled_def r_into_rtranclp)
  next
    case False
    with t show ?thesis by blast
  qed
  then obtain u where u: "?R\<^sup>*\<^sup>* t u" "prog u = InWait" "lock u = lock t" "\<not> crashed u" "py_io u = Ready"
    "bot_io_thread (py_bot u) \<longrightarrow> bot_io_stopped (py_bot u)" by blast
  then obtain b where b: "bot_wait (py_bot u) = Some b" "\<not> bot_io_thread b"
    by (cases "bot_io_thread (py_bot u)") (simp_all add: bot_wait_def)
  have "?R u (u\<lparr>py_bot := b, prog := InPython, lock := Program\<rparr>)"
    using u t(3) b(1) by (intro py_step.ps_joined) simp_all
  with t(1) u(1) have "?R\<^sup>*\<^sup>* s (u\<lparr>py_bot := b, prog := InPython, lock := Program\<rparr>)"
    by (meson rtranclp.rtrancl_into_rtrancl rtranclp_trans)
  with u b(2) show ?thesis by (intro exI [of _ "u\<lparr>py_bot := b, prog := InPython, lock := Program\<rparr>"]) simp
qed

lemma polling_not_stuck:
  assumes "keeps_lock pb" and inv: "polling_inv s" and ok: "\<not> crashed s"
  shows "\<exists>s'. py_step pb k net polling s s'"
proof (cases "prog s")
  case InPython
  from py_step.ps_yield [OF ok this] show ?thesis by blast
next
  case Yielding
  show ?thesis
  proof (cases "lock s")
    case Nobody
    from py_step.ps_resume [OF ok Yielding this] show ?thesis by blast
  next
    case Callback
    with inv obtain eof ev where "py_io s = Calling eof ev" by (auto simp: polling_inv_def Let_def)
    from py_step.ps_return [OF ok this] show ?thesis by blast
  qed (use inv Yielding in \<open>simp add: polling_inv_def Let_def\<close>)
next
  case InWait
  with inv have "\<not> isRunning (py_bot s)" by (simp add: polling_inv_def Let_def)
  from polling_completes [OF assms(1) inv ok this, of k net] InWait obtain s' where
    "(py_step pb k net polling)\<^sup>*\<^sup>* s s'" "prog s' \<noteq> prog s" by auto
  then show ?thesis by (cases rule: converse_rtranclpE) auto
qed


section \<open>A program that waits\<close>

definition waiting_inv :: "callback list \<Rightarrow> py_process \<Rightarrow> bool" where
  "waiting_inv cs s \<longleftrightarrow> calls (py_bot s) = cs \<and>
     (prog s = InWait \<and> lock s = Program \<and> (\<forall>eof ev. py_io s \<noteq> Calling eof ev) \<or>
      \<not> bot_io_thread (py_bot s) \<and> py_io s = Ready)"

lemma waiting_inv_step:
  assumes pb: "keeps_lock pb" "acquires_lock pb" and step: "py_step pb k net waiting s s'" and inv: "waiting_inv cs s"
  shows "waiting_inv cs s'"
  using step
proof cases
  case (ps_plain ev eof)
  then have c: "bot_io_thread (py_bot s)" "\<not> bot_io_stopped (py_bot s)" "bot_receiving (py_bot s)"
    by (simp_all add: can_arrive_def)
  with ps_plain io_turn_calls [OF c, of k eof ev] have "calls (fst (io_turn k eof ev (py_bot s))) = calls (py_bot s)"
    by (simp add: calls_python_def)
  with ps_plain inv c(1) show ?thesis by (auto simp: waiting_inv_def handled_def split: prod.splits)
next
  case (ps_joined b)
  with inv show ?thesis by (auto simp: waiting_inv_def bot_wait_def split: if_split_asm)
next
  case (ps_event ev eof)
  with inv show ?thesis by (auto simp: waiting_inv_def can_arrive_def)
qed (use inv pb in \<open>auto simp: waiting_inv_def waiting_def simp del: bot_act.simps\<close>)

lemma waiting_inv_steps:
  assumes "(py_step pb k net waiting)\<^sup>*\<^sup>* s s'" and "keeps_lock pb" and "acquires_lock pb" and "waiting_inv cs s"
  shows "waiting_inv cs s'"
  using assms(1,4) by (induction rule: rtranclp_induct) (auto intro: waiting_inv_step [OF assms(2,3)])

text \<open>Nobody can move once the callback of an event needs the lock that the waiting program holds.\<close>

lemma waiting_stuck:
  assumes "acquires_lock pb" and "prog s = InWait" and "lock s = Program" and "py_io s = Handling eof ev"
  shows "\<not> py_step pb k net may s s'"
  using assms by (auto elim: py_step.cases)

lemma irc_message_calls_python:
  assumes "codec_roundtrip k" and "has_onMessage (m_plugin b)"
  shows "calls_python k eof (Received (ser_message k (irc_payload msg))) b"
proof -
  have "parse_message k (ser_message k (irc_payload msg)) = (True, irc_payload msg)"
    using assms(1) by (simp add: codec_roundtrip_def)
  with assms(2) show ?thesis
    by (simp add: calls_python_def bot_receive_handler_def bot_parse_def irc_payload_def irc_msg_of_def ircMessage_def
        call_def then_do_def bot_receive_def Let_def)
qed

lemma started_bot:
  assumes "bot_start k net (Bot hn pt plugin) = (b, None)"
  shows "bot_io_thread b" "\<not> bot_io_stopped b" "bot_receiving b" "bot_socket_connected b" "m_plugin b = plugin" "calls b = []"
  using assms by (auto simp: Bot_def bot_operation_defs split: if_split_asm)

section \<open>Properties\<close>

text \<open>
  C8: the loop of the plugins in py-plugins is right: whatever arrives and however the threads
  interleave, a process whose callbacks only send messages, and of which none failed, can always go on, the program enters \<open>wait\<close> only when the
  bot has been shut down, and from the shutdown on it can return from \<open>wait\<close> with the I/O thread joined.
\<close>

theorem polling_plugin_completes:
  assumes "keeps_lock pb" and "acquires_lock pb" and "bot_start k net (Bot hn pt plugin) = (b, None)"
    and "(py_step pb k net polling)\<^sup>*\<^sup>* (py_started b) s" and "\<not> crashed s"
  shows "(\<exists>s'. py_step pb k net polling s s') \<and> (prog s = InWait \<longrightarrow> \<not> isRunning (py_bot s)) \<and>
    (\<not> isRunning (py_bot s) \<longrightarrow> (\<exists>s'. (py_step pb k net polling)\<^sup>*\<^sup>* s s' \<and> \<not> crashed s' \<and> prog s' = InPython \<and>
       \<not> bot_io_thread (py_bot s')))"
proof -
  have inv: "polling_inv s"
    using polling_inv_steps [OF assms(4,1,2) polling_inv_started [OF assms(3)]] assms(5) by simp
  then have "prog s = InWait \<longrightarrow> \<not> isRunning (py_bot s)" by (simp add: polling_inv_def Let_def)
  with polling_not_stuck [OF assms(1) inv assms(5), of k net] polling_completes [OF assms(1) inv assms(5), of k net]
  show ?thesis by blast
qed

text \<open>
  C14: a program that calls \<open>bot.wait()\<close> while the bot runs: \<open>wait\<close> is bound without a call guard
  and keeps the interpreter's lock, so no callback is ever called again, and the first IRC message leaves the
  program and the I/O thread waiting for each other.
\<close>

theorem python_wait_deadlocks:
  assumes "keeps_lock pb" and "acquires_lock pb" and "codec_roundtrip k"
    and "bot_start k net (Bot hn pt plugin) = (b, None)" and "has_onMessage plugin"
    and "py_step pb k net waiting (py_started b) s" and "prog s = InWait"
  shows "(\<forall>s'. (py_step pb k net waiting)\<^sup>*\<^sup>* s s' \<longrightarrow> calls (py_bot s') = []) \<and>
    (\<exists>s'. py_step pb k net waiting s s' \<and> py_io s' = Handling False (Received (ser_message k (irc_payload msg))) \<and>
       (\<forall>s''. \<not> py_step pb k net waiting s' s''))"
proof -
  note st = started_bot [OF assms(4)]
  have s: "s = (py_started b)\<lparr>prog := InWait, lock := Program\<rparr>"
    using assms(6)
  proof cases
    case ps_wait
    with assms(1) show ?thesis by simp
  qed (use assms(7) in \<open>simp_all add: py_started_def handled_def split: prod.splits\<close>)
  have "waiting_inv [] s" unfolding s using st(6) by (simp add: waiting_inv_def py_started_def)
  then have "\<forall>s'. (py_step pb k net waiting)\<^sup>*\<^sup>* s s' \<longrightarrow> calls (py_bot s') = []"
    using waiting_inv_steps [OF _ assms(1,2)] by (auto simp: waiting_inv_def)
  moreover have "py_step pb k net waiting s (s\<lparr>py_io := Handling False (Received (ser_message k (irc_payload msg)))\<rparr>)"
    unfolding s using st irc_message_calls_python [OF assms(3), of b] assms(5)
    by (intro py_step.ps_event) (simp_all add: py_started_def can_arrive_def)
  moreover have "\<not> py_step pb k net waiting (s\<lparr>py_io := Handling eof ev\<rparr>) s''" for eof ev s''
    by (rule waiting_stuck [OF assms(2)]) (simp_all add: s)
  ultimately show ?thesis
    by (intro conjI exI [of _ "s\<lparr>py_io := Handling False (Received (ser_message k (irc_payload msg)))\<rparr>"]) simp_all
qed

text \<open>A callback that stops its bot.\<close>

inductive stopping_step :: "pybind \<Rightarrow> codec \<Rightarrow> network \<Rightarrow> (bot \<Rightarrow> bot_action \<Rightarrow> bool) \<Rightarrow> py_process \<Rightarrow> py_process \<Rightarrow> bool"
  for pb k net may where
  ss_step: "py_step pb k net may s s' \<Longrightarrow> stopping_step pb k net may s s'"
| ss_stop: "\<not> crashed s \<Longrightarrow> py_io s = Calling eof ev \<Longrightarrow>
    stopping_step pb k net may s (s\<lparr>py_bot := bot_act k net Stop (py_bot s)\<rparr>)"

lemma stop_not_running: "\<not> isRunning (bot_act k net Stop b)"
  by (simp add: bot_stop_def isRunning_def Let_def)

text \<open>
  C15: the loop is not right for a plugin whose callback calls \<open>bot.stop()\<close>: if the interpreter
  switches threads before the callback has returned, the program sees that the bot is stopped, enters
  \<open>wait\<close> with the lock, and the program and the callback wait for each other.
\<close>

theorem callback_stop_can_deadlock:
  assumes "keeps_lock pb" and "acquires_lock pb" and "codec_roundtrip k"
    and "bot_start k net (Bot hn pt plugin) = (b, None)" and "has_onMessage plugin"
  shows "\<exists>s. (stopping_step pb k net polling)\<^sup>*\<^sup>* (py_started b) s \<and> prog s = InWait \<and>
    (\<forall>s'. \<not> stopping_step pb k net polling s s')"
proof -
  let ?R = "stopping_step pb k net polling" and ?ev = "Received (ser_message k (irc_payload empty_message))"
  note st = started_bot [OF assms(4)]
  let ?b = "bot_act k net Stop b"
  let ?s = "\<lambda>b l p io. \<lparr>py_bot = b, lock = l, prog = p, py_io = io, crashed = False\<rparr>"
  have c: "calls_python k False ?ev b" using irc_message_calls_python [OF assms(3)] st(5) assms(5) by simp
  have 1: "?R (?s b Program InPython Ready) (?s b Nobody Yielding Ready)"
    using ss_step [OF ps_yield [of "?s b Program InPython Ready" pb k net polling]] by simp
  have 2: "?R (?s b Nobody Yielding Ready) (?s b Nobody Yielding (Handling False ?ev))"
    using ss_step [OF ps_event [of "?s b Nobody Yielding Ready" ?ev k False pb net polling]] c st by (simp add: can_arrive_def)
  have 3: "?R (?s b Nobody Yielding (Handling False ?ev)) (?s b Callback Yielding (Calling False ?ev))"
    using ss_step [OF ps_enter [of "?s b Nobody Yielding (Handling False ?ev)" False ?ev pb k net polling]] by simp
  have 4: "?R (?s b Callback Yielding (Calling False ?ev)) (?s ?b Callback Yielding (Calling False ?ev))"
    using ss_stop [of "?s b Callback Yielding (Calling False ?ev)" False ?ev pb k net polling] by simp
  have 5: "?R (?s ?b Callback Yielding (Calling False ?ev)) (?s ?b Nobody Yielding (Handling False ?ev))"
    using ss_step [OF ps_pause [of "?s ?b Callback Yielding (Calling False ?ev)" False ?ev pb k net polling]] by simp
  have 6: "?R (?s ?b Nobody Yielding (Handling False ?ev)) (?s ?b Program InPython (Handling False ?ev))"
    using ss_step [OF ps_resume [of "?s ?b Nobody Yielding (Handling False ?ev)" pb k net polling]] by simp
  have 7: "?R (?s ?b Program InPython (Handling False ?ev)) (?s ?b Program InWait (Handling False ?ev))"
    using ss_step [OF ps_wait [of "?s ?b Program InPython (Handling False ?ev)" polling pb k net]] assms(1)
      stop_not_running [of k net b] by (simp add: polling_def del: bot_act.simps)
  let ?t = "?s ?b Program InWait (Handling False ?ev)"
  have "?R\<^sup>*\<^sup>* (py_started b) ?t"
    unfolding py_started_def using 1 2 3 4 5 6 7 by (meson converse_rtranclp_into_rtranclp rtranclp.rtrancl_refl)
  moreover have "\<not> ?R ?t s'" for s'
    using waiting_stuck [OF assms(2), of ?t False ?ev k net polling s'] by (auto elim!: stopping_step.cases simp del: bot_act.simps)
  ultimately show ?thesis by (intro exI [of _ ?t]) simp
qed

section \<open>A concrete program\<close>

definition pybind11 :: pybind where
  "pybind11 = \<lparr>keeps_lock = True, acquires_lock = True\<rparr>"

definition running_bot :: bot where
  "running_bot = fst (bot_start wire_codec listening (Bot ''localhost'' 5454 (m_plugin example_bot)))"

lemma running_bot_start: "bot_start wire_codec listening (Bot ''localhost'' 5454 (m_plugin example_bot)) = (running_bot, None)"
  by (simp add: running_bot_def bot_operation_defs listening_def Bot_def)

lemma pybind11_simps [simp]: "keeps_lock pybind11" "acquires_lock pybind11"
  by (simp_all add: pybind11_def)

text \<open>The core shuts the plugin down while the program sleeps.\<close>

definition shutdown_event :: receive_event where
  "shutdown_event = Received (shutdown_bytes wire_codec)"

definition shut_down :: py_process where
  "shut_down = (handled wire_codec False shutdown_event ((py_started running_bot)\<lparr>prog := Yielding,
     py_io := Calling False shutdown_event, lock := Callback\<rparr>))\<lparr>lock := Nobody\<rparr>"

lemma shutdown_calls: "bot_receive_handler wire_codec False shutdown_event running_bot =
  (running_bot\<lparr>bot_socket_open := False, bot_socket_connected := False, m_started := False, calls := [OnShutdown]\<rparr>, None)"
proof -
  have "parse_message wire_codec (shutdown_bytes wire_codec) = (True, \<lparr>msg_type = CONTROL_REQUEST,
     msg_data = CtrlReq \<lparr>cr_type = SHUTDOWN, cr_msg = None, cr_code = None\<rparr>\<rparr>)"
    using wire_roundtrip by (simp add: codec_roundtrip_def shutdown_bytes_def)
  then show ?thesis
    by (simp add: shutdown_event_def bot_receive_handler_def bot_parse_def controlRequest_def ctrl_req_of_def call_def
        bot_operation_defs running_bot_def listening_def Bot_def example_bot_def)
qed

lemma reaches_shut_down:
  "(py_step pybind11 wire_codec listening polling)\<^sup>*\<^sup>* (py_started running_bot) shut_down"
  "\<not> crashed shut_down" "\<not> isRunning (py_bot shut_down)"
proof -
  let ?R = "py_step pybind11 wire_codec listening polling" and ?s = "py_started running_bot"
  let ?s1 = "?s\<lparr>prog := Yielding, lock := Nobody\<rparr>"
  let ?s2 = "?s1\<lparr>py_io := Handling False shutdown_event\<rparr>"
  let ?s3 = "?s2\<lparr>py_io := Calling False shutdown_event, lock := Callback\<rparr>"
  note b = started_bot [OF running_bot_start]
  have 1: "?R ?s ?s1" by (rule py_step.ps_yield) (simp_all add: py_started_def)
  have 2: "?R ?s1 ?s2"
    by (rule py_step.ps_event)
      (simp_all add: py_started_def can_arrive_def b calls_python_def shutdown_calls, simp add: shutdown_event_def b)
  have 3: "?R ?s2 ?s3" by (rule py_step.ps_enter) (simp_all add: py_started_def)
  have "?R ?s3 ((handled wire_codec False shutdown_event ?s3)\<lparr>lock := Nobody\<rparr>)"
    by (rule py_step.ps_return) (simp_all add: py_started_def)
  then have 4: "?R ?s3 shut_down" by (simp add: shut_down_def)
  show "?R\<^sup>*\<^sup>* ?s shut_down" using 1 2 3 4 by (meson converse_rtranclp_into_rtranclp rtranclp.rtrancl_refl)
  have "io_turn wire_codec False shutdown_event running_bot = (running_bot\<lparr>bot_socket_open := False,
     bot_socket_connected := False, m_started := False, calls := [OnShutdown]\<rparr>, None)"
    using b by (simp add: io_turn_def shutdown_calls)
  then show "\<not> crashed shut_down" "\<not> isRunning (py_bot shut_down)"
    by (simp_all add: shut_down_def handled_def py_started_def isRunning_def)
qed

theorem polling_plugin_completes_witness:
  "\<exists>s'. (py_step pybind11 wire_codec listening polling)\<^sup>*\<^sup>* shut_down s' \<and> prog s' = InPython \<and> \<not> bot_io_thread (py_bot s')"
  using polling_plugin_completes [OF pybind11_simps running_bot_start reaches_shut_down(1,2)] reaches_shut_down(3) by blast

theorem python_wait_deadlocks_witness:
  "\<exists>s s'. py_step pybind11 wire_codec listening waiting (py_started running_bot) s \<and> prog s = InWait \<and>
     py_step pybind11 wire_codec listening waiting s s' \<and>
     (\<forall>s''. \<not> py_step pybind11 wire_codec listening waiting s' s'')"
proof -
  have p: "has_onMessage (m_plugin example_bot)" by (simp add: example_bot_def Bot_def)
  let ?s = "(py_started running_bot)\<lparr>prog := InWait, lock := if holds_lock pybind11 ''wait'' then Program else Nobody\<rparr>"
  have w: "py_step pybind11 wire_codec listening waiting (py_started running_bot) ?s"
    by (rule py_step.ps_wait) (simp_all add: py_started_def waiting_def)
  have i: "prog ?s = InWait" by simp
  from python_wait_deadlocks [OF pybind11_simps wire_roundtrip running_bot_start p w i] w i show ?thesis by blast
qed


theorem callback_stop_can_deadlock_witness:
  "\<exists>s. (stopping_step pybind11 wire_codec listening polling)\<^sup>*\<^sup>* (py_started running_bot) s \<and> prog s = InWait \<and>
     (\<forall>s'. \<not> stopping_step pybind11 wire_codec listening polling s s')"
proof -
  have "has_onMessage (m_plugin example_bot)" by (simp add: example_bot_def Bot_def)
  with callback_stop_can_deadlock [OF pybind11_simps wire_roundtrip running_bot_start] show ?thesis by blast
qed

end
