(* ===== verification/Network.thy ===== *)
theory Network
  imports Irc_Prelude
begin

text \<open>
  The network classes (include/ircbot/network, source/network): the byte buffer, the TCP client and
  server, the timer, and the provider of the I/O context with its thread. boost::circular_buffer and
  the sockets of boost::asio are parameters; what asio does later is the error code a handler
  receives.
\<close>

section \<open>Buffer\<close>

text \<open>The operations of \<open>boost::circular_buffer<char>\<close> that \<open>Buffer\<close> uses.\<close>

record 'b circular =
  cb_make :: "nat \<Rightarrow> 'b"
  cb_size :: "'b \<Rightarrow> nat"
  cb_full :: "'b \<Rightarrow> bool"
  cb_empty :: "'b \<Rightarrow> bool"
  cb_insert_end :: "string \<Rightarrow> 'b \<Rightarrow> 'b"
  cb_range :: "nat \<Rightarrow> 'b \<Rightarrow> string"
  cb_erase_begin :: "nat \<Rightarrow> 'b \<Rightarrow> 'b"

definition default_buffer_size :: nat where
  "default_buffer_size = 4096"

definition Buffer :: "'b circular \<Rightarrow> nat \<Rightarrow> 'b" where
  "Buffer cb n = cb_make cb n"

definition buffer_size :: "'b circular \<Rightarrow> 'b \<Rightarrow> nat" where
  "buffer_size cb b = cb_size cb b"

definition buffer_full :: "'b circular \<Rightarrow> 'b \<Rightarrow> bool" where
  "buffer_full cb b = cb_full cb b"

definition buffer_empty :: "'b circular \<Rightarrow> 'b \<Rightarrow> bool" where
  "buffer_empty cb b = cb_empty cb b"

definition buffer_append :: "'b circular \<Rightarrow> string \<Rightarrow> 'b \<Rightarrow> 'b" where
  "buffer_append cb data b = cb_insert_end cb data b"

text \<open>\<open>append(const char*, size_t)\<close> copies the bytes to a string first.\<close>

definition buffer_append_bytes :: "'b circular \<Rightarrow> string \<Rightarrow> nat \<Rightarrow> 'b \<Rightarrow> 'b" where
  "buffer_append_bytes cb data n b = (let t = take n data in buffer_append cb t b)"

definition buffer_get :: "'b circular \<Rightarrow> nat \<Rightarrow> 'b \<Rightarrow> string \<times> 'b" where
  "buffer_get cb num b = (let num = min num (buffer_size cb b) in (cb_range cb num b, cb_erase_begin cb num b))"

definition buffer_get_all :: "'b circular \<Rightarrow> 'b \<Rightarrow> string \<times> 'b" where
  "buffer_get_all cb b = buffer_get cb (buffer_size cb b) b"

text \<open>
  What boost documents: the buffer holds at most its capacity of characters; inserting at the end
  keeps the newest ones. \<open>chars\<close> and \<open>capacity_of\<close> observe a buffer.
\<close>

definition last_n :: "nat \<Rightarrow> 'a list \<Rightarrow> 'a list" where
  "last_n n xs = drop (length xs - n) xs"

definition circular_laws :: "'b circular \<Rightarrow> ('b \<Rightarrow> string) \<Rightarrow> ('b \<Rightarrow> nat) \<Rightarrow> bool" where
  "circular_laws cb chars capacity_of \<longleftrightarrow>
     (\<forall>n. chars (cb_make cb n) = '''' \<and> capacity_of (cb_make cb n) = n) \<and>
     (\<forall>b. cb_size cb b = length (chars b) \<and> (cb_full cb b \<longleftrightarrow> length (chars b) = capacity_of b) \<and>
        (cb_empty cb b \<longleftrightarrow> chars b = '''')) \<and>
     (\<forall>s b. chars (cb_insert_end cb s b) = last_n (capacity_of b) (chars b @ s) \<and>
        capacity_of (cb_insert_end cb s b) = capacity_of b) \<and>
     (\<forall>n b. n \<le> length (chars b) \<longrightarrow> cb_range cb n b = take n (chars b) \<and>
        chars (cb_erase_begin cb n b) = drop n (chars b) \<and> capacity_of (cb_erase_begin cb n b) = capacity_of b)"

lemma last_n_append: "last_n n (last_n n xs @ ys) = last_n n (xs @ ys)"
proof (cases "length xs \<le> n")
  case True
  then show ?thesis by (simp add: last_n_def)
next
  case False
  show ?thesis
  proof (cases "n \<le> length ys")
    case True
    with False show ?thesis by (simp add: last_n_def)
  next
    case n: False
    from False n show ?thesis by (simp add: last_n_def add.commute)
  qed
qed

text \<open>
  Remark: after any sequence of appends to a fresh buffer of capacity \<open>n\<close>, reading \<open>k\<close> characters gives
  the first \<open>k\<close> of the last \<open>n\<close> characters appended and leaves the rest: nothing is reordered, and
  what does not fit drops out from the oldest end.
\<close>

theorem buffer_keeps_newest:
  assumes "circular_laws cb chars capacity_of"
  shows "fst (buffer_get cb k (fold (buffer_append cb) ss (Buffer cb n))) = take k (last_n n (concat ss)) \<and>
    chars (snd (buffer_get cb k (fold (buffer_append cb) ss (Buffer cb n)))) = drop k (last_n n (concat ss))"
proof -
  have "chars (fold (buffer_append cb) ss b) = (if ss = [] then chars b else last_n (capacity_of b) (chars b @ concat ss)) \<and>
      capacity_of (fold (buffer_append cb) ss b) = capacity_of b" for b
  proof (induction ss arbitrary: b)
    case (Cons s ss)
    have "chars (buffer_append cb s b) = last_n (capacity_of b) (chars b @ s)"
      "capacity_of (buffer_append cb s b) = capacity_of b"
      using assms by (simp_all add: circular_laws_def buffer_append_def)
    with Cons.IH [of "buffer_append cb s b"] last_n_append [of "capacity_of b" "chars b @ s" "concat ss"]
    show ?case by simp
  qed simp
  moreover have "chars (Buffer cb n) = ''''" "capacity_of (Buffer cb n) = n"
    using assms by (simp_all add: circular_laws_def Buffer_def)
  ultimately have b: "chars (fold (buffer_append cb) ss (Buffer cb n)) = last_n n (concat ss)"
    by (simp add: last_n_def)
  then have "cb_size cb (fold (buffer_append cb) ss (Buffer cb n)) = length (last_n n (concat ss))"
    using assms by (simp add: circular_laws_def)
  with assms b show ?thesis
    by (auto simp: buffer_get_def buffer_size_def circular_laws_def Let_def min_def)
qed

section \<open>Error codes and handlers\<close>

datatype error_code = Success | OperationAborted | BadDescriptor | OtherError

section \<open>Endpoint\<close>

text \<open>The base class of client and server; \<open>'e\<close> is the endpoint type of the protocol.\<close>

record 'e endpoint =
  m_endpoint :: 'e

definition Endpoint :: "'e \<Rightarrow> 'e endpoint" where
  "Endpoint e = \<lparr>m_endpoint = e\<rparr>"

definition setEndpoint :: "'e \<Rightarrow> ('e, 'z) endpoint_scheme \<Rightarrow> ('e, 'z) endpoint_scheme" where
  "setEndpoint e x = x\<lparr>m_endpoint := e\<rparr>"

definition endpoint_of :: "('e, 'z) endpoint_scheme \<Rightarrow> 'e" where
  "endpoint_of x = m_endpoint x"

section \<open>TcpClient\<close>

text \<open>
  The operations of a socket: a new one, its remote endpoint, \<open>connect\<close> with its error code, the
  exception \<open>shutdown\<close> throws, and \<open>close\<close>. \<open>cl_sent\<close>: what was passed to \<open>async_send\<close>;
  \<open>cl_reading\<close>: a receive is pending; \<open>cl_written\<close> and \<open>cl_read\<close> are the calls of the virtual
  functions \<open>onWrite\<close> and \<open>onRead\<close>.
\<close>

record ('e, 's) socket_ops =
  sk_new :: 's
  sk_remote :: "'s \<Rightarrow> 'e"
  sk_is_open :: "'s \<Rightarrow> bool"
  sk_connect :: "'e \<Rightarrow> 's \<Rightarrow> error_code \<times> 's"
  sk_shutdown :: "'s \<Rightarrow> fault option"
  sk_close :: "'s \<Rightarrow> 's"

record ('e, 's) tcp_client = "'e endpoint" +
  cl_socket :: 's
  cl_sent :: "string list"
  cl_reading :: bool
  cl_written :: "nat list"
  cl_read :: "string list"

definition TcpClient :: "('e, 's) socket_ops \<Rightarrow> 'e \<Rightarrow> ('e, 's) tcp_client" where
  "TcpClient sk e = \<lparr>m_endpoint = e, cl_socket = sk_new sk, cl_sent = [], cl_reading = False, cl_written = [], cl_read = []\<rparr>"

definition TcpClient_of_socket :: "('e, 's) socket_ops \<Rightarrow> 's \<Rightarrow> ('e, 's) tcp_client" where
  "TcpClient_of_socket sk s = \<lparr>m_endpoint = sk_remote sk s, cl_socket = s, cl_sent = [], cl_reading = False,
     cl_written = [], cl_read = []\<rparr>"

definition client_connect :: "('e, 's) socket_ops \<Rightarrow> ('e, 's) tcp_client \<Rightarrow> ('e, 's) tcp_client \<times> fault option" where
  "client_connect sk c =
     (if sk_is_open sk (cl_socket c) then (c, Some (RuntimeError ''Socket is already opened!''))
      else (case sk_connect sk (endpoint_of c) (cl_socket c) of (ec, s) \<Rightarrow>
        (c\<lparr>cl_socket := s\<rparr>, if ec \<noteq> Success then Some (RuntimeError ''Could not connect!'') else None)))"

definition client_send :: "string \<Rightarrow> ('e, 's) tcp_client \<Rightarrow> ('e, 's) tcp_client" where
  "client_send data c = c\<lparr>cl_sent := cl_sent c @ [data]\<rparr>"

definition client_receive :: "('e, 's) tcp_client \<Rightarrow> ('e, 's) tcp_client" where
  "client_receive c = c\<lparr>cl_reading := True\<rparr>"

definition client_disconnect :: "('e, 's) socket_ops \<Rightarrow> ('e, 's) tcp_client \<Rightarrow> ('e, 's) tcp_client \<times> fault option" where
  "client_disconnect sk c =
     (if sk_is_open sk (cl_socket c) then
        (case sk_shutdown sk (cl_socket c) of
           Some f \<Rightarrow> (c, Some f)
         | None \<Rightarrow> (c\<lparr>cl_socket := sk_close sk (cl_socket c), cl_reading := False\<rparr>, None))
      else (c, None))"

text \<open>The destructor disconnects; an exception that leaves a destructor ends the process.\<close>

definition client_destroy :: "('e, 's) socket_ops \<Rightarrow> ('e, 's) tcp_client \<Rightarrow> unit result" where
  "client_destroy sk c = (case client_disconnect sk c of (_, Some _) \<Rightarrow> Inl Terminate | (_, None) \<Rightarrow> Inr ())"

definition writeHandler :: "error_code \<Rightarrow> nat \<Rightarrow> ('e, 's) tcp_client \<Rightarrow> ('e, 's) tcp_client" where
  "writeHandler ec bytes c = (if ec = Success then c\<lparr>cl_written := cl_written c @ [bytes]\<rparr> else c)"

definition readHandler :: "error_code \<Rightarrow> string \<Rightarrow> ('e, 's) tcp_client \<Rightarrow> ('e, 's) tcp_client" where
  "readHandler ec data c =
     (let c = c\<lparr>cl_reading := False\<rparr>;
          c = (if ec = Success then c\<lparr>cl_read := cl_read c @ [data]\<rparr> else c)
      in if ec \<noteq> OperationAborted then client_receive c else c)"

text \<open>
  asio: a failed connect leaves the socket open, and shutting down a socket that is not connected
  throws.
\<close>

definition asio_socket :: "('e, 's) socket_ops \<Rightarrow> ('s \<Rightarrow> bool) \<Rightarrow> bool" where
  "asio_socket sk is_connected \<longleftrightarrow>
     (\<forall>e s. sk_is_open sk (snd (sk_connect sk e s)) \<and>
        (is_connected (snd (sk_connect sk e s)) \<longleftrightarrow> fst (sk_connect sk e s) = Success) \<and>
        \<not> sk_is_open sk (sk_close sk s) \<and> (sk_shutdown sk s = None \<longleftrightarrow> is_connected s))"

text \<open>
  Remark: a client whose connection attempt failed can neither try again nor disconnect: the
  socket is open, so \<open>connect\<close> refuses it, \<open>disconnect\<close> throws, and so the destructor ends the
  process.
\<close>

theorem client_stuck_after_failed_connect:
  assumes "asio_socket sk is_connected" and "client_connect sk c = (c1, Some (RuntimeError ''Could not connect!''))"
  shows "client_connect sk c1 = (c1, Some (RuntimeError ''Socket is already opened!'')) \<and>
    (\<exists>f. client_disconnect sk c1 = (c1, Some f)) \<and> client_destroy sk c1 = Inl Terminate"
proof -
  obtain ec s where s: "sk_connect sk (endpoint_of c) (cl_socket c) = (ec, s)" by fastforce
  with assms(2) have "ec \<noteq> Success" "c1 = c\<lparr>cl_socket := s\<rparr>"
    by (auto simp: client_connect_def split: if_split_asm)
  moreover have "sk_is_open sk s" "is_connected s \<longleftrightarrow> ec = Success" "sk_shutdown sk s = None \<longleftrightarrow> is_connected s"
    using assms(1) s unfolding asio_socket_def by (metis fst_conv snd_conv)+
  ultimately show ?thesis
    by (cases "sk_shutdown sk s") (simp_all add: client_connect_def client_disconnect_def client_destroy_def)
qed

text \<open>The reads of a client: the data of the successful ones, and it reads on unless aborted.\<close>

lemma client_reads:
  "cl_read (fold (\<lambda>(ec, d). readHandler ec d) evs c) =
     cl_read c @ map snd (filter (\<lambda>(ec, d). ec = Success) evs)"
  by (induction evs arbitrary: c) (auto simp: readHandler_def client_receive_def Let_def)

lemma client_rearms: "cl_reading (readHandler ec d c) \<longleftrightarrow> ec \<noteq> OperationAborted"
  by (simp add: readHandler_def client_receive_def Let_def)

section \<open>TcpServer\<close>

text \<open>\<open>sv_accepting\<close>: an accept is pending.\<close>

record ('e, 's) tcp_server = "'e endpoint" +
  sv_acceptor_open :: bool
  sv_accepting :: bool
  sv_clients :: "('e, 's) tcp_client list"

definition TcpServer :: "'e \<Rightarrow> ('e, 's) tcp_server" where
  "TcpServer e = \<lparr>m_endpoint = e, sv_acceptor_open = True, sv_accepting = False, sv_clients = []\<rparr>"

definition createClient :: "('e, 's) socket_ops \<Rightarrow> 's \<Rightarrow> ('e, 's) tcp_client" where
  "createClient sk s = TcpClient_of_socket sk s"

definition startAsyncAccepting :: "('e, 's) tcp_server \<Rightarrow> ('e, 's) tcp_server" where
  "startAsyncAccepting s = s\<lparr>sv_accepting := True\<rparr>"

definition server_start :: "('e, 's) tcp_server \<Rightarrow> ('e, 's) tcp_server" where
  "server_start s = startAsyncAccepting s"

definition server_stop :: "('e, 's) tcp_server \<Rightarrow> ('e, 's) tcp_server" where
  "server_stop s = (if sv_acceptor_open s then s\<lparr>sv_acceptor_open := False\<rparr> else s)"

text \<open>The accept handler, with the socket of the new connection.\<close>

definition server_accept_handler ::
  "('e, 's) socket_ops \<Rightarrow> error_code \<Rightarrow> 's \<Rightarrow> ('e, 's) tcp_server \<Rightarrow> ('e, 's) tcp_server" where
  "server_accept_handler sk ec sock s = (let s = s\<lparr>sv_accepting := False\<rparr> in
     if ec = Success then startAsyncAccepting (s\<lparr>sv_clients := sv_clients s @ [createClient sk sock]\<rparr>)
     else s)"

text \<open>A sequence of completions: one reaches the server only while an accept is pending.\<close>

fun accept_all :: "('e, 's) socket_ops \<Rightarrow> (error_code \<times> 's) list \<Rightarrow> ('e, 's) tcp_server \<Rightarrow> ('e, 's) tcp_server" where
  "accept_all sk [] s = s"
| "accept_all sk ((ec, sock) # evs) s =
     (if sv_accepting s then accept_all sk evs (server_accept_handler sk ec sock s) else s)"

lemma accept_all_clients:
  "sv_accepting s \<Longrightarrow>
   sv_clients (accept_all sk evs s) =
     sv_clients s @ map (createClient sk \<circ> snd) (takeWhile (\<lambda>ev. fst ev = Success) evs) \<and>
   (sv_accepting (accept_all sk evs s) \<longleftrightarrow> (\<forall>ev \<in> set evs. fst ev = Success))"
proof (induction evs arbitrary: s)
  case (Cons ev evs)
  obtain ec sock where ev: "ev = (ec, sock)" by fastforce
  show ?case
  proof (cases "ec = Success")
    case True
    with Cons.IH [of "server_accept_handler sk ec sock s"] Cons.prems ev show ?thesis
      by (simp add: server_accept_handler_def startAsyncAccepting_def)
  next
    case False
    have "accept_all sk evs (server_accept_handler sk ec sock s) = server_accept_handler sk ec sock s"
      using False by (cases evs) (auto simp: server_accept_handler_def)
    with False Cons.prems ev show ?thesis by (simp add: server_accept_handler_def)
  qed
qed simp

text \<open>
  Remark: a started server makes a client of every accepted connection, in order, and keeps
  all of them; the first accept that fails, for whatever reason, is its last: it never accepts again,
  although its acceptor is open.
\<close>

theorem server_ends_at_first_error:
  "sv_clients (accept_all sk evs (server_start (TcpServer e))) =
     map (TcpClient_of_socket sk \<circ> snd) (takeWhile (\<lambda>ev. fst ev = Success) evs) \<and>
   (sv_accepting (accept_all sk evs (server_start (TcpServer e))) \<longleftrightarrow> (\<forall>ev \<in> set evs. fst ev = Success)) \<and>
   sv_acceptor_open (server_start (TcpServer e))"
proof -
  have "createClient sk = TcpClient_of_socket sk" by (rule ext) (simp add: createClient_def)
  then show ?thesis
    using accept_all_clients [of "server_start (TcpServer e)" sk evs]
    by (simp add: server_start_def startAsyncAccepting_def TcpServer_def)
qed

section \<open>Timer\<close>

datatype timer_result = TIMER_OK | TIMER_CANCEL | TIMER_ERROR

text \<open>\<open>tm_expiry\<close> in the ticks of the steady clock.\<close>

record 'w timer =
  m_f :: "timer_result \<Rightarrow> 'w \<Rightarrow> 'w"
  tm_expiry :: int
  tm_waiting :: bool

definition Timer_after :: "int \<Rightarrow> int \<Rightarrow> (timer_result \<Rightarrow> 'w \<Rightarrow> 'w) \<Rightarrow> 'w timer" where
  "Timer_after now duration f = \<lparr>m_f = f, tm_expiry = now + duration, tm_waiting = False\<rparr>"

definition Timer_at :: "int \<Rightarrow> (timer_result \<Rightarrow> 'w \<Rightarrow> 'w) \<Rightarrow> 'w timer" where
  "Timer_at time_point f = \<lparr>m_f = f, tm_expiry = time_point, tm_waiting = False\<rparr>"

definition waitHandler :: "'w timer \<Rightarrow> error_code \<Rightarrow> 'w \<Rightarrow> 'w" where
  "waitHandler t ec =
     (if ec = Success then m_f t TIMER_OK else if ec = OperationAborted then m_f t TIMER_CANCEL
      else m_f t TIMER_ERROR)"

definition timer_wait :: "'w timer \<Rightarrow> error_code \<Rightarrow> 'w \<Rightarrow> 'w" where
  "timer_wait t ec = waitHandler t ec"

definition timer_async_wait :: "'w timer \<Rightarrow> 'w timer" where
  "timer_async_wait t = t\<lparr>tm_waiting := True\<rparr>"

text \<open>A pending wait completes with \<open>operation_aborted\<close>, later and on the I/O thread.\<close>

definition timer_cancel :: "'w timer \<Rightarrow> 'w timer" where
  "timer_cancel t = t\<lparr>tm_waiting := False\<rparr>"

definition setFunction :: "(timer_result \<Rightarrow> 'w \<Rightarrow> 'w) \<Rightarrow> 'w timer \<Rightarrow> 'w timer" where
  "setFunction f t = t\<lparr>m_f := f\<rparr>"

section \<open>ContextProvider\<close>

text \<open>
  \<open>ctx_thread\<close>: the thread is joinable; \<open>ctx_stopped\<close>: the context has been told to stop;
  \<open>ctx_work\<close>: the object that keeps an idle context running.
\<close>

record context_provider =
  ctx_work :: bool
  ctx_thread :: bool
  ctx_stopped :: bool

definition ContextProvider :: context_provider where
  "ContextProvider = \<lparr>ctx_work = False, ctx_thread = False, ctx_stopped = False\<rparr>"

text \<open>Moving a thread into a joinable one calls \<open>std::terminate\<close>.\<close>

definition context_run :: "context_provider \<Rightarrow> context_provider result" where
  "context_run p = (if ctx_thread p then Inl Terminate
     else Inr (p\<lparr>ctx_stopped := False, ctx_work := True, ctx_thread := True\<rparr>))"

definition stopWork :: "context_provider \<Rightarrow> context_provider" where
  "stopWork p = (if ctx_work p then p\<lparr>ctx_work := False\<rparr> else p)"

definition context_stop :: "context_provider \<Rightarrow> context_provider" where
  "context_stop p = (let p = stopWork p in
     if ctx_thread p then p\<lparr>ctx_stopped := True, ctx_thread := False\<rparr> else p)"

lemma context_stop_idempotent: "context_stop (context_stop p) = context_stop p"
  by (simp add: context_stop_def stopWork_def Let_def)

lemma context_restarts: "context_run (context_stop p) = Inr \<lparr>ctx_work = True, ctx_thread = True, ctx_stopped = False\<rparr>"
  by (simp add: context_stop_def context_run_def stopWork_def Let_def)

section \<open>Concrete buffers and sockets\<close>

text \<open>A buffer as its capacity and contents; a socket as the pair of flags open and connected.\<close>

definition list_circular :: "(nat \<times> string) circular" where
  "list_circular = \<lparr>cb_make = (\<lambda>n. (n, '''')), cb_size = (\<lambda>b. length (snd b)),
     cb_full = (\<lambda>b. length (snd b) = fst b), cb_empty = (\<lambda>b. snd b = ''''),
     cb_insert_end = (\<lambda>s b. (fst b, last_n (fst b) (snd b @ s))), cb_range = (\<lambda>n b. take n (snd b)),
     cb_erase_begin = (\<lambda>n b. (fst b, drop n (snd b)))\<rparr>"

lemma list_circular_laws: "circular_laws list_circular snd fst"
  by (simp add: circular_laws_def list_circular_def)

definition failing_socket :: "(nat, bool \<times> bool) socket_ops" where
  "failing_socket = \<lparr>sk_new = (False, False), sk_remote = (\<lambda>_. 0), sk_is_open = fst,
     sk_connect = (\<lambda>_ _. (OtherError, (True, False))),
     sk_shutdown = (\<lambda>s. if snd s then None else Some (SystemError ''shutdown'')), sk_close = (\<lambda>_. (False, False))\<rparr>"

theorem buffer_keeps_newest_witness:
  "fst (buffer_get list_circular 2 (fold (buffer_append list_circular) [''ab'', ''cde''] (Buffer list_circular 4))) = ''bc''"
  using buffer_keeps_newest [OF list_circular_laws, of 2 "[''ab'', ''cde'']" 4]
  by (simp add: last_n_def numeral_eq_Suc)

theorem client_stuck_after_failed_connect_witness:
  "\<exists>c1. client_connect failing_socket (TcpClient failing_socket 7) = (c1, Some (RuntimeError ''Could not connect!'')) \<and>
     client_destroy failing_socket c1 = Inl Terminate"
proof -
  have "asio_socket failing_socket snd" by (simp add: asio_socket_def failing_socket_def)
  moreover obtain c1 where
    "client_connect failing_socket (TcpClient failing_socket 7) = (c1, Some (RuntimeError ''Could not connect!''))"
    by (simp add: client_connect_def failing_socket_def TcpClient_def)
  ultimately show ?thesis using client_stuck_after_failed_connect by blast
qed

theorem server_ends_at_first_error_witness:
  "sv_clients (accept_all failing_socket
     [(Success, (True, True)), (OtherError, (False, False)), (Success, (True, True))] (server_start (TcpServer 7))) =
     [TcpClient_of_socket failing_socket (True, True)]"
  using conjunct1 [OF server_ends_at_first_error
    [of failing_socket "[(Success, (True, True)), (OtherError, (False, False)), (Success, (True, True))]" 7]]
  by (simp del: accept_all.simps)

end
