(* ===== verification/Unit_Tests.thy ===== *)
theory Unit_Tests
  imports Irc_Parser Command_Parser Network
begin

text \<open>
  The unit tests of the repository (tests/irc_parser_test.cpp, tests/command_parser_test.cpp,
  tests/network_buffer.cpp) as statements about the model: a test is the conjunction of its
  assertions. The other test programs assert nothing.
\<close>

section \<open>IRCParserTest\<close>

definition correct_simple_messages :: "string list" where
  "correct_simple_messages =
     ['':KolK1!~KolK2@example.com PRIVMSG #cmake :testing message'' @ [CR, LF],
      ''PRIVMSG #agaran :dzie'' @ [CHR 0xC5, CHR 0x84] @ '' dobry'' @ [CR, LF],
      '':TestServer PRIVMSG #cmake parameter :testing message'' @ [CR, LF],
      '':TestServer 123 param1 param2'' @ [CR, LF]]"

definition CorrectSimpleMessages :: bool where
  "CorrectSimpleMessages =
     (let parser = fold (\<lambda>msg p. parse p msg) correct_simple_messages new_IRCParser; messages = m_messages parser in
      messagesCount parser = length correct_simple_messages \<and>
      servername (messages ! 0) = '''' \<and> nick (messages ! 0) = ''KolK1'' \<and> user (messages ! 0) = ''~KolK2'' \<and>
      host (messages ! 0) = ''example.com'' \<and> command (messages ! 0) = ''PRIVMSG'' \<and>
      params (messages ! 0) = [''#cmake'', ''testing message''] \<and>
      servername (messages ! 1) = '''' \<and> nick (messages ! 1) = '''' \<and> user (messages ! 1) = '''' \<and>
      host (messages ! 1) = '''' \<and> command (messages ! 1) = ''PRIVMSG'' \<and>
      params (messages ! 1) = [''#agaran'', ''dzie'' @ [CHR 0xC5, CHR 0x84] @ '' dobry''] \<and>
      servername (messages ! 2) = ''TestServer'' \<and> nick (messages ! 2) = '''' \<and> user (messages ! 2) = '''' \<and>
      host (messages ! 2) = '''' \<and> command (messages ! 2) = ''PRIVMSG'' \<and>
      params (messages ! 2) = [''#cmake'', ''parameter'', ''testing message''] \<and>
      servername (messages ! 3) = ''TestServer'' \<and> nick (messages ! 3) = '''' \<and> user (messages ! 3) = '''' \<and>
      host (messages ! 3) = '''' \<and> command (messages ! 3) = ''123'' \<and>
      params (messages ! 3) = [''param1'', ''param2''])"

definition NoCR :: bool where
  "NoCR =
     (let parser = parse new_IRCParser ('':User!~TestUser@example.com PRIVMSG #cmake testing message :long message'' @ [LF]) in
      messagesCount parser = 1 \<and>
      (case getMessage parser of
         Inl e \<Rightarrow> False
       | Inr (msg, _) \<Rightarrow> servername msg = '''' \<and> nick msg = ''User'' \<and> user msg = ''~TestUser'' \<and>
           host msg = ''example.com'' \<and> command msg = ''PRIVMSG'' \<and>
           params msg = [''#cmake'', ''testing'', ''message'', ''long message'']))"

lemma CorrectSimpleMessages: CorrectSimpleMessages
  by code_simp

lemma NoCR: NoCR
  by code_simp

section \<open>CommandParserTest\<close>

definition test_config :: parser_config where
  "test_config = \<lparr>prefix = CHR ''/'', parseOneCommand = False\<rparr>"

text \<open>The command has the given name, and its first arguments are the given ones.\<close>

definition expect_command :: "string \<Rightarrow> string \<Rightarrow> string list \<Rightarrow> bool" where
  "expect_command line name args = (case command_parse test_config line of
     Inl e \<Rightarrow> False
   | Inr c \<Rightarrow> cmd_command c = name \<and> take (length args) (arguments c) = args)"

definition CorrectCommands :: bool where
  "CorrectCommands =
     (expect_command ''/test arg1 arg2'' ''test'' [''arg1'', ''arg2''] \<and>
      expect_command ''/test arg1'' ''test'' [''arg1''] \<and>
      expect_command (''/CoM2 '' @ [DQUOTE] @ ''arg1'' @ [DQUOTE] @ '' '' @ [DQUOTE] @ ''arg'' @ [QUOTE] @ ''2'' @ [DQUOTE])
        ''CoM2'' [''arg1'', ''arg'' @ [QUOTE] @ ''2''] \<and>
      expect_command (''/2Com '' @ [QUOTE] @ ''arg1'' @ [QUOTE] @ '' arg2'' @ [QUOTE] @ ''arg3 arg4'' @ [QUOTE])
        ''2Com'' [''arg1'', ''arg2arg3 arg4''] \<and>
      map_sum id arguments (command_parse test_config ''/x'') = Inr [] \<and> expect_command ''/x'' ''x'' [] \<and>
      expect_command (''/x arg'' @ [ESCAPE] @ '' with'' @ [ESCAPE] @ '' spaces'' @ [QUOTE] @ '' !'' @ [QUOTE])
        ''x'' [''arg with spaces !''] \<and>
      expect_command (''/x '' @ [DQUOTE, ESCAPE, DQUOTE] @ ''arg1'' @ [ESCAPE, DQUOTE] @ '' arg2'' @ [DQUOTE])
        ''x'' [[DQUOTE] @ ''arg1'' @ [DQUOTE] @ '' arg2''])"

definition expect_throw :: "string \<Rightarrow> bool" where
  "expect_throw line = (case command_parse test_config line of Inl (UnexpectedCharacter _ _) \<Rightarrow> True | _ \<Rightarrow> False)"

definition IncorrectCommands :: bool where
  "IncorrectCommands \<longleftrightarrow> (\<forall>line \<in> set [''/x! arg'' @ [LF], ''/x_ 1arg'' @ [LF], ''x arg'' @ [LF], ''!a'' @ [LF]]. expect_throw line)"

lemma CorrectCommands: CorrectCommands
  by code_simp

lemma IncorrectCommands: IncorrectCommands
  by code_simp

section \<open>NetworkBuffer\<close>

definition digits :: string where
  "digits = ''0123456789''"

definition Append :: "'b circular \<Rightarrow> bool" where
  "Append cb = (let buf = Buffer cb 10; buf' = buffer_append cb digits buf in
     buffer_empty cb buf \<and> buffer_size cb buf' = length digits \<and> buffer_full cb buf')"

definition Get0 :: "'b circular \<Rightarrow> bool" where
  "Get0 cb = (case buffer_get cb 3 (buffer_append cb digits (Buffer cb (length digits))) of
     (data, buf) \<Rightarrow> data = take 3 digits \<and> buffer_size cb buf = length digits - 3)"

definition Get1 :: "'b circular \<Rightarrow> bool" where
  "Get1 cb \<longleftrightarrow> fst (buffer_get cb (length digits) (buffer_append cb ''abc'' (buffer_append cb digits
     (Buffer cb (length digits))))) = ''3456789abc''"

definition Overflow0 :: "'b circular \<Rightarrow> bool" where
  "Overflow0 cb \<longleftrightarrow> fst (buffer_get cb (length digits) (buffer_append cb (rev digits) (buffer_append cb digits
     (Buffer cb (length digits))))) = rev digits"

definition Overflow1 :: "'b circular \<Rightarrow> bool" where
  "Overflow1 cb = (let tmp = ''01234567899876543210''; buf_size = length tmp div 2 in
     fst (buffer_get_all cb (buffer_append cb tmp (Buffer cb buf_size))) = drop buf_size tmp)"

lemma buffer_tests:
  assumes "circular_laws cb chars capacity_of"
  shows "Append cb \<and> Get0 cb \<and> Get1 cb \<and> Overflow0 cb \<and> Overflow1 cb"
  using assms
  by (simp add: Append_def Get0_def Get1_def Overflow0_def Overflow1_def digits_def circular_laws_def Buffer_def
      buffer_append_def buffer_get_def buffer_get_all_def buffer_size_def buffer_full_def buffer_empty_def last_n_def Let_def)

section \<open>Properties\<close>

text \<open>
  Remark: the model passes the unit tests of the repository, those of the buffer with every
  ring buffer that behaves as documented.
\<close>

theorem unit_tests_pass:
  assumes "circular_laws cb chars capacity_of"
  shows "CorrectSimpleMessages \<and> NoCR \<and> CorrectCommands \<and> IncorrectCommands \<and>
    Append cb \<and> Get0 cb \<and> Get1 cb \<and> Overflow0 cb \<and> Overflow1 cb"
  using CorrectSimpleMessages NoCR CorrectCommands IncorrectCommands buffer_tests [OF assms] by blast


theorem unit_tests_pass_witness:
  "CorrectSimpleMessages \<and> NoCR \<and> CorrectCommands \<and> IncorrectCommands \<and> Get1 list_circular \<and> Overflow1 list_circular"
  using unit_tests_pass [OF list_circular_laws] by blast

end
