(* ===== verification/Version_Info.thy ===== *)
theory Version_Info
  imports Irc_Prelude
begin

text \<open>
  The version text (include/ircbot/version.hpp, source/version.cpp). The constants come from the
  build: the numbers, the state of the repository, and a release name and type that may be
  undefined.
\<close>

record version_configuration =
  VERSION_MAJOR :: "16 word"
  VERSION_MINOR :: "16 word"
  VERSION_PATCH :: "16 word"
  RELEASE_TYPE :: "string option"
  RELEASE_NAME :: "string option"
  GIT_REF :: string
  GIT_COMMIT :: string

definition version_number :: "version_configuration \<Rightarrow> string" where
  "version_number v = ''v'' @ to_string (unat (VERSION_MAJOR v)) @ ''.'' @ to_string (unat (VERSION_MINOR v)) @
     ''.'' @ to_string (unat (VERSION_PATCH v)) @ '' ''"

definition version_str :: "version_configuration \<Rightarrow> string" where
  "version_str v =
     (case RELEASE_NAME v of Some name \<Rightarrow> name @ '' '' | None \<Rightarrow> '''') @
     version_number v @
     (case RELEASE_TYPE v of Some type \<Rightarrow> ''['' @ type @ ''] '' | None \<Rightarrow> '''') @
     ''(git-commit '' @ GIT_COMMIT v @ ''; git-ref '' @ GIT_REF v @ '')''"

lemma to_string_inject: "to_string m = to_string n \<Longrightarrow> m = n"
  using digits_value_to_string by (metis of_nat_eq_iff)

lemma number_prefix_inject:
  assumes "to_string m @ x # xs = to_string n @ y # ys" and "\<not> is_digit x" and "\<not> is_digit y"
  shows "m = n \<and> x = y \<and> xs = ys"
proof -
  have t: "takeWhile is_digit (to_string k @ z # zs) = to_string k" if "\<not> is_digit z" for k z zs
    using to_string_digits [of k] that by (subst takeWhile_append2) simp_all
  have "to_string m = to_string n"
    using t [OF assms(2), of m xs] t [OF assms(3), of n ys] assms(1) by metis
  with assms(1) show ?thesis using to_string_inject by (metis list.inject same_append_eq)
qed

text \<open>Without a release name, builds with the same text have the same number.\<close>

lemma version_text_determines_number:
  assumes "version_str v = version_str w" and "RELEASE_NAME v = None" and "RELEASE_NAME w = None"
  shows "VERSION_MAJOR v = VERSION_MAJOR w \<and> VERSION_MINOR v = VERSION_MINOR w \<and> VERSION_PATCH v = VERSION_PATCH w"
proof -
  have dot: "\<not> is_digit CHR ''.''" and blank: "\<not> is_digit CHR '' ''" by (simp_all add: is_digit_def)
  obtain r s where rs: "to_string (unat (VERSION_MAJOR v)) @ CHR ''.'' # to_string (unat (VERSION_MINOR v)) @ CHR ''.'' #
        to_string (unat (VERSION_PATCH v)) @ CHR '' '' # r =
      to_string (unat (VERSION_MAJOR w)) @ CHR ''.'' # to_string (unat (VERSION_MINOR w)) @ CHR ''.'' #
        to_string (unat (VERSION_PATCH w)) @ CHR '' '' # s"
    using assms by (auto simp: version_str_def version_number_def)
  then have "unat (VERSION_MAJOR v) = unat (VERSION_MAJOR w) \<and> unat (VERSION_MINOR v) = unat (VERSION_MINOR w) \<and>
      unat (VERSION_PATCH v) = unat (VERSION_PATCH w)"
    using number_prefix_inject [OF _ dot dot] number_prefix_inject [OF _ blank blank] by metis
  then show ?thesis by (simp add: word_unat_eq_iff)
qed

definition version_0_3_0 :: version_configuration where
  "version_0_3_0 = \<lparr>VERSION_MAJOR = 0, VERSION_MINOR = 3, VERSION_PATCH = 0, RELEASE_TYPE = None,
     RELEASE_NAME = None, GIT_REF = ''master'', GIT_COMMIT = ''abc''\<rparr>"

lemma version_0_3_0_text: "version_str version_0_3_0 = ''v0.3.0 (git-commit abc; git-ref master)''"
  by code_simp

end
