(* ===== verification/Spec2Isabelle.thy ===== *)
theory Spec2Isabelle
  imports Main_Program Bundled_Bot Bot_Runs Bot_Sessions Plugin_Link Py_Threads Unit_Tests Version_Info
begin

text \<open>
  A model of \<open>ircbot\<close>, an IRC client in C++ that delivers the messages of a server to plugins:
  shared libraries, or programs that connect over TCP (\<open>pyircbot\<close>). All paths below are relative
  to the source directory of the repository.

  \<^bold>\<open>How the parts interact.\<close> The I/O thread of the \<open>ContextProvider\<close> runs completion handlers. The handler
  of \<open>Core::startAsyncReceive\<close> passes the received bytes to the \<open>IRCParser\<close>, takes the parsed
  messages from its queue and offers each of them to every plugin: \<open>preFilter\<close>, then the virtual
  \<open>filter\<close>, then \<open>receive\<close>, which puts it into the mailbox of the plugin. Each plugin has a thread that
  takes one message at a time from the mailbox and calls \<open>onMessage\<close>, or \<open>onCommand\<close> with the result of
  the \<open>CommandParser\<close> it has installed. Plugins send messages with \<open>Core::send\<close>. The admin port reloads
  and restarts plugins and stops the core, the TCP plugin server accepts connections that become
  plugins, and the main program starts a new core as long as the result of the last one is not \<open>OK\<close>.

  \<^bold>\<open>The theories\<close>, in the order in which they build on each other.

  \<^item> \<open>Irc_Prelude\<close>: results of fallible code (\<open>fault + 'a\<close>, the faults being the exceptions, the calls
    that terminate the process, undefined behaviour and blocking for ever), the effects a handler of a
    plugin has on the client it runs in, the interface \<open>fifo\<close> of a queue and the interface \<open>table\<close> of
    a finite map, with the lemmas that their clients share.
  \<^item> \<open>Irc_Message\<close>: \<open>IRCMessage\<close> (\<open>source/irc_message.cpp\<close>) and the functions of \<open>source/helpers.cpp\<close>.
  \<^item> \<open>Irc_Parser\<close>: \<open>source/irc_parser.cpp\<close>. The record \<open>irc_parser\<close> has the fields of the class; the token
    under construction is a local variable of \<open>lexer\<close> and is lost at the end of a call. The pieces of
    \<open>line_pieces\<close> are where the text of a message can be cut between two reads. The lemmas give
    the invariant of the states between two calls (step relation \<open>parser_reach\<close>), the round trip with
    \<open>toString\<close>, and what happens to input that is cut inside a token.
  \<^item> \<open>Command_Parser\<close>: \<open>source/command_parser.cpp\<close> with its six local variables as the record \<open>cp\<close>. An
    abstract specification (\<open>command_spec\<close>) splits the text into a name and arguments, and the loop is
    proved to refine it; the errors are characterised, and commands are printed and parsed back.
  \<^item> \<open>Bot_Config\<close>: \<open>Config\<close> over the operations of yaml-cpp, which are a parameter.
  \<^item> \<open>Plugin_Base\<close>: \<open>source/plugin.cpp\<close>. A plugin is a record with the members of the class; its virtual
    functions are the record \<open>plugin_class\<close>. \<open>plugin_step\<close> is the relation of the interleaved steps of the
    plugin's thread, of the I/O thread and of a thread in \<open>stop\<close>. The mailbox is an interpretation of
    \<open>fifo\<close>, the table of functions one of \<open>table\<close>.
  \<^item> \<open>Bundled_Plugins\<close>: the plugins of the directory \<open>plugins\<close>, each as a \<open>plugin_class\<close>.
  \<^item> \<open>Handler_Logic\<close>: rules for what a handler keeps and what it asks of the core (\<open>ok_at\<close>), and the locale
    \<open>plugin_contract\<close>: if the virtual functions and the command functions of a class keep an invariant and
    have only permitted effects, so does the plugin in every step of its thread.
  \<^item> \<open>Bot_Core\<close>: \<open>source/core.cpp\<close>. The record \<open>core\<close> has the fields of the class that are read again;
    \<open>outgoing\<close> collects what was passed to \<open>async_send\<close>. The loop of \<open>connect\<close> is a partial function, whose
    termination is proved where it holds. A read returns at most the 4096 characters of \<open>m_buffer\<close> (\<open>fits_buffer\<close>). \<open>core_event\<close> and \<open>core_step\<close> describe the life of a core.
  \<^item> \<open>Bot_System\<close>: the same core while it runs, with the receive handler cut into steps (\<open>io_step\<close>) that
    interleave with the threads of all plugins (\<open>thread_turn\<close>). It is proved to refine a log that each
    plugin reads at its own pace (\<open>bus_step\<close>), to keep the contracts of the plugins, and to be able to
    catch up; one busy plugin stops the I/O thread.
  \<^item> \<open>Bot_Control\<close>: starting, restarting and stopping while those threads run. Each of them is a task
    (\<open>task_step\<close>), cut at the joins of \<open>Plugin::stop\<close>, on the main thread or, for a command of the admin port,
    on the I/O thread between two handlers. A connection that fails makes the I/O thread
    stop the core. Two uses of the vector of plugins at the same time set the flag
    \<open>k_undefined\<close>. Commands are proved to lose no message and a shutdown to be able to complete; a signal, the
    start-up and a plugin restarted twice are proved to go wrong in some interleaving.
  \<^item> \<open>Bot_Reload\<close>: \<open>Core::reloadPlugin\<close> among those tasks (\<open>reload_step\<close>): the join, the removal of the old object, the
    loading of the new one and its start, on the I/O thread (\<open>reload_control\<close>). A reload can be carried out to
    its end, keeps the vector of plugins safe as long as there is no signal, and is not safe with one.
  \<^item> \<open>Bot_Runs\<close>: the tasks cut into steps against the functions of \<open>Bot_Core\<close>. What a task still has to do
    (\<open>rest_of_task\<close>, \<open>rest_of_reload\<close>) does not change in its steps; undisturbed, and with joins that need not wait,
    the steps and the function have the same result.
  \<^item> \<open>Bot_Sessions\<close>: one session after another, as the loop of \<open>main\<close> makes them: the parser is the same.
  \<^item> \<open>Bundled_Bot\<close>: the bundled plugins as interpretations of \<open>plugin_contract\<close>, for the contract that
    every message sent is one line; \<open>SoPlugin\<close> and the function \<open>getPlugin\<close> of each library; and the two
    ways in which a message with a line break does leave the bot.
  \<^item> \<open>Logging\<close>: the logger, its levels (an instance of \<open>linorder\<close>) and its outputs.
  \<^item> \<open>Admin_Port\<close>: \<open>source/admin_port.cpp\<close>, and the vector of clients with the addresses that pending
    receives keep.
  \<^item> \<open>Main_Program\<close>: \<open>program/ircbot.cpp\<close>: configuration of the logs, the fork of the daemon, the exit
    status and the loop that starts a core, waits for its end and decides whether to start another.
  \<^item> \<open>Tcp_Plugin\<close>: \<open>source/tcp_plugin.cpp\<close> and \<open>source/tcp_plugin_server.cpp\<close>.
  \<^item> \<open>Py_Bot\<close>: \<open>pyircbot/bot.cpp\<close>, the other end of the connection of a TCP plugin, with the life cycle of its
    socket, its I/O thread and its \<open>io_service\<close>.
  \<^item> \<open>Plugin_Stream\<close>: what the two ends make of messages that arrive in one read.
  \<^item> \<open>Plugin_Link\<close>: the two ends together, from the registration of a bot to the reply of its plugin.
  \<^item> \<open>Py_Threads\<close>: \<open>pyircbot/pyircbot.cpp\<close>: a Python program between the lock of the interpreter and the
    I/O thread of its bot (\<open>py_step\<close>), with the loop of the programs in \<open>py-plugins\<close>, with a
    program that waits, and with a callback that stops its bot.
  \<^item> \<open>Network\<close>: the classes of \<open>source/network\<close>: buffer, endpoint, TCP client and server, timer, context
    provider.
  \<^item> \<open>Version_Info\<close>: \<open>source/version.cpp\<close>.
  \<^item> \<open>Unit_Tests\<close>: the tests of the parsers and of the buffer (\<open>tests\<close>), as statements that the model satisfies.
  \<^item> This theory: what spans the server, the core and the plugins.

  \<^bold>\<open>Parameters.\<close> Code outside the repository is a parameter: yaml-cpp as the record \<open>yaml\<close>, the operating
  system, the resolver, the sockets and the dynamic loader as the record \<open>env\<close>, the encoding of
  protobuf messages as a \<open>codec\<close> with the documented laws \<open>codec_roundtrip\<close>, \<open>shared_first_field\<close> and
  \<open>codec_merges\<close> (concatenated messages are read as their merge) as hypotheses, which a concrete codec
  satisfies; pybind11 as the record \<open>pybind\<close>, with what its documentation says of the lock of the interpreter.

  \<^bold>\<open>Termination.\<close> There is no fuel. The token loop of \<open>IRCParser::parser\<close> consumes its queue, the dispatch
  loop of the core runs over \<open>messagesCount\<close> as read before the loop, as in the code, and the loop of
  \<open>connect\<close> may never end, so it is a partial function and its value \<open>None\<close> is characterised.

  \<^bold>\<open>Atomicity.\<close> The operations of the core are sequential functions. \<open>Plugin::stop\<close>, which joins the thread of
  the plugin, is seen in them after the thread has ended; that the thread does end, or does not, is the
  subject of the interleaved relation of \<open>Plugin_Base\<close>. In \<open>Bot_System\<close> the I/O thread and the plugin
  threads interleave step by step; the handling of one message by a plugin is one step, during which
  the plugin holds its mutex. In \<open>Bot_Control\<close> restarts, stops, the start-up and signals interleave with them; the
  second half of \<open>Plugin::stop\<close> and the end of \<open>Core::stop\<close> are one step each, and a task whose next operation
  throws has no step, as the process ends there. In \<open>Bot_Reload\<close> the removal of the old plugin and the loading of
  the new one are one step each.

  \<^bold>\<open>Not modelled.\<close> The names given to threads, which only a debugger sees; in the bindings for Python the
  conversion of arguments and the exposed fields, which are declarations for a library that is not
  part of the repository; the plugins in Python, but for the loop that all of them end with; the
  clock, whose readings are parameters; what the operating system does between the start of an
  operation and its handler; the parsing of the command line, by a library; the tests of the timer and of
  the TCP classes, which assert nothing; the build. In the interleaved relations no TCP plugin connects during a session
  (\<open>Tcp_Plugin\<close> has the connection as a sequential operation), and an aborted receive has no step, as its handler only logs.
\<close>

section \<open>From the server to the plugins and back\<close>

text \<open>Several reads, one after another: the plugins get what the parser makes of all of them.\<close>

lemma fold_parse_earlier:
  "fold (\<lambda>read q. parse q (concat read)) reads (earlier ms p) = earlier ms (fold (\<lambda>read q. parse q (concat read)) reads p)"
  by (induction reads arbitrary: p) (simp_all add: earlier_parse)

lemma reads_to_plugins:
  assumes "fold_result (\<lambda>read. receive_handler env (Received (concat read))) reads c = Inr c'" and "m_messages (m_parser c) = []"
  shows "m_plugins c' = map (fold deliver (m_messages (fold (\<lambda>read q. parse q (concat read)) reads (m_parser c)))) (m_plugins c) \<and>
    m_parser c' = (fold (\<lambda>read q. parse q (concat read)) reads (m_parser c))\<lparr>m_messages := []\<rparr>"
  using assms
proof (induction reads arbitrary: c)
  case Nil
  then show ?case by (simp add: parser_no_messages)
next
  case (Cons r rs)
  let ?p = "parse (m_parser c) (concat r)"
  let ?q = "fold (\<lambda>read q. parse q (concat read)) rs (?p\<lparr>m_messages := []\<rparr>)"
  from Cons.prems(1) obtain d where d: "receive_handler env (Received (concat r)) c = Inr d"
    "fold_result (\<lambda>read. receive_handler env (Received (concat read))) rs d = Inr c'" by (auto simp: bind_result_Inr_iff)
  note one = receive_plugins [OF d(1)]
  from Cons.IH [OF d(2)] one have rest: "m_plugins c' = map (fold deliver (m_messages ?q)) (m_plugins d)"
    "m_parser c' = ?q\<lparr>m_messages := []\<rparr>" by simp_all
  have "earlier (m_messages ?p) (?p\<lparr>m_messages := []\<rparr>) = ?p" by (simp add: earlier_def)
  then have all: "fold (\<lambda>read q. parse q (concat read)) (r # rs) (m_parser c) = earlier (m_messages ?p) ?q"
    using fold_parse_earlier [of rs "m_messages ?p" "?p\<lparr>m_messages := []\<rparr>"] by (simp only: fold.simps comp_apply)
  from rest one(1) show ?case unfolding all by (simp add: earlier_def comp_def)
qed

text \<open>
  C1: a stream of messages that the server sends reaches every plugin completely and in order, in
  however many reads it arrives, as long as each read fits the buffer of 4096 characters (with a longer one the handler
  does not return normally) and ends at one of the points of \<open>line_pieces\<close>, where no token is cut: each plugin finds in its
  mailbox exactly the messages of the stream that its filters accept, with every field as it was sent, and the
  parser is ready for the next line. A read that ends inside a token loses a part of it (\<open>parse_inside_token_lost\<close>,
  \<open>parse_split_nick\<close>).
\<close>

theorem server_stream_delivered:
  assumes "idle (m_parser c)" and "m_messages (m_parser c) = []" and "\<forall>m \<in> set ms. canonical m"
    and "concat reads = concat (map line_pieces ms)"
    and "fold_result (\<lambda>read. receive_handler env (Received (concat read))) reads c = Inr c'"
    and "i < length (m_plugins c)"
  shows "m_incoming (m_plugins c' ! i) =
      m_incoming (m_plugins c ! i) @ filter (\<lambda>m. accepts m (m_plugins c ! i)) ms \<and>
    m_parser c' = m_parser c"
proof -
  have p: "fold (\<lambda>read q. parse q (concat read)) reads (m_parser c) = (m_parser c)\<lparr>m_messages := ms\<rparr>"
    using parse_cut [OF assms(1,3,4)] assms(2) by simp
  from reads_to_plugins [OF assms(5,2)] p assms(2,6) show ?thesis by (simp add: deliver_all parser_no_messages)
qed

text \<open>
  C3: the bot answers a ping of the server: once the core has received the line and the \<open>Ping\<close>
  plugin has had its turn, the line \<open>PONG\<close> with the same text has been passed to the socket,
  whatever other plugins are loaded.
\<close>

theorem ping_pong_end_to_end:
  assumes "idle (m_parser c)" and "m_messages (m_parser c) = []" and "line_safe x"
    and "i < length (m_plugins c)" and "m_class (m_plugins c ! i) = Ping_class"
    and "m_command_parser (m_plugins c ! i) = None" and "m_incoming (m_plugins c ! i) = []"
    and "receive_handler env (Received (toString (IRCMessage ''PING'' [x]) False)) c = Inr c1"
  shows "\<exists>c2. plugin_turn env i c1 = Inr c2 \<and>
    outgoing c2 = outgoing c1 @ [''PONG :'' @ x @ [CR, LF]] \<and> m_incoming (m_plugins c2 ! i) = []"
proof -
  let ?ping = "IRCMessage ''PING'' [x]"
  let ?p = "m_plugins c ! i"
  have "canonical ?ping"
    using assms(3) by (simp add: canonical_def canonical_prefix_def canonical_command_def
        canonical_params_def has_prefix_def is_alpha_def is_digit_def less_eq_char_def)
  then have "m_plugins c1 = map (fold deliver [?ping]) (m_plugins c)"
    using stream_to_plugins(1) [OF assms(1,2), of "[?ping]" env c1] assms(8) by simp
  then have p1: "m_plugins c1 ! i = deliver ?ping ?p" "i < length (m_plugins c1)"
    using assms(4) by simp_all
  have "accepts ?ping ?p"
    using assms(5,6) by (simp add: accepts_def preFilter_eq Ping_class_def Ping_filter_def)
  then have d: "m_incoming (deliver ?ping ?p) = [?ping]" "m_class (deliver ?ping ?p) = Ping_class"
    "m_command_parser (deliver ?ping ?p) = None"
    using assms(5-7) by (simp_all add: deliver_def receive_def)
  let ?q = "(deliver ?ping ?p)\<lparr>m_incoming := []\<rparr>"
  have "run_handler (uptime_now env) (process_message ?ping ?q) ?q = (?q, [Send (IRCMessage ''PONG'' [x])], None)"
    using d by (simp add: run_handler_def process_message_def Ping_class_def base_class_def Ping_onMessage_def
        handler_simps fault_simps)
  then have "plugin_turn env i c1 =
      Inr (send_message (IRCMessage ''PONG'' [x]) (c1\<lparr>m_plugins := (m_plugins c1)[i := ?q]\<rparr>))"
    using p1 d by (simp add: plugin_turn_def vec_at_def getCommand_def)
  then show ?thesis
    using p1 by (simp add: send_message_def send_text_def IRCMessage_toString params_string_def)
qed

section \<open>A concrete run\<close>

definition ping_core :: "(yaml_node, nat) core" where
  "ping_core = (Core Undefined)\<lparr>receiving := True,
     m_plugins := [Plugin Ping_class 0 \<lparr>pc_id = ''ping'', pc_config = Undefined\<rparr>]\<rparr>"

lemma ping_core_simps:
  "m_parser ping_core = new_IRCParser" "length (m_plugins ping_core) = 1"
  "m_class (m_plugins ping_core ! 0) = Ping_class" "m_command_parser (m_plugins ping_core ! 0) = None"
  "m_incoming (m_plugins ping_core ! 0) = []"
  by (simp_all add: ping_core_def Core_def Plugin_def)

lemma new_parser_empty: "m_messages new_IRCParser = []"
  by (simp add: new_IRCParser_def)

definition ping_core_after :: "string \<Rightarrow> (yaml_node, nat) core" where
  "ping_core_after bytes = value_or ping_core (receive_handler example_env (Received bytes) ping_core)"

definition example_reads :: "string list list" where
  "example_reads = [take 2 (line_pieces example_message), drop 2 (line_pieces example_message) @ take 3 (line_pieces example_ping),
     drop 3 (line_pieces example_ping)]"

theorem server_stream_delivered_witness:
  "m_incoming (m_plugins (value_or ping_core
     (fold_result (\<lambda>read. receive_handler example_env (Received (concat read))) example_reads ping_core)) ! 0) = [example_ping]"
proof -
  let ?f = "fold_result (\<lambda>read. receive_handler example_env (Received (concat read))) example_reads ping_core"
  have ok: "?f = Inr (value_or ping_core ?f)" by (rule is_ok_value) code_simp
  have f: "filter (\<lambda>m. accepts m (m_plugins ping_core ! 0)) [example_message, example_ping] = [example_ping]"
    by code_simp
  have "\<forall>m \<in> set [example_message, example_ping]. canonical m" using canonical_examples by simp
  moreover have "concat example_reads = concat (map line_pieces [example_message, example_ping])"
    by (simp add: example_reads_def)
  ultimately show ?thesis
    using server_stream_delivered [OF _ _ _ _ ok, of "[example_message, example_ping]" 0] f idle_new new_parser_empty
    by (simp add: ping_core_simps)
qed

theorem ping_pong_end_to_end_witness:
  "\<exists>c2. plugin_turn example_env 0 (ping_core_after (toString (IRCMessage ''PING'' [''a b'']) False)) = Inr c2 \<and>
     outgoing c2 = [''PONG :'' @ ''a b'' @ [CR, LF]]"
proof -
  let ?bytes = "toString (IRCMessage ''PING'' [''a b'']) False"
  have ok: "receive_handler example_env (Received ?bytes) ping_core = Inr (ping_core_after ?bytes)"
    unfolding ping_core_after_def by (rule is_ok_value) code_simp
  have "outgoing (ping_core_after ?bytes) = []" by code_simp
  moreover have "line_safe ''a b''" by (simp add: line_safe_def)
  ultimately show ?thesis
    using ping_pong_end_to_end [OF _ _ _ _ _ _ _ ok, of 0] idle_new new_parser_empty
    by (auto simp: ping_core_simps)
qed

end
